(* ===== verification/BF_Prelude.thy ===== *)
theory BF_Prelude
  imports Main "HOL-Library.Word"
begin

text \<open>
  Shared vocabulary of the Byteflow development: the Rust machine integers as words, results
  as sums with their bind, the little-endian byte codecs of the module format, saturating and
  casting arithmetic on \<open>usize\<close>, and the list facts every component uses.

  Conventions. \<open>u8\<close>, \<open>u16\<close>, \<open>u32\<close>, \<open>u64\<close>, \<open>u128\<close> are words of that
  width and \<open>i32\<close>, \<open>i64\<close> are words of that width read with \<open>sint\<close>, so an \<open>as\<close>
  cast between types of one width is the identity. \<open>usize\<close> (lengths, indices, program
  counters, byte counts) is a \<open>nat\<close>; where the source adds or casts one, the 64-bit bound
  is written out. \<open>Result<T, E>\<close> is \<open>'e + 't\<close> with \<open>Inl\<close> for \<open>Err\<close>.
\<close>

unbundle bit_operations_syntax

section \<open>Machine types\<close>

type_synonym u8 = "8 word"
type_synonym u16 = "16 word"
type_synonym u32 = "32 word"
type_synonym u64 = "64 word"
type_synonym u128 = "128 word"
type_synonym i32 = "32 word"
type_synonym i64 = "64 word"
type_synonym usize = nat
type_synonym bytes = "8 word list"

named_theorems res_simps
  \<comment> \<open>rewriting of \<open>Result\<close> binds\<close>

named_theorems machine_defs
  \<comment> \<open>definitions the component proofs unfold together\<close>

section \<open>Results\<close>

text \<open>The \<open>?\<close> operator: stop at the first error.\<close>

definition bind_res :: "'e + 'a \<Rightarrow> ('a \<Rightarrow> 'e + 'b) \<Rightarrow> 'e + 'b" where
  "bind_res m f = (case m of Inl e \<Rightarrow> Inl e | Inr x \<Rightarrow> f x)"

definition ok_or :: "'a option \<Rightarrow> 'e \<Rightarrow> 'e + 'a" where
  "ok_or x e = (case x of None \<Rightarrow> Inl e | Some v \<Rightarrow> Inr v)"

definition is_ok :: "'e + 'a \<Rightarrow> bool" where
  "is_ok r = (case r of Inl _ \<Rightarrow> False | Inr _ \<Rightarrow> True)"

lemma bind_res_simps [simp, res_simps]:
  "bind_res (Inl e) f = Inl e"
  "bind_res (Inr x) f = f x"
  by (simp_all add: bind_res_def)

lemma bind_res_Inr_iff [res_simps]:
  "bind_res m f = Inr y \<longleftrightarrow> (\<exists>x. m = Inr x \<and> f x = Inr y)"
  by (cases m) auto

lemma bind_res_Inl_iff [res_simps]:
  "bind_res m f = Inl e \<longleftrightarrow> m = Inl e \<or> (\<exists>x. m = Inr x \<and> f x = Inl e)"
  by (cases m) auto

lemma ok_or_simps [simp, res_simps]:
  "ok_or None e = Inl e"
  "ok_or (Some v) e = Inr v"
  by (simp_all add: ok_or_def)

lemma ok_or_Inr_iff [res_simps]: "ok_or x e = Inr v \<longleftrightarrow> x = Some v"
  by (cases x) auto

lemma is_ok_simps [simp, res_simps]: "\<not> is_ok (Inl e)" "is_ok (Inr x)"
  by (simp_all add: is_ok_def)

lemma is_ok_iff: "is_ok r \<longleftrightarrow> (\<exists>x. r = Inr x)"
  by (cases r) auto

section \<open>Slices\<close>

text \<open>\<open>slice.get(i)\<close>: \<open>None\<close> out of range.\<close>

definition nth_opt :: "'a list \<Rightarrow> nat \<Rightarrow> 'a option" where
  "nth_opt xs i = (if i < length xs then Some (xs ! i) else None)"

lemma nth_opt_Some_iff: "nth_opt xs i = Some x \<longleftrightarrow> i < length xs \<and> xs ! i = x"
  by (auto simp: nth_opt_def)

lemma nth_opt_None_iff: "nth_opt xs i = None \<longleftrightarrow> length xs \<le> i"
  by (simp add: nth_opt_def not_less)

lemma nth_opt_in [simp]: "i < length xs \<Longrightarrow> nth_opt xs i = Some (xs ! i)"
  by (simp add: nth_opt_def)

lemma nth_opt_out [simp]: "length xs \<le> i \<Longrightarrow> nth_opt xs i = None"
  by (simp add: nth_opt_def)

lemma nth_opt_set: "nth_opt xs i = Some x \<Longrightarrow> x \<in> set xs"
  by (auto simp: nth_opt_Some_iff)

lemma nth_opt_map: "nth_opt (map f xs) i = map_option f (nth_opt xs i)"
  by (simp add: nth_opt_def)

text \<open>\<open>iter().position(p)\<close>: index of the first element satisfying \<open>p\<close>.\<close>

fun position :: "('a \<Rightarrow> bool) \<Rightarrow> 'a list \<Rightarrow> nat option" where
  "position p [] = None"
| "position p (x # xs) = (if p x then Some 0 else map_option Suc (position p xs))"

lemma position_Some:
  "position p xs = Some i \<Longrightarrow> i < length xs \<and> p (xs ! i) \<and> (\<forall>j<i. \<not> p (xs ! j))"
proof (induction xs arbitrary: i)
  case Nil
  then show ?case by simp
next
  case (Cons x xs)
  show ?case
  proof (cases "p x")
    case True
    with Cons.prems show ?thesis by simp
  next
    case False
    with Cons.prems obtain k where k: "position p xs = Some k" "i = Suc k" by auto
    with Cons.IH [OF k(1)] False show ?thesis
      by (auto simp: less_Suc_eq_0_disj)
  qed
qed

lemma position_None_iff: "position p xs = None \<longleftrightarrow> (\<forall>x\<in>set xs. \<not> p x)"
  by (induction xs) auto

text \<open>\<open>VecDeque::remove(i)\<close>, for an index in range.\<close>

definition remove_nth :: "nat \<Rightarrow> 'a list \<Rightarrow> 'a list" where
  "remove_nth i xs = take i xs @ drop (Suc i) xs"

lemma length_remove_nth: "i < length xs \<Longrightarrow> length (remove_nth i xs) = length xs - 1"
  by (simp add: remove_nth_def)

lemma remove_nth_split: "i < length xs \<Longrightarrow> xs = take i xs @ xs ! i # drop (Suc i) xs"
  by (rule id_take_nth_drop)

lemma set_remove_nth_subset: "set (remove_nth i xs) \<subseteq> set xs"
  by (auto simp: remove_nth_def dest: in_set_takeD in_set_dropD)

lemma sum_list_remove_nth:
  fixes f :: "'a \<Rightarrow> nat"
  assumes "i < length xs"
  shows "sum_list (map f (remove_nth i xs)) + f (xs ! i) = sum_list (map f xs)"
proof -
  have "sum_list (map f xs) = sum_list (map f (take i xs @ xs ! i # drop (Suc i) xs))"
    using remove_nth_split [OF assms] by simp
  then show ?thesis by (simp add: remove_nth_def)
qed

section \<open>Saturating and casting arithmetic\<close>

definition usize_max :: nat where
  "usize_max = 2 ^ 64 - 1"

definition usize_sat_add :: "nat \<Rightarrow> nat \<Rightarrow> nat" where
  "usize_sat_add a b = min (a + b) usize_max"

definition usize_sat_mul :: "nat \<Rightarrow> nat \<Rightarrow> nat" where
  "usize_sat_mul a b = min (a * b) usize_max"

text \<open>\<open>saturating_sub\<close> on \<open>usize\<close> is truncating subtraction of \<open>nat\<close>.\<close>

definition usize_sat_sub :: "nat \<Rightarrow> nat \<Rightarrow> nat" where
  "usize_sat_sub a b = a - b"

definition u64_sat_add :: "u64 \<Rightarrow> u64 \<Rightarrow> u64" where
  "u64_sat_add a b = (if unat a + unat b < 2 ^ 64 then a + b else - 1)"

text \<open>\<open>i64 as usize\<close>: two's complement.\<close>

definition i64_as_usize :: "int \<Rightarrow> nat" where
  "i64_as_usize t = nat (t mod 2 ^ 64)"

lemma i64_as_usize_nonneg: "0 \<le> t \<Longrightarrow> t < 2 ^ 64 \<Longrightarrow> i64_as_usize t = nat t"
  by (simp add: i64_as_usize_def)

lemma usize_sat_add_bound: "usize_sat_add a b \<le> usize_max"
  by (simp add: usize_sat_add_def)

lemma usize_sat_add_le: "usize_sat_add a b \<le> a + b"
  by (simp add: usize_sat_add_def)

lemma usize_sat_add_exact: "a + b \<le> usize_max \<Longrightarrow> usize_sat_add a b = a + b"
  by (simp add: usize_sat_add_def)

lemma usize_sat_add_le_limit:
  assumes "usize_sat_add a b \<le> l" and "l < usize_max"
  shows "usize_sat_add a b = a + b"
  using assms by (auto simp: usize_sat_add_def min_def split: if_splits)

lemma u64_sat_add_mono: "a \<le> u64_sat_add a b"
proof (cases "unat a + unat b < 2 ^ 64")
  case True
  then have "unat (a + b) = unat a + unat b" by (subst unat_add_lem [symmetric]) simp
  with True show ?thesis by (simp add: u64_sat_add_def word_le_nat_alt)
next
  case False
  then show ?thesis by (simp add: u64_sat_add_def)
qed

section \<open>Little-endian codecs\<close>

text \<open>\<open>to_le_bytes\<close> and \<open>from_le_bytes\<close> on \<open>k\<close> bytes.\<close>

fun to_le :: "nat \<Rightarrow> nat \<Rightarrow> bytes" where
  "to_le 0 n = []"
| "to_le (Suc k) n = word_of_nat (n mod 256) # to_le k (n div 256)"

fun from_le :: "bytes \<Rightarrow> nat" where
  "from_le [] = 0"
| "from_le (b # bs) = unat b + 256 * from_le bs"

lemma length_to_le [simp]: "length (to_le k n) = k"
  by (induction k arbitrary: n) auto

lemma unat_byte_of_nat: "n < 256 \<Longrightarrow> unat (word_of_nat n :: u8) = n"
  by (simp add: unat_of_nat)

lemma from_le_to_le: "from_le (to_le k n) = n mod 256 ^ k"
proof (induction k arbitrary: n)
  case 0
  then show ?case by simp
next
  case (Suc k)
  have "n mod (256 * 256 ^ k) = 256 * (n div 256 mod 256 ^ k) + n mod 256"
    by (simp add: mod_mult2_eq)
  with Suc show ?case by (simp add: unat_byte_of_nat)
qed

lemma from_le_bound: "from_le bs < 256 ^ length bs"
proof (induction bs)
  case Nil
  then show ?case by simp
next
  case (Cons b bs)
  have "unat b < 256" using unsigned_less [of b] by simp
  with Cons show ?case by simp
qed

lemma to_le_from_le: "to_le (length bs) (from_le bs) = bs"
proof (induction bs)
  case Nil
  then show ?case by simp
next
  case (Cons b bs)
  have "unat b < 256" using unsigned_less [of b] by simp
  with Cons show ?case by simp
qed

text \<open>The same on words: a word of \<open>8 * k\<close> bits survives the trip.\<close>

lemma word_le_roundtrip:
  fixes w :: "'a::len word"
  assumes "LENGTH('a) = 8 * k"
  shows "word_of_nat (from_le (to_le k (unat w))) = w"
proof -
  have "(256::nat) ^ k = 2 ^ LENGTH('a)"
    by (simp add: assms power_mult)
  then have "unat w mod 256 ^ k = unat w"
    using unsigned_less [of w] by simp
  then show ?thesis by (simp add: from_le_to_le)
qed

end
