(* ===== verification/BF_Opcode.thy ===== *)
theory BF_Opcode
  imports BF_Prelude
begin

text \<open>
  \<open>src/crates/byteflow/src/bytecode/opcode.rs\<close>: the instruction set, its fixed byte
  encoding (\<open>#[repr(u8)]\<close>, \<open>Opcode::as_u8\<close>), the decoder \<open>Opcode::from_u8\<close> and the
  mnemonic of \<open>Display\<close>. The byte encoding is part of the module ABI: the lemmas show that it
  is injective and that the decoder is exactly its inverse on the assigned bytes.
\<close>

datatype opcode =
    Halt
  | LoadConst
  | Move
  | LoadImm
  | Add
  | Sub
  | Mul
  | Div
  | Mod
  | Neg
  | Eq
  | Lt
  | Le
  | Jump
  | Branch
  | Call
  | Return
  | CallNative
  | Spawn
  | Yield
  | Sleep
  | Exit
  | SelfPid
  | Send
  | Receive
  | ReceiveTimeout
  | ReceiveMatch
  | ReceiveMatchImm
  | Ask
  | Monitor
  | Demonitor
  | Link
  | Unlink
  | AskTimeout
  | Delegate
  | FreshRequestId
  | ReceiveMatchCorr
  | ReceiveMatchCorrImm
  | RegisterName
  | Whereis
  | Trap
  | Nop

primrec as_u8 :: "opcode \<Rightarrow> u8" where
  "as_u8 Halt = 0x00"
| "as_u8 LoadConst = 0x01"
| "as_u8 Move = 0x02"
| "as_u8 LoadImm = 0x03"
| "as_u8 Add = 0x10"
| "as_u8 Sub = 0x11"
| "as_u8 Mul = 0x12"
| "as_u8 Div = 0x13"
| "as_u8 Mod = 0x14"
| "as_u8 Neg = 0x15"
| "as_u8 Eq = 0x18"
| "as_u8 Lt = 0x19"
| "as_u8 Le = 0x1A"
| "as_u8 Jump = 0x20"
| "as_u8 Branch = 0x21"
| "as_u8 Call = 0x30"
| "as_u8 Return = 0x31"
| "as_u8 CallNative = 0x32"
| "as_u8 Spawn = 0x40"
| "as_u8 Yield = 0x41"
| "as_u8 Sleep = 0x42"
| "as_u8 Exit = 0x43"
| "as_u8 SelfPid = 0x44"
| "as_u8 Send = 0x50"
| "as_u8 Receive = 0x51"
| "as_u8 ReceiveTimeout = 0x52"
| "as_u8 ReceiveMatch = 0x53"
| "as_u8 ReceiveMatchImm = 0x54"
| "as_u8 Ask = 0x55"
| "as_u8 Monitor = 0x56"
| "as_u8 Demonitor = 0x57"
| "as_u8 Link = 0x58"
| "as_u8 Unlink = 0x59"
| "as_u8 AskTimeout = 0x5A"
| "as_u8 Delegate = 0x5B"
| "as_u8 FreshRequestId = 0x5C"
| "as_u8 ReceiveMatchCorr = 0x5D"
| "as_u8 ReceiveMatchCorrImm = 0x5E"
| "as_u8 RegisterName = 0x62"
| "as_u8 Whereis = 0x63"
| "as_u8 Trap = 0x60"
| "as_u8 Nop = 0x61"

definition from_u8 :: "u8 \<Rightarrow> opcode option" where
  "from_u8 byte =
     (if byte = 0x00 then Some Halt
      else if byte = 0x01 then Some LoadConst
      else if byte = 0x02 then Some Move
      else if byte = 0x03 then Some LoadImm
      else if byte = 0x10 then Some Add
      else if byte = 0x11 then Some Sub
      else if byte = 0x12 then Some Mul
      else if byte = 0x13 then Some Div
      else if byte = 0x14 then Some Mod
      else if byte = 0x15 then Some Neg
      else if byte = 0x18 then Some Eq
      else if byte = 0x19 then Some Lt
      else if byte = 0x1A then Some Le
      else if byte = 0x20 then Some Jump
      else if byte = 0x21 then Some Branch
      else if byte = 0x30 then Some Call
      else if byte = 0x31 then Some Return
      else if byte = 0x32 then Some CallNative
      else if byte = 0x40 then Some Spawn
      else if byte = 0x41 then Some Yield
      else if byte = 0x42 then Some Sleep
      else if byte = 0x43 then Some Exit
      else if byte = 0x44 then Some SelfPid
      else if byte = 0x50 then Some Send
      else if byte = 0x51 then Some Receive
      else if byte = 0x52 then Some ReceiveTimeout
      else if byte = 0x53 then Some ReceiveMatch
      else if byte = 0x54 then Some ReceiveMatchImm
      else if byte = 0x55 then Some Ask
      else if byte = 0x56 then Some Monitor
      else if byte = 0x57 then Some Demonitor
      else if byte = 0x58 then Some Link
      else if byte = 0x59 then Some Unlink
      else if byte = 0x5A then Some AskTimeout
      else if byte = 0x5B then Some Delegate
      else if byte = 0x5C then Some FreshRequestId
      else if byte = 0x5D then Some ReceiveMatchCorr
      else if byte = 0x5E then Some ReceiveMatchCorrImm
      else if byte = 0x60 then Some Trap
      else if byte = 0x62 then Some RegisterName
      else if byte = 0x63 then Some Whereis
      else if byte = 0x61 then Some Nop
      else None)"

primrec opcode_name :: "opcode \<Rightarrow> string" where
  "opcode_name Halt = ''Halt''"
| "opcode_name LoadConst = ''LoadConst''"
| "opcode_name Move = ''Move''"
| "opcode_name LoadImm = ''LoadImm''"
| "opcode_name Add = ''Add''"
| "opcode_name Sub = ''Sub''"
| "opcode_name Mul = ''Mul''"
| "opcode_name Div = ''Div''"
| "opcode_name Mod = ''Mod''"
| "opcode_name Neg = ''Neg''"
| "opcode_name Eq = ''Eq''"
| "opcode_name Lt = ''Lt''"
| "opcode_name Le = ''Le''"
| "opcode_name Jump = ''Jump''"
| "opcode_name Branch = ''Branch''"
| "opcode_name Call = ''Call''"
| "opcode_name Return = ''Return''"
| "opcode_name CallNative = ''CallNative''"
| "opcode_name Spawn = ''Spawn''"
| "opcode_name Yield = ''Yield''"
| "opcode_name Sleep = ''Sleep''"
| "opcode_name Exit = ''Exit''"
| "opcode_name SelfPid = ''SelfPid''"
| "opcode_name Send = ''Send''"
| "opcode_name Receive = ''Receive''"
| "opcode_name ReceiveTimeout = ''ReceiveTimeout''"
| "opcode_name ReceiveMatch = ''ReceiveMatch''"
| "opcode_name ReceiveMatchImm = ''ReceiveMatchImm''"
| "opcode_name Ask = ''Ask''"
| "opcode_name Monitor = ''Monitor''"
| "opcode_name Demonitor = ''Demonitor''"
| "opcode_name Link = ''Link''"
| "opcode_name Unlink = ''Unlink''"
| "opcode_name AskTimeout = ''AskTimeout''"
| "opcode_name Delegate = ''Delegate''"
| "opcode_name FreshRequestId = ''FreshRequestId''"
| "opcode_name ReceiveMatchCorr = ''ReceiveMatchCorr''"
| "opcode_name ReceiveMatchCorrImm = ''ReceiveMatchCorrImm''"
| "opcode_name RegisterName = ''RegisterName''"
| "opcode_name Whereis = ''Whereis''"
| "opcode_name Trap = ''Trap''"
| "opcode_name Nop = ''Nop''"

section \<open>The encoding is a bijection onto the assigned bytes\<close>

lemma from_u8_as_u8 [simp]: "from_u8 (as_u8 op) = Some op"
  by (cases op) (simp_all add: from_u8_def)

lemma from_u8_Some: "from_u8 byte = Some op \<Longrightarrow> as_u8 op = byte"
  by (auto simp: from_u8_def split: if_splits)

lemma as_u8_inj [simp]: "as_u8 a = as_u8 b \<longleftrightarrow> a = b"
  by (metis from_u8_as_u8 option.inject)

lemma from_u8_None_iff: "from_u8 byte = None \<longleftrightarrow> byte \<notin> range as_u8"
proof
  assume none: "from_u8 byte = None"
  show "byte \<notin> range as_u8"
  proof
    assume "byte \<in> range as_u8"
    then obtain op where "byte = as_u8 op" by blast
    with none show False by simp
  qed
next
  assume "byte \<notin> range as_u8"
  then show "from_u8 byte = None"
    by (cases "from_u8 byte") (auto dest: from_u8_Some)
qed

lemma opcode_name_inj: "opcode_name a = opcode_name b \<Longrightarrow> a = b"
  by (cases a; cases b; simp)

section \<open>Properties\<close>

text \<open>The opcode byte codec is a bijection onto the valid bytes: a byte decodes to an opcode exactly
  when it is that opcode's encoding, so every opcode survives the wire and no other byte is accepted.\<close>

theorem opcode_byte_codec: "from_u8 b = Some op \<longleftrightarrow> b = as_u8 op"
  using from_u8_Some from_u8_as_u8 by auto

end
