(* ===== verification/BF_Float64.thy ===== *)
theory BF_Float64
  imports BF_Prelude
begin

text \<open>
  Rust's \<open>f64\<close>, as far as the source uses it: \<open>Value::Float\<close> arithmetic and comparison in the
  interpreter (\<open>vm/machine.rs\<close>) and the token refill of \<open>scheduler/quota.rs\<close>. A float is its
  IEEE-754 binary64 bit pattern; the arithmetic rounds to nearest, ties to even, with
  subnormals, signed zeros and infinities. Rust leaves the payload of a computed NaN open; the
  model returns the canonical quiet NaN.
\<close>

type_synonym f64 = "64 word"

section \<open>Reading a bit pattern\<close>

definition f64_sign :: "f64 \<Rightarrow> bool" where
  "f64_sign x = (2 ^ 63 \<le> unat x)"

definition f64_mag :: "f64 \<Rightarrow> nat" where
  "f64_mag x = unat x mod 2 ^ 63"

definition f64_exp :: "f64 \<Rightarrow> nat" where
  "f64_exp x = f64_mag x div 2 ^ 52"

definition f64_frac :: "f64 \<Rightarrow> nat" where
  "f64_frac x = unat x mod 2 ^ 52"

definition f64_is_nan :: "f64 \<Rightarrow> bool" where
  "f64_is_nan x = (2047 * 2 ^ 52 < f64_mag x)"

definition f64_is_inf :: "f64 \<Rightarrow> bool" where
  "f64_is_inf x = (f64_mag x = 2047 * 2 ^ 52)"

definition f64_is_zero :: "f64 \<Rightarrow> bool" where
  "f64_is_zero x = (f64_mag x = 0)"

text \<open>A finite value is \<open>f64_mant x * 2 powr f64_qexp x\<close>, up to its sign.\<close>

definition f64_mant :: "f64 \<Rightarrow> nat" where
  "f64_mant x = (if f64_exp x = 0 then f64_frac x else 2 ^ 52 + f64_frac x)"

definition f64_qexp :: "f64 \<Rightarrow> int" where
  "f64_qexp x = (if f64_exp x = 0 then - 1074 else int (f64_exp x) - 1075)"

section \<open>Building a bit pattern\<close>

definition f64_make :: "bool \<Rightarrow> nat \<Rightarrow> f64" where
  "f64_make s m = word_of_nat ((if s then 2 ^ 63 else 0) + m)"

definition f64_nan :: f64 where
  "f64_nan = 0x7FF8000000000000"

definition f64_inf :: "bool \<Rightarrow> f64" where
  "f64_inf s = f64_make s (2047 * 2 ^ 52)"

fun bitlen :: "nat \<Rightarrow> nat" where
  "bitlen n = (if n = 0 then 0 else Suc (bitlen (n div 2)))"

declare bitlen.simps [simp del]

text \<open>
  Round \<open>m * 2 powr e\<close> to the nearest binary64, ties to even; \<open>sticky\<close> says that a nonzero
  remainder below the last bit of \<open>m\<close> was cut off.
\<close>

definition f64_round :: "bool \<Rightarrow> nat \<Rightarrow> int \<Rightarrow> bool \<Rightarrow> f64" where
  "f64_round s m e sticky =
     (if m = 0 then f64_make s 0
      else
        let sh = max (int (bitlen m) - 53) (- 1074 - e);
            q = (if sh \<le> 0 then m * 2 ^ nat (- sh)
                 else
                   let d = 2 ^ nat sh; q0 = m div d; r = m mod d
                   in if d < 2 * r \<or> (2 * r = d \<and> (sticky \<or> odd q0)) then q0 + 1 else q0)
        in f64_make s (min (nat (e + sh + 1074) * 2 ^ 52 + q) (2047 * 2 ^ 52)))"

section \<open>Arithmetic\<close>

definition f64_neg :: "f64 \<Rightarrow> f64" where
  "f64_neg x = f64_make (\<not> f64_sign x) (f64_mag x)"

definition f64_signed :: "f64 \<Rightarrow> int \<Rightarrow> int" where
  "f64_signed x e = (if f64_sign x then - 1 else 1) * int (f64_mant x) * 2 ^ nat (f64_qexp x - e)"

definition f64_add :: "f64 \<Rightarrow> f64 \<Rightarrow> f64" where
  "f64_add x y =
     (if f64_is_nan x \<or> f64_is_nan y then f64_nan
      else if f64_is_inf x then
        (if f64_is_inf y \<and> f64_sign x \<noteq> f64_sign y then f64_nan else x)
      else if f64_is_inf y then y
      else
        let e = min (f64_qexp x) (f64_qexp y);
            t = f64_signed x e + f64_signed y e
        in if t = 0 then f64_make (f64_sign x \<and> f64_sign y) 0
           else f64_round (t < 0) (nat \<bar>t\<bar>) e False)"

definition f64_sub :: "f64 \<Rightarrow> f64 \<Rightarrow> f64" where
  "f64_sub x y = (if f64_is_nan y then f64_nan else f64_add x (f64_neg y))"

definition f64_mul :: "f64 \<Rightarrow> f64 \<Rightarrow> f64" where
  "f64_mul x y =
     (let s = (f64_sign x \<noteq> f64_sign y) in
      if f64_is_nan x \<or> f64_is_nan y then f64_nan
      else if f64_is_inf x \<or> f64_is_inf y then
        (if f64_is_zero x \<or> f64_is_zero y then f64_nan else f64_inf s)
      else f64_round s (f64_mant x * f64_mant y) (f64_qexp x + f64_qexp y) False)"

definition f64_div :: "f64 \<Rightarrow> f64 \<Rightarrow> f64" where
  "f64_div x y =
     (let s = (f64_sign x \<noteq> f64_sign y) in
      if f64_is_nan x \<or> f64_is_nan y then f64_nan
      else if f64_is_inf x then (if f64_is_inf y then f64_nan else f64_inf s)
      else if f64_is_inf y then f64_make s 0
      else if f64_is_zero y then (if f64_is_zero x then f64_nan else f64_inf s)
      else
        let n = f64_mant x * 2 ^ 108; d = f64_mant y
        in f64_round s (n div d) (f64_qexp x - f64_qexp y - 108) (n mod d \<noteq> 0))"

section \<open>Comparison\<close>

text \<open>Away from NaN, the order of the values is the order of the signed magnitudes.\<close>

definition f64_key :: "f64 \<Rightarrow> int" where
  "f64_key x = (if f64_sign x then - int (f64_mag x) else int (f64_mag x))"

definition f64_eq :: "f64 \<Rightarrow> f64 \<Rightarrow> bool" where
  "f64_eq x y = (\<not> f64_is_nan x \<and> \<not> f64_is_nan y \<and> f64_key x = f64_key y)"

definition f64_lt :: "f64 \<Rightarrow> f64 \<Rightarrow> bool" where
  "f64_lt x y = (\<not> f64_is_nan x \<and> \<not> f64_is_nan y \<and> f64_key x < f64_key y)"

definition f64_le :: "f64 \<Rightarrow> f64 \<Rightarrow> bool" where
  "f64_le x y = (\<not> f64_is_nan x \<and> \<not> f64_is_nan y \<and> f64_key x \<le> f64_key y)"

section \<open>Casts\<close>

text \<open>\<open>i64 as f64\<close> rounds to nearest even; \<open>f64 as i64\<close> truncates, saturates, sends NaN to 0.\<close>

definition i64_to_f64 :: "i64 \<Rightarrow> f64" where
  "i64_to_f64 i = f64_round (sint i < 0) (nat \<bar>sint i\<bar>) 0 False"

definition f64_trunc :: "f64 \<Rightarrow> int" where
  "f64_trunc x =
     (let m = (if 0 \<le> f64_qexp x then f64_mant x * 2 ^ nat (f64_qexp x)
               else f64_mant x div 2 ^ nat (- f64_qexp x))
      in if f64_sign x then - int m else int m)"

definition f64_to_i64 :: "f64 \<Rightarrow> i64" where
  "f64_to_i64 x =
     (if f64_is_nan x then 0
      else if f64_is_inf x then word_of_int (if f64_sign x then - (2 ^ 63) else 2 ^ 63 - 1)
      else word_of_int (max (- (2 ^ 63)) (min (2 ^ 63 - 1) (f64_trunc x))))"

section \<open>Facts\<close>

lemma f64_eq_sym: "f64_eq x y = f64_eq y x"
  by (auto simp: f64_eq_def)

lemma f64_eq_refl: "f64_eq x x \<longleftrightarrow> \<not> f64_is_nan x"
  by (simp add: f64_eq_def)

lemma f64_le_iff_lt_or_eq: "f64_le x y \<longleftrightarrow> f64_lt x y \<or> f64_eq x y"
  by (auto simp: f64_le_def f64_lt_def f64_eq_def)

lemma f64_trichotomy:
  "\<not> f64_is_nan x \<Longrightarrow> \<not> f64_is_nan y \<Longrightarrow> f64_lt x y \<or> f64_eq x y \<or> f64_lt y x"
  by (auto simp: f64_lt_def f64_eq_def)

lemma f64_nan_unordered: "f64_is_nan x \<Longrightarrow> \<not> f64_lt x y \<and> \<not> f64_lt y x \<and> \<not> f64_le x y \<and> \<not> f64_eq x y"
  by (simp add: f64_lt_def f64_le_def f64_eq_def)

lemma f64_mag_bound: "f64_mag x < 2 ^ 63"
  by (simp add: f64_mag_def)

lemma unat_f64_make:
  assumes "m < 2 ^ 63"
  shows "unat (f64_make s m) = (if s then 2 ^ 63 else 0) + m"
proof -
  have "(if s then 2 ^ 63 else 0) + m < 2 ^ 64" using assms by (cases s) simp_all
  moreover have "LENGTH(64) = 64" by simp
  ultimately show ?thesis unfolding f64_make_def unat_of_nat by (metis mod_less)
qed

lemma f64_mag_make: "m < 2 ^ 63 \<Longrightarrow> f64_mag (f64_make s m) = m"
  by (simp add: f64_mag_def unat_f64_make)

lemma f64_sign_make: "m < 2 ^ 63 \<Longrightarrow> f64_sign (f64_make s m) = s"
  by (simp add: f64_sign_def unat_f64_make)

lemma f64_make_sign_mag: "f64_make (f64_sign x) (f64_mag x) = x"
proof (cases "2 ^ 63 \<le> unat x")
  case True
  moreover have "unat x < 2 ^ 64" using unsigned_less [of x] by simp
  ultimately have "unat x mod 2 ^ 63 = unat x - 2 ^ 63" by (simp add: mod_if)
  with True have "(if f64_sign x then 2 ^ 63 else 0) + f64_mag x = unat x"
    by (simp add: f64_sign_def f64_mag_def)
  then show ?thesis by (simp add: f64_make_def)
next
  case False
  then show ?thesis by (simp add: f64_make_def f64_sign_def f64_mag_def)
qed

lemma f64_neg_neg: "f64_neg (f64_neg x) = x"
  unfolding f64_neg_def
  by (simp only: f64_sign_make [OF f64_mag_bound] f64_mag_make [OF f64_mag_bound] not_not
      f64_make_sign_mag)

lemma f64_add_commute: "f64_add x y = f64_add y x"
proof (cases "f64_is_inf x \<and> f64_is_inf y \<and> f64_sign x = f64_sign y")
  case True
  then have "x = y" using f64_make_sign_mag [of x] f64_make_sign_mag [of y]
    by (simp add: f64_is_inf_def)
  then show ?thesis by simp
next
  case False
  then show ?thesis
    by (auto simp: f64_add_def Let_def min.commute add.commute conj_commute)
qed

lemma f64_mul_commute: "f64_mul x y = f64_mul y x"
proof -
  have "(f64_sign x \<noteq> f64_sign y) = (f64_sign y \<noteq> f64_sign x)" by blast
  then show ?thesis
    unfolding f64_mul_def Let_def
    by (simp add: disj_commute mult.commute add.commute)
qed

section \<open>Small integers convert exactly\<close>

lemma bitlen_bounds: "0 < m \<Longrightarrow> 0 < bitlen m \<and> 2 ^ (bitlen m - 1) \<le> m \<and> m < 2 ^ bitlen m"
proof (induction m rule: bitlen.induct)
  case (1 m)
  have eq: "bitlen m = Suc (bitlen (m div 2))"
    using 1 by (subst bitlen.simps) simp
  show ?case
  proof (cases "m = 1")
    case True
    then show ?thesis using eq by (simp add: bitlen.simps [of 0])
  next
    case False
    with 1 have "0 < m div 2" by (simp add: div_greater_zero_iff)
    with 1 have ih: "0 < bitlen (m div 2)" "2 ^ (bitlen (m div 2) - 1) \<le> m div 2"
        "m div 2 < 2 ^ bitlen (m div 2)"
      by simp_all
    from ih(1) obtain k where k: "bitlen (m div 2) = Suc k" by (cases "bitlen (m div 2)") auto
    with ih(2,3) have "2 ^ k \<le> m div 2" "m div 2 < 2 * 2 ^ k" by simp_all
    then have "2 * 2 ^ k \<le> m \<and> m < 4 * 2 ^ k" by linarith
    then show ?thesis by (simp add: eq k)
  qed
qed

lemma f64_round_small:
  assumes m: "0 < m" "m < 2 ^ 53"
  defines "q \<equiv> m * 2 ^ (53 - bitlen m)"
  shows "f64_round s m 0 b = f64_make s ((bitlen m + 1021) * 2 ^ 52 + q)"
    and "2 ^ 52 \<le> q" and "q < 2 ^ 53" and "bitlen m \<le> 53"
proof -
  have L: "0 < bitlen m" "2 ^ (bitlen m - 1) \<le> m" "m < 2 ^ bitlen m"
    using bitlen_bounds [OF m(1)] by simp_all
  have "(2::nat) ^ (bitlen m - 1) < 2 ^ 53" using L(2) m(2) by linarith
  then have "bitlen m - 1 < 53" by (rule power_less_imp_less_exp [rotated]) simp
  then show le: "bitlen m \<le> 53" by simp
  have "(2::nat) ^ (bitlen m - 1) * 2 ^ (53 - bitlen m) = 2 ^ 52"
    using L(1) le by (simp flip: power_add)
  then show lo: "2 ^ 52 \<le> q" using L(2) unfolding q_def by (metis mult_le_mono1)
  have "(2::nat) ^ bitlen m * 2 ^ (53 - bitlen m) = 2 ^ 53"
    using le by (simp flip: power_add)
  then show hi: "q < 2 ^ 53" using L(3) unfolding q_def
    by (metis mult_less_cancel2 zero_less_power zero_less_numeral)
  have sh: "max (int (bitlen m) - 53) (- 1074 - 0) = int (bitlen m) - 53" by simp
  have nn: "nat (- (int (bitlen m) - 53)) = 53 - bitlen m" by linarith
  have nn2: "nat (0 + (int (bitlen m) - 53) + 1074) = bitlen m + 1021" by linarith
  have mn: "min ((bitlen m + 1021) * 2 ^ 52 + q) (2047 * 2 ^ 52) = (bitlen m + 1021) * 2 ^ 52 + q"
    using le hi by (simp add: min_def)
  show "f64_round s m 0 b = f64_make s ((bitlen m + 1021) * 2 ^ 52 + q)"
    unfolding f64_round_def Let_def sh nn nn2
    using m le mn by (simp flip: q_def)
qed

lemma f64_trunc_round_small:
  assumes m: "0 < m" "m < 2 ^ 53"
  shows "f64_trunc (f64_round s m 0 b) = (if s then - int m else int m)"
    and "\<not> f64_is_nan (f64_round s m 0 b)" and "\<not> f64_is_inf (f64_round s m 0 b)"
proof -
  let ?q = "m * 2 ^ (53 - bitlen m)"
  let ?x = "f64_round s m 0 b"
  note r = f64_round_small(1) [OF m, of s b] f64_round_small(2-4) [OF m]
  define n where "n = (bitlen m + 1021) * 2 ^ 52 + ?q"
  have n: "n < 2047 * 2 ^ 52" using r(3,4) by (simp add: n_def)
  have x: "?x = f64_make s n" using r(1) by (simp add: n_def)
  have mag: "f64_mag ?x = n" and sgn: "f64_sign ?x = s"
    using n by (simp_all add: x f64_mag_make f64_sign_make)
  show "\<not> f64_is_nan ?x" and "\<not> f64_is_inf ?x"
    using n by (simp_all add: f64_is_nan_def f64_is_inf_def mag)
  obtain t where t: "?q = 2 ^ 52 + t" "t < 2 ^ 52"
    using r(2,3) by (metis add_diff_cancel_left' le_Suc_ex less_diff_conv2 mult_2 numeral_eq_Suc
        power_Suc pred_numeral_simps(3) le_add1)
  have n2: "n = (bitlen m + 1022) * 2 ^ 52 + t" by (simp add: n_def t(1))
  have ex: "f64_exp ?x = bitlen m + 1022"
    using t(2) by (simp add: f64_exp_def mag n2)
  have fr: "f64_frac ?x = t"
  proof -
    have "unat ?x mod 2 ^ 52 = f64_mag ?x mod 2 ^ 52"
      by (simp add: f64_mag_def mod_mod_cancel)
    also have "\<dots> = t" using t(2) unfolding mag n2 by (simp only: mod_mult_self3 mod_less)
    finally show ?thesis by (simp add: f64_frac_def)
  qed
  have mt: "f64_mant ?x = ?q" by (simp add: f64_mant_def ex fr t(1))
  have qe: "f64_qexp ?x = int (bitlen m) - 53" by (simp add: f64_qexp_def ex)
  show "f64_trunc ?x = (if s then - int m else int m)"
  proof (cases "bitlen m = 53")
    case True
    then show ?thesis by (simp add: f64_trunc_def Let_def mt qe sgn)
  next
    case False
    then have neg: "\<not> 0 \<le> int (bitlen m) - 53" using r(4) by simp
    have nn: "nat (- (int (bitlen m) - 53)) = 53 - bitlen m" by linarith
    show ?thesis
      unfolding f64_trunc_def Let_def mt qe sgn nn using neg by simp
  qed
qed

lemma i64_f64_exact:
  assumes "\<bar>sint i\<bar> < 2 ^ 53"
  shows "f64_to_i64 (i64_to_f64 i) = i"
proof (cases "sint i = 0")
  case True
  then have "i = 0" by (metis sint_0 signed_word_eqI)
  then show ?thesis by (simp add: i64_to_f64_def f64_round_def f64_to_i64_def f64_is_nan_def
        f64_is_inf_def f64_trunc_def f64_mag_make f64_mant_def f64_exp_def f64_frac_def
        unat_f64_make Let_def)
next
  case False
  let ?m = "nat \<bar>sint i\<bar>"
  have m: "0 < ?m" "?m < 2 ^ 53" using False assms by simp_all
  have t: "f64_trunc (i64_to_f64 i) = sint i"
    using f64_trunc_round_small(1) [OF m, of "sint i < 0" False]
    by (simp add: i64_to_f64_def)
  have "max (- (2 ^ 63)) (min (2 ^ 63 - 1) (sint i)) = sint i"
    using assms by simp
  then show ?thesis
    using f64_trunc_round_small(2,3) [OF m, of "sint i < 0" False] t
    by (simp add: f64_to_i64_def flip: i64_to_f64_def)
qed

end
