(* ===== verification/BF_Value.thy ===== *)
theory BF_Value
  imports BF_Float64
begin

text \<open>
  \<open>src/crates/byteflow/src/bytecode/value.rs\<close> (and \<open>CapId\<close> of \<open>bytecode/cap.rs\<close>): the values a
  register or an inbox holds, the message envelope, and their accessors.

  \<open>Str\<close> and \<open>Bytes\<close> are \<open>Arc\<close> handles, and the interpreter compares handles with
  \<open>Arc::ptr_eq\<close> before it charges a quota, so \<open>VStr\<close> and \<open>VBytes\<close> carry the identity of their
  allocation beside their bytes. \<open>PartialEq\<close> (\<open>value_eq\<close>) ignores the identity and compares floats
  with IEEE equality. A \<open>str\<close> is its UTF-8 bytes.
\<close>

section \<open>Capability identifiers\<close>

type_synonym cap_id = u128

definition CAP_NONE :: cap_id where
  "CAP_NONE = 0"

definition cap_id_is_none :: "cap_id \<Rightarrow> bool" where
  "cap_id_is_none c = (c = 0)"

section \<open>Messages and values\<close>

definition TAG_SYS_DOWN :: u16 where
  "TAG_SYS_DOWN = 0xFF01"

definition TAG_SYS_EXIT :: u16 where
  "TAG_SYS_EXIT = 0xFF02"

datatype 'v msg =
  Msg (m_sender: u64) (m_reply_cap: cap_id) (m_request_id: u64) (m_tag: u16) (m_payload: 'v)

datatype "value" =
    VUnit
  | VBool bool
  | VInt i64
  | VFloat f64
  | VPid u64
  | VMessage "value msg"
  | VCap cap_id
  | VStr nat bytes
  | VBytes nat bytes

type_synonym message = "value msg"

definition message_new :: "u64 \<Rightarrow> u64 \<Rightarrow> u16 \<Rightarrow> value \<Rightarrow> message" where
  "message_new frm rid tg pl = Msg frm CAP_NONE rid tg pl"

definition message_request :: "u64 \<Rightarrow> u16 \<Rightarrow> value \<Rightarrow> message" where
  "message_request rid tg pl = message_new 0 rid tg pl"

definition message_reply_to :: "message \<Rightarrow> u16 \<Rightarrow> value \<Rightarrow> message" where
  "message_reply_to req tg pl = message_new 0 (m_request_id req) tg pl"

definition message_down :: "u64 \<Rightarrow> u64 \<Rightarrow> u64 \<Rightarrow> message" where
  "message_down monitor target_flow reason =
     message_new target_flow monitor TAG_SYS_DOWN (VInt reason)"

definition message_linked_exit :: "u64 \<Rightarrow> u64 \<Rightarrow> message" where
  "message_linked_exit target_flow reason =
     message_new target_flow 0 TAG_SYS_EXIT (VInt reason)"

definition message_is_down :: "message \<Rightarrow> bool" where
  "message_is_down m = (m_tag m = TAG_SYS_DOWN)"

definition message_is_exit :: "message \<Rightarrow> bool" where
  "message_is_exit m = (m_tag m = TAG_SYS_EXIT)"

fun authenticate :: "message \<Rightarrow> u64 \<Rightarrow> cap_id \<Rightarrow> message" where
  "authenticate (Msg _ _ rid tg pl) frm rc = Msg frm rc rid tg pl"

fun with_payload :: "message \<Rightarrow> value \<Rightarrow> message" where
  "with_payload (Msg s rc rid tg _) pl = Msg s rc rid tg pl"

section \<open>Accessors\<close>

fun is_truthy :: "value \<Rightarrow> bool" where
  "is_truthy VUnit = False"
| "is_truthy (VBool b) = b"
| "is_truthy (VInt i) = (i \<noteq> 0)"
| "is_truthy (VStr _ s) = (s \<noteq> [])"
| "is_truthy (VBytes _ b) = (b \<noteq> [])"
| "is_truthy _ = True"

fun as_int :: "value \<Rightarrow> i64 option" where
  "as_int (VInt i) = Some i"
| "as_int (VBool b) = Some (if b then 1 else 0)"
| "as_int _ = None"

fun as_pid :: "value \<Rightarrow> u64 option" where
  "as_pid (VPid p) = Some p"
| "as_pid _ = None"

fun as_cap :: "value \<Rightarrow> cap_id option" where
  "as_cap (VCap c) = Some c"
| "as_cap _ = None"

fun as_message :: "value \<Rightarrow> message option" where
  "as_message (VMessage m) = Some m"
| "as_message _ = None"

fun as_str :: "value \<Rightarrow> bytes option" where
  "as_str (VStr _ s) = Some s"
| "as_str _ = None"

fun as_bytes :: "value \<Rightarrow> bytes option" where
  "as_bytes (VBytes _ b) = Some b"
| "as_bytes (VStr _ s) = Some s"
| "as_bytes _ = None"

text \<open>
  \<open>size_of::<Value>()\<close> is fixed by the compiler: a 48-byte \<open>Message\<close> (a \<open>u128\<close> is 16-aligned)
  behind a tag, 64 bytes. The theorems use only that it is positive.
\<close>

definition VALUE_SIZE :: nat where
  "VALUE_SIZE = 64"

fun heap_size :: "value \<Rightarrow> nat" where
  "heap_size (VStr _ s) = length s"
| "heap_size (VBytes _ b) = length b"
| "heap_size (VMessage (Msg _ _ _ _ pl)) = VALUE_SIZE + heap_size pl"
| "heap_size _ = 0"

definition memory_size :: "value \<Rightarrow> nat" where
  "memory_size v = VALUE_SIZE + heap_size v"

fun type_name :: "value \<Rightarrow> string" where
  "type_name VUnit = ''unit''"
| "type_name (VBool _) = ''bool''"
| "type_name (VInt _) = ''int''"
| "type_name (VFloat _) = ''float''"
| "type_name (VPid _) = ''pid''"
| "type_name (VMessage _) = ''message''"
| "type_name (VCap _) = ''cap''"
| "type_name (VStr _ _) = ''str''"
| "type_name (VBytes _ _) = ''bytes''"

text \<open>\<open>#[derive(PartialEq)]\<close> on \<open>Value\<close> and \<open>Message\<close>.\<close>

fun value_eq :: "value \<Rightarrow> value \<Rightarrow> bool" where
  "value_eq VUnit w = (case w of VUnit \<Rightarrow> True | _ \<Rightarrow> False)"
| "value_eq (VBool a) w = (case w of VBool b \<Rightarrow> a = b | _ \<Rightarrow> False)"
| "value_eq (VInt a) w = (case w of VInt b \<Rightarrow> a = b | _ \<Rightarrow> False)"
| "value_eq (VFloat a) w = (case w of VFloat b \<Rightarrow> f64_eq a b | _ \<Rightarrow> False)"
| "value_eq (VPid a) w = (case w of VPid b \<Rightarrow> a = b | _ \<Rightarrow> False)"
| "value_eq (VMessage (Msg s c r t p)) w =
     (case w of VMessage m \<Rightarrow>
        s = m_sender m \<and> c = m_reply_cap m \<and> r = m_request_id m \<and> t = m_tag m
        \<and> value_eq p (m_payload m)
      | _ \<Rightarrow> False)"
| "value_eq (VCap a) w = (case w of VCap b \<Rightarrow> a = b | _ \<Rightarrow> False)"
| "value_eq (VStr _ a) w = (case w of VStr _ b \<Rightarrow> a = b | _ \<Rightarrow> False)"
| "value_eq (VBytes _ a) w = (case w of VBytes _ b \<Rightarrow> a = b | _ \<Rightarrow> False)"

section \<open>UTF-8\<close>

text \<open>The check of \<open>str::from_utf8\<close> (the well-formed byte sequences of the Unicode standard).\<close>

definition utf8_cont :: "u8 \<Rightarrow> bool" where
  "utf8_cont b = (0x80 \<le> b \<and> b \<le> 0xBF)"

fun utf8_valid :: "bytes \<Rightarrow> bool" where
  "utf8_valid [] = True"
| "utf8_valid (a # xs) =
     (if a < 0x80 then utf8_valid xs
      else case xs of [] \<Rightarrow> False
      | b # ys \<Rightarrow>
          if 0xC2 \<le> a \<and> a \<le> 0xDF then utf8_cont b \<and> utf8_valid ys
          else case ys of [] \<Rightarrow> False
          | c # zs \<Rightarrow>
              if 0xE0 \<le> a \<and> a \<le> 0xEF then
                (if a = 0xE0 then 0xA0 \<le> b \<and> b \<le> 0xBF
                 else if a = 0xED then 0x80 \<le> b \<and> b \<le> 0x9F
                 else utf8_cont b) \<and> utf8_cont c \<and> utf8_valid zs
              else case zs of [] \<Rightarrow> False
              | d # ws \<Rightarrow>
                  0xF0 \<le> a \<and> a \<le> 0xF4 \<and>
                  (if a = 0xF0 then 0x90 \<le> b \<and> b \<le> 0xBF
                   else if a = 0xF4 then 0x80 \<le> b \<and> b \<le> 0x8F
                   else utf8_cont b) \<and> utf8_cont c \<and> utf8_cont d \<and> utf8_valid ws)"

section \<open>Well-formed values\<close>

text \<open>
  What the Rust types guarantee and the model's types do not: a \<open>str\<close> is UTF-8. Also the
  nesting depth of message payloads, and values up to the identity of their allocations.
\<close>

fun value_ok :: "value \<Rightarrow> bool" where
  "value_ok (VStr _ s) = utf8_valid s"
| "value_ok (VMessage (Msg _ _ _ _ pl)) = value_ok pl"
| "value_ok _ = True"

fun value_depth :: "value \<Rightarrow> nat" where
  "value_depth (VMessage (Msg _ _ _ _ pl)) = Suc (value_depth pl)"
| "value_depth _ = 0"

fun erase_arcs :: "value \<Rightarrow> value" where
  "erase_arcs (VStr _ s) = VStr 0 s"
| "erase_arcs (VBytes _ b) = VBytes 0 b"
| "erase_arcs (VMessage (Msg s c r t pl)) = VMessage (Msg s c r t (erase_arcs pl))"
| "erase_arcs v = v"

fun has_nan :: "value \<Rightarrow> bool" where
  "has_nan (VFloat x) = f64_is_nan x"
| "has_nan (VMessage (Msg _ _ _ _ pl)) = has_nan pl"
| "has_nan _ = False"

section \<open>Facts\<close>

lemmas val_splits = "value.splits"

lemmas val_split = "value.split"

lemma value_msg_induct [case_names VUnit VBool VInt VFloat VPid VMessage VCap VStr VBytes]:
  assumes "P VUnit" and "\<And>b. P (VBool b)" and "\<And>i. P (VInt i)" and "\<And>x. P (VFloat x)"
    and "\<And>p. P (VPid p)" and "\<And>s c r t pl. P pl \<Longrightarrow> P (VMessage (Msg s c r t pl))"
    and "\<And>c. P (VCap c)" and "\<And>a s. P (VStr a s)" and "\<And>a b. P (VBytes a b)"
  shows "P v"
proof (induction v)
  case (VMessage m)
  then show ?case by (cases m) (auto intro: assms)
qed (auto intro: assms)

lemma VALUE_SIZE_pos [simp]: "0 < VALUE_SIZE"
  by (simp add: VALUE_SIZE_def)

lemma memory_size_pos [simp]: "0 < memory_size v"
  by (simp add: memory_size_def)

lemma memory_size_message:
  "memory_size (VMessage m) = VALUE_SIZE + memory_size (m_payload m)"
  by (cases m) (simp add: memory_size_def)

lemma value_msg_cases [case_names VUnit VBool VInt VFloat VPid VMessage VCap VStr VBytes]:
  assumes "v = VUnit \<Longrightarrow> P" and "\<And>b. v = VBool b \<Longrightarrow> P" and "\<And>i. v = VInt i \<Longrightarrow> P"
    and "\<And>x. v = VFloat x \<Longrightarrow> P" and "\<And>p. v = VPid p \<Longrightarrow> P"
    and "\<And>s c r t pl. v = VMessage (Msg s c r t pl) \<Longrightarrow> P"
    and "\<And>c. v = VCap c \<Longrightarrow> P" and "\<And>a s. v = VStr a s \<Longrightarrow> P" and "\<And>a b. v = VBytes a b \<Longrightarrow> P"
  shows P
proof (cases v)
  case (VMessage m)
  then show ?thesis by (cases m) (auto intro: assms)
qed (auto intro: assms)

lemma value_eq_sym: "value_eq v w = value_eq w v"
proof (induction v arbitrary: w rule: value_msg_induct)
  case (VMessage s c r t pl)
  then show ?case by (cases w rule: value_msg_cases) auto
qed (rule_tac v = w in value_msg_cases; auto simp: f64_eq_sym)+

lemma value_eq_refl_iff: "value_eq v v \<longleftrightarrow> \<not> has_nan v"
  by (induction v rule: value_msg_induct) (simp_all add: f64_eq_refl)

lemma erase_arcs_value_eq: "erase_arcs v = erase_arcs w \<Longrightarrow> \<not> has_nan v \<Longrightarrow> value_eq v w"
proof (induction v arbitrary: w rule: value_msg_induct)
  case (VMessage s c r t pl)
  then show ?case by (cases w rule: value_msg_cases) auto
qed (rule_tac v = w in value_msg_cases; simp add: f64_eq_refl)+

lemma erase_arcs_idem [simp]: "erase_arcs (erase_arcs v) = erase_arcs v"
  by (induction v rule: value_msg_induct) simp_all

lemma heap_size_erase [simp]: "heap_size (erase_arcs v) = heap_size v"
  by (induction v rule: value_msg_induct) simp_all

lemma type_name_str_iff: "type_name v = ''str'' \<longleftrightarrow> (\<exists>a s. v = VStr a s)"
  by (cases v) auto

lemma as_cap_iff: "as_cap v = Some c \<longleftrightarrow> v = VCap c"
  by (cases v) auto

lemma as_message_iff: "as_message v = Some m \<longleftrightarrow> v = VMessage m"
  by (cases v) auto

lemma as_message_None_iff: "as_message v = None \<longleftrightarrow> type_name v \<noteq> ''message''"
  by (cases v) auto

lemma as_cap_None_iff: "as_cap v = None \<longleftrightarrow> type_name v \<noteq> ''cap''"
  by (cases v) auto

lemma authenticate_sels [simp]:
  "m_sender (authenticate m s c) = s" "m_reply_cap (authenticate m s c) = c"
  "m_request_id (authenticate m s c) = m_request_id m" "m_tag (authenticate m s c) = m_tag m"
  "m_payload (authenticate m s c) = m_payload m"
  by (cases m; simp)+

lemma authenticate_idem [simp]: "authenticate (authenticate m s c) s' c' = authenticate m s' c'"
  by (cases m) simp

lemma memory_size_authenticate [simp]:
  "memory_size (VMessage (authenticate m s c)) = memory_size (VMessage m)"
  by (simp add: memory_size_message)

lemma utf8_valid_ascii: "(\<forall>b\<in>set s. b < 0x80) \<Longrightarrow> utf8_valid s"
  by (induction s) auto

end
