(* ===== verification/BF_Chunk.thy ===== *)
theory BF_Chunk
  imports BF_Opcode BF_Value
begin

text \<open>
  \<open>bytecode/instruction.rs\<close> and \<open>bytecode/chunk.rs\<close>: the fixed-width instruction word with its
  constructors, function table entries, and the chunk (the unit the verifier, the codec and the
  interpreter share). A Rust \<open>String\<close> is its UTF-8 bytes.
\<close>

record instruction =
  i_op :: opcode
  i_a :: u8
  i_b :: u8
  i_c :: u8
  i_imm :: i32

definition instr_new :: "opcode \<Rightarrow> u8 \<Rightarrow> u8 \<Rightarrow> u8 \<Rightarrow> i32 \<Rightarrow> instruction" where
  "instr_new op a b c imm = \<lparr>i_op = op, i_a = a, i_b = b, i_c = c, i_imm = imm\<rparr>"

definition instr_nullary :: "opcode \<Rightarrow> instruction" where
  "instr_nullary op = instr_new op 0 0 0 0"

definition instr_abc :: "opcode \<Rightarrow> u8 \<Rightarrow> u8 \<Rightarrow> u8 \<Rightarrow> instruction" where
  "instr_abc op a b c = instr_new op a b c 0"

definition instr_a_imm :: "opcode \<Rightarrow> u8 \<Rightarrow> i32 \<Rightarrow> instruction" where
  "instr_a_imm op a imm = instr_new op a 0 0 imm"

definition instr_only_imm :: "opcode \<Rightarrow> i32 \<Rightarrow> instruction" where
  "instr_only_imm op imm = instr_new op 0 0 0 imm"

lemmas instr_defs [machine_defs] = instr_new_def instr_nullary_def instr_abc_def instr_a_imm_def
  instr_only_imm_def

definition MAGIC :: bytes where
  "MAGIC = [0x42, 0x46, 0x56, 0x30]"

definition ABI_VERSION :: u32 where
  "ABI_VERSION = 5"

record function_def =
  f_name :: bytes
  f_entry :: u32
  f_arity :: u8
  f_num_registers :: u8

record chunk =
  ch_name :: bytes
  ch_constants :: "value list"
  ch_code :: "instruction list"
  ch_functions :: "function_def list"

definition chunk_function :: "chunk \<Rightarrow> u32 \<Rightarrow> function_def option" where
  "chunk_function ch index = nth_opt (ch_functions ch) (unat index)"

definition chunk_constant :: "chunk \<Rightarrow> u32 \<Rightarrow> value option" where
  "chunk_constant ch index = nth_opt (ch_constants ch) (unat index)"

definition chunk_len :: "chunk \<Rightarrow> usize" where
  "chunk_len ch = length (ch_code ch)"

definition chunk_is_empty :: "chunk \<Rightarrow> bool" where
  "chunk_is_empty ch = (ch_code ch = [])"

end
