(* ===== verification/BF_Verify.thy ===== *)
theory BF_Verify
  imports BF_Chunk
begin

text \<open>
  \<open>bytecode/verify.rs\<close>: the static verifier a chunk passes before it runs. The checks are
  translated in their order with their error values; \<open>verified\<close> is the specification of what the
  verifier promises about an accepted chunk, and \<open>verify_with_iff\<close> shows that the verifier decides
  exactly it.
\<close>

datatype trust_level = Trusted | Untrusted

record verify_config =
  vc_trust :: trust_level

definition verify_config_default :: verify_config where
  "verify_config_default = \<lparr>vc_trust = Untrusted\<rparr>"

datatype constant_kind = Capability | ProcessId | MessageKind

datatype verify_error =
    UnknownOpcode usize u8
  | ConstOutOfRange usize u32 usize
  | FunctionOutOfRange usize u32 usize
  | JumpOutOfRange usize int usize
  | EmptyFunctionTable
  | EntryOutOfRange usize u32 usize
  | ArityExceedsRegisters usize u8 u8
  | ForbiddenConstant usize constant_kind

definition validate_constant :: "value \<Rightarrow> trust_level \<Rightarrow> usize \<Rightarrow> verify_error + unit" where
  "validate_constant v trust index =
     (if trust = Trusted then Inr ()
      else case v of
        VCap _ \<Rightarrow> Inl (ForbiddenConstant index Capability)
      | VPid _ \<Rightarrow> Inl (ForbiddenConstant index ProcessId)
      | VMessage _ \<Rightarrow> Inl (ForbiddenConstant index MessageKind)
      | _ \<Rightarrow> Inr ())"

text \<open>\<open>for (i, x) in xs.iter().enumerate() { check(i, x)?; }\<close>\<close>

fun check_each :: "(nat \<Rightarrow> 'a \<Rightarrow> 'e + unit) \<Rightarrow> nat \<Rightarrow> 'a list \<Rightarrow> 'e + unit" where
  "check_each chk i [] = Inr ()"
| "check_each chk i (x # xs) = bind_res (chk i x) (\<lambda>_. check_each chk (Suc i) xs)"

definition verify_function :: "usize \<Rightarrow> usize \<Rightarrow> function_def \<Rightarrow> verify_error + unit" where
  "verify_function len function def =
     (if len \<le> unat (f_entry def) then Inl (EntryOutOfRange function (f_entry def) len)
      else if f_num_registers def < f_arity def
      then Inl (ArityExceedsRegisters function (f_arity def) (f_num_registers def))
      else Inr ())"

definition verify_instruction :: "chunk \<Rightarrow> usize \<Rightarrow> instruction \<Rightarrow> verify_error + unit" where
  "verify_instruction ch at instr =
     (case i_op instr of
        LoadConst \<Rightarrow>
          (let idx = i_imm instr in
           if length (ch_constants ch) \<le> unat idx
           then Inl (ConstOutOfRange at idx (length (ch_constants ch))) else Inr ())
      | Spawn \<Rightarrow>
          (let idx = i_imm instr in
           if length (ch_functions ch) \<le> unat idx
           then Inl (FunctionOutOfRange at idx (length (ch_functions ch))) else Inr ())
      | Call \<Rightarrow>
          (let idx = i_imm instr in
           if length (ch_functions ch) \<le> unat idx
           then Inl (FunctionOutOfRange at idx (length (ch_functions ch))) else Inr ())
      | CallNative \<Rightarrow> Inr ()
      | Jump \<Rightarrow>
          (let target = int at + 1 + sint (i_imm instr) in
           if target < 0 \<or> length (ch_code ch) < nat target
           then Inl (JumpOutOfRange at target (length (ch_code ch))) else Inr ())
      | Branch \<Rightarrow>
          (let target = int at + 1 + sint (i_imm instr) in
           if target < 0 \<or> length (ch_code ch) < nat target
           then Inl (JumpOutOfRange at target (length (ch_code ch))) else Inr ())
      | _ \<Rightarrow> Inr ())"

definition verify_with :: "chunk \<Rightarrow> verify_config \<Rightarrow> verify_error + unit" where
  "verify_with ch config =
     (if ch_functions ch = [] then Inl EmptyFunctionTable
      else
        bind_res (check_each (\<lambda>i v. validate_constant v (vc_trust config) i) 0 (ch_constants ch))
          (\<lambda>_. bind_res (check_each (verify_function (length (ch_code ch))) 0 (ch_functions ch))
          (\<lambda>_. check_each (verify_instruction ch) 0 (ch_code ch))))"

definition verify :: "chunk \<Rightarrow> verify_error + unit" where
  "verify ch = verify_with ch verify_config_default"

section \<open>What an accepted chunk satisfies\<close>

fun forbidden_kind :: "value \<Rightarrow> constant_kind option" where
  "forbidden_kind (VCap _) = Some Capability"
| "forbidden_kind (VPid _) = Some ProcessId"
| "forbidden_kind (VMessage _) = Some MessageKind"
| "forbidden_kind _ = None"

definition constants_ok :: "trust_level \<Rightarrow> value list \<Rightarrow> bool" where
  "constants_ok trust vs \<longleftrightarrow> trust = Trusted \<or> (\<forall>v\<in>set vs. forbidden_kind v = None)"

definition function_ok :: "usize \<Rightarrow> function_def \<Rightarrow> bool" where
  "function_ok len def \<longleftrightarrow> unat (f_entry def) < len \<and> f_arity def \<le> f_num_registers def"

definition jump_in_range :: "chunk \<Rightarrow> usize \<Rightarrow> i32 \<Rightarrow> bool" where
  "jump_in_range ch at imm \<longleftrightarrow>
     0 \<le> int at + 1 + sint imm \<and> int at + 1 + sint imm \<le> int (length (ch_code ch))"

definition instruction_ok :: "chunk \<Rightarrow> usize \<Rightarrow> instruction \<Rightarrow> bool" where
  "instruction_ok ch at instr \<longleftrightarrow>
     (i_op instr = LoadConst \<longrightarrow> unat (i_imm instr) < length (ch_constants ch)) \<and>
     (i_op instr \<in> {Spawn, Call} \<longrightarrow> unat (i_imm instr) < length (ch_functions ch)) \<and>
     (i_op instr \<in> {Jump, Branch} \<longrightarrow> jump_in_range ch at (i_imm instr))"

definition verified :: "trust_level \<Rightarrow> chunk \<Rightarrow> bool" where
  "verified trust ch \<longleftrightarrow>
     ch_functions ch \<noteq> [] \<and> constants_ok trust (ch_constants ch) \<and>
     (\<forall>def\<in>set (ch_functions ch). function_ok (length (ch_code ch)) def) \<and>
     (\<forall>at<length (ch_code ch). instruction_ok ch at (ch_code ch ! at))"

section \<open>The verifier decides the specification\<close>

lemma check_each_ok_iff:
  "check_each chk i xs = Inr () \<longleftrightarrow> (\<forall>k<length xs. chk (i + k) (xs ! k) = Inr ())"
proof (induction xs arbitrary: i)
  case Nil
  then show ?case by simp
next
  case (Cons x xs)
  show ?case
    by (auto simp: bind_res_Inr_iff Cons.IH less_Suc_eq_0_disj)
qed

lemma check_each_err:
  "check_each chk i xs = Inl e \<Longrightarrow>
     \<exists>k<length xs. chk (i + k) (xs ! k) = Inl e \<and> (\<forall>j<k. chk (i + j) (xs ! j) = Inr ())"
proof (induction xs arbitrary: i)
  case Nil
  then show ?case by simp
next
  case (Cons x xs)
  show ?case
  proof (cases "chk i x")
    case (Inl a)
    with Cons.prems show ?thesis by (intro exI [of _ 0]) simp
  next
    case (Inr u)
    with Cons.prems have "check_each chk (Suc i) xs = Inl e" by simp
    from Cons.IH [OF this] obtain k where k: "k < length xs" "chk (Suc i + k) (xs ! k) = Inl e"
      "\<forall>j<k. chk (Suc i + j) (xs ! j) = Inr ()" by blast
    have "\<forall>j<Suc k. chk (i + j) ((x # xs) ! j) = Inr ()"
      using k(3) Inr by (auto simp: less_Suc_eq_0_disj)
    with k show ?thesis by (intro exI [of _ "Suc k"]) simp
  qed
qed

lemma validate_constant_ok_iff:
  "validate_constant v trust i = Inr () \<longleftrightarrow> trust = Trusted \<or> forbidden_kind v = None"
  by (cases v) (simp_all add: validate_constant_def)

lemma verify_function_ok_iff: "verify_function len i def = Inr () \<longleftrightarrow> function_ok len def"
  by (auto simp: verify_function_def function_ok_def)

lemma verify_instruction_ok_iff:
  "verify_instruction ch at instr = Inr () \<longleftrightarrow> instruction_ok ch at instr"
proof -
  have "\<not> (t < 0 \<or> n < nat t) \<longleftrightarrow> 0 \<le> t \<and> t \<le> int n" for t n by linarith
  then show ?thesis
    by (cases "i_op instr")
      (auto simp: verify_instruction_def instruction_ok_def jump_in_range_def Let_def not_le)
qed

lemma constants_check_iff:
  "check_each (\<lambda>i v. validate_constant v trust i) 0 vs = Inr () \<longleftrightarrow> constants_ok trust vs"
  by (auto simp: check_each_ok_iff validate_constant_ok_iff constants_ok_def all_set_conv_all_nth)

lemma verify_with_iff: "verify_with ch config = Inr () \<longleftrightarrow> verified (vc_trust config) ch"
proof -
  have "check_each (verify_function n) 0 defs = Inr () \<longleftrightarrow> (\<forall>def\<in>set defs. function_ok n def)"
    for n defs
    by (simp add: check_each_ok_iff verify_function_ok_iff all_set_conv_all_nth)
  then show ?thesis
    by (simp add: verify_with_def verified_def bind_res_Inr_iff constants_check_iff)
      (simp add: check_each_ok_iff verify_instruction_ok_iff)
qed

section \<open>Consequences the interpreter rests on\<close>

lemma verified_function:
  "verified trust ch \<Longrightarrow> chunk_function ch i = Some def \<Longrightarrow> function_ok (length (ch_code ch)) def"
  by (auto simp: verified_def chunk_function_def dest: nth_opt_set)

lemma verified_instruction:
  "verified trust ch \<Longrightarrow> nth_opt (ch_code ch) pc = Some instr \<Longrightarrow> instruction_ok ch pc instr"
  by (auto simp: verified_def nth_opt_Some_iff)

lemma verified_constant:
  "verified Untrusted ch \<Longrightarrow> chunk_constant ch i = Some v \<Longrightarrow> forbidden_kind v = None"
  by (auto simp: verified_def constants_ok_def chunk_constant_def dest: nth_opt_set)

lemma verified_trust_mono: "verified Untrusted ch \<Longrightarrow> verified trust ch"
  by (auto simp: verified_def constants_ok_def)

section \<open>Rejections name a real defect\<close>

text \<open>What an error value says of the chunk it was returned for.\<close>

fun error_holds :: "chunk \<Rightarrow> trust_level \<Rightarrow> verify_error \<Rightarrow> bool" where
  "error_holds ch trust EmptyFunctionTable = (ch_functions ch = [])"
| "error_holds ch trust (UnknownOpcode at b) = False"
| "error_holds ch trust (ForbiddenConstant i k) =
     (trust = Untrusted \<and> i < length (ch_constants ch) \<and> forbidden_kind (ch_constants ch ! i) = Some k)"
| "error_holds ch trust (EntryOutOfRange i entry len) =
     (i < length (ch_functions ch) \<and> f_entry (ch_functions ch ! i) = entry
      \<and> len = length (ch_code ch) \<and> len \<le> unat entry)"
| "error_holds ch trust (ArityExceedsRegisters i ar regs) =
     (i < length (ch_functions ch) \<and> f_arity (ch_functions ch ! i) = ar
      \<and> f_num_registers (ch_functions ch ! i) = regs \<and> regs < ar)"
| "error_holds ch trust (ConstOutOfRange at idx len) =
     (at < length (ch_code ch) \<and> i_op (ch_code ch ! at) = LoadConst \<and> i_imm (ch_code ch ! at) = idx
      \<and> len = length (ch_constants ch) \<and> len \<le> unat idx)"
| "error_holds ch trust (FunctionOutOfRange at idx len) =
     (at < length (ch_code ch) \<and> i_op (ch_code ch ! at) \<in> {Spawn, Call} \<and> i_imm (ch_code ch ! at) = idx
      \<and> len = length (ch_functions ch) \<and> len \<le> unat idx)"
| "error_holds ch trust (JumpOutOfRange at target len) =
     (at < length (ch_code ch) \<and> i_op (ch_code ch ! at) \<in> {Jump, Branch}
      \<and> target = int at + 1 + sint (i_imm (ch_code ch ! at)) \<and> len = length (ch_code ch)
      \<and> (target < 0 \<or> int len < target))"

lemma validate_constant_err:
  "validate_constant v trust i = Inl e \<Longrightarrow> i < length (ch_constants ch) \<Longrightarrow> ch_constants ch ! i = v \<Longrightarrow>
   error_holds ch trust e"
  by (cases v; cases trust) (auto simp: validate_constant_def)

lemma verify_function_err:
  "verify_function (length (ch_code ch)) i def = Inl e \<Longrightarrow> i < length (ch_functions ch) \<Longrightarrow>
   ch_functions ch ! i = def \<Longrightarrow> error_holds ch trust e"
  by (auto simp: verify_function_def split: if_splits)

lemma verify_instruction_err:
  "verify_instruction ch at instr = Inl e \<Longrightarrow> at < length (ch_code ch) \<Longrightarrow> ch_code ch ! at = instr \<Longrightarrow>
   error_holds ch trust e"
  by (cases "i_op instr") (auto simp: verify_instruction_def Let_def split: if_splits)

lemma verify_with_err:
  assumes "verify_with ch config = Inl e"
  shows "error_holds ch (vc_trust config) e"
proof -
  have "(ch_functions ch = [] \<and> e = EmptyFunctionTable) \<or>
      check_each (\<lambda>i v. validate_constant v (vc_trust config) i) 0 (ch_constants ch) = Inl e \<or>
      check_each (verify_function (length (ch_code ch))) 0 (ch_functions ch) = Inl e \<or>
      check_each (verify_instruction ch) 0 (ch_code ch) = Inl e"
    using assms unfolding verify_with_def bind_res_def by (simp split: if_split_asm sum.split_asm)
  then show ?thesis
  proof (elim disjE)
    assume "check_each (\<lambda>i v. validate_constant v (vc_trust config) i) 0 (ch_constants ch) = Inl e"
    from check_each_err [OF this] show ?thesis by (auto dest: validate_constant_err)
  next
    assume "check_each (verify_function (length (ch_code ch))) 0 (ch_functions ch) = Inl e"
    from check_each_err [OF this] show ?thesis by (auto dest: verify_function_err)
  next
    assume "check_each (verify_instruction ch) 0 (ch_code ch) = Inl e"
    from check_each_err [OF this] show ?thesis by (auto dest: verify_instruction_err)
  qed simp
qed

section \<open>Properties\<close>

text \<open>C3: the verifier decides its specification: it accepts a chunk exactly when the function table is
  non-empty, every constant is allowed at the trust level, every function starts inside the code with room
  for its arguments, and every constant, function and jump operand is in range.\<close>

theorem verify_with_decides: "verify_with ch config = Inr () \<longleftrightarrow> verified (vc_trust config) ch"
  by (rule verify_with_iff)

text \<open>A rejection is honest: the error the verifier returns names a place of the chunk that really has
  the defect it describes (so it never reports \<open>UnknownOpcode\<close>).\<close>

theorem verify_with_error_sound:
  "verify_with ch config = Inl e \<Longrightarrow> error_holds ch (vc_trust config) e"
  by (rule verify_with_err)

theorem verify_with_error_sound_witness:
  "error_holds \<lparr>ch_name = [], ch_constants = [], ch_code = [instr_a_imm LoadImm 0 1, instr_only_imm Jump 5],
     ch_functions = [\<lparr>f_name = [], f_entry = 0, f_arity = 0, f_num_registers = 1\<rparr>]\<rparr> Untrusted
     (JumpOutOfRange 1 7 2)"
  using verify_with_error_sound [of "\<lparr>ch_name = [], ch_constants = [],
     ch_code = [instr_a_imm LoadImm 0 1, instr_only_imm Jump 5],
     ch_functions = [\<lparr>f_name = [], f_entry = 0, f_arity = 0, f_num_registers = 1\<rparr>]\<rparr>"
     verify_config_default "JumpOutOfRange 1 7 2"]
  by (simp add: verify_with_def verify_config_default_def verify_function_def verify_instruction_def
      instr_defs)

end
