(* ===== verification/BF_Format.thy ===== *)
theory BF_Format
  imports BF_Verify
begin

text \<open>
  \<open>bytecode/format.rs\<close>: the \<open>.bf\<close> module codec. \<open>encode\<close> writes a chunk, \<open>decode_with\<close> reads one
  back with the decoder's limits and its trust level. The reader is the source's cursor (buffer
  and position); \<open>r_arc\<close> counts the allocations it makes for \<open>Str\<close> and \<open>Bytes\<close>, each of which gets
  an identity of its own.

  The locale \<open>codec\<close> is the contract between a writer and its reader; it is interpreted on every
  field codec of the format, and its sequence lemma carries the tables of a chunk. The round trip
  and what decoding guarantees are stated on whole chunks at the end.
\<close>

definition MAX_NAME :: nat where "MAX_NAME = 64 * 1024"
definition MAX_ITEMS :: nat where "MAX_ITEMS = 1000000"
definition MAX_BLOB :: nat where "MAX_BLOB = 1048576"
definition MAX_VALUE_DEPTH :: nat where "MAX_VALUE_DEPTH = 16"

lemmas limit_defs = MAX_NAME_def MAX_ITEMS_def MAX_BLOB_def MAX_VALUE_DEPTH_def

datatype format_error =
    BadMagic bytes
  | UnsupportedAbi u32
  | Truncated
  | LimitExceeded string u32
  | BadUtf8
  | UnknownValueTag u8
  | FmtUnknownOpcode usize u8
  | FmtForbiddenConstant constant_kind
  | ValueTooNested

section \<open>Writing\<close>

definition le_u16 :: "u16 \<Rightarrow> bytes" where "le_u16 w = to_le 2 (unat w)"
definition le_u32 :: "u32 \<Rightarrow> bytes" where "le_u32 w = to_le 4 (unat w)"
definition le_u64 :: "u64 \<Rightarrow> bytes" where "le_u64 w = to_le 8 (unat w)"
definition le_u128 :: "u128 \<Rightarrow> bytes" where "le_u128 w = to_le 16 (unat w)"

text \<open>\<open>(xs.len() as u32).to_le_bytes()\<close>\<close>

definition le_len :: "nat \<Rightarrow> bytes" where
  "le_len n = le_u32 (word_of_nat n)"

definition write_string :: "bytes \<Rightarrow> bytes" where
  "write_string s = le_len (length s) @ s"

definition write_blob :: "bytes \<Rightarrow> bytes" where
  "write_blob b = le_len (length b) @ b"

fun write_value :: "value \<Rightarrow> bytes" where
  "write_value VUnit = [0]"
| "write_value (VBool b) = [1, if b then 1 else 0]"
| "write_value (VInt i) = 2 # le_u64 i"
| "write_value (VFloat x) = 3 # le_u64 x"
| "write_value (VPid p) = 4 # le_u64 p"
| "write_value (VMessage (Msg s c r t pl)) =
     5 # le_u64 s @ le_u128 c @ le_u64 r @ le_u16 t @ write_value pl"
| "write_value (VCap c) = 6 # le_u128 c"
| "write_value (VStr _ s) = 7 # write_blob s"
| "write_value (VBytes _ b) = 8 # write_blob b"

definition write_function :: "function_def \<Rightarrow> bytes" where
  "write_function def =
     write_string (f_name def) @ le_u32 (f_entry def) @ [f_arity def, f_num_registers def]"

definition write_instruction :: "instruction \<Rightarrow> bytes" where
  "write_instruction instr =
     [as_u8 (i_op instr), i_a instr, i_b instr, i_c instr] @ le_u32 (i_imm instr)"

definition encode :: "chunk \<Rightarrow> bytes" where
  "encode ch =
     MAGIC @ le_u32 ABI_VERSION @ write_string (ch_name ch) @
     le_len (length (ch_constants ch)) @ concat (map write_value (ch_constants ch)) @
     le_len (length (ch_functions ch)) @ concat (map write_function (ch_functions ch)) @
     le_len (length (ch_code ch)) @ concat (map write_instruction (ch_code ch))"

section \<open>Reading\<close>

record reader =
  r_data :: bytes
  r_pos :: usize
  r_arc :: nat

type_synonym 'a rd = "reader \<Rightarrow> format_error + ('a \<times> reader)"

definition ret_rd :: "'a \<Rightarrow> 'a rd" where
  "ret_rd x r = Inr (x, r)"

definition fail_rd :: "format_error \<Rightarrow> 'a rd" where
  "fail_rd e r = Inl e"

definition bind_rd :: "'a rd \<Rightarrow> ('a \<Rightarrow> 'b rd) \<Rightarrow> 'b rd" where
  "bind_rd m f r = bind_res (m r) (\<lambda>(x, r'). f x r')"

definition rd_rest :: "reader \<Rightarrow> usize" where
  "rd_rest r = usize_sat_sub (length (r_data r)) (r_pos r)"

definition rd_take :: "usize \<Rightarrow> bytes rd" where
  "rd_take n r =
     (if rd_rest r < n then Inl Truncated
      else Inr (take n (drop (r_pos r) (r_data r)), r\<lparr>r_pos := r_pos r + n\<rparr>))"

definition read_u8 :: "u8 rd" where
  "read_u8 = bind_rd (rd_take 1) (\<lambda>s. ret_rd (s ! 0))"

definition read_array :: "nat \<Rightarrow> bytes rd" where
  "read_array n = rd_take n"

definition read_word :: "nat \<Rightarrow> 'a::len word rd" where
  "read_word n = bind_rd (read_array n) (\<lambda>bs. ret_rd (word_of_nat (from_le bs)))"

definition read_u32 :: "u32 rd" where "read_u32 = read_word 4"
definition read_u16 :: "u16 rd" where "read_u16 = read_word 2"
definition read_i32 :: "i32 rd" where "read_i32 = read_word 4"
definition read_i64 :: "i64 rd" where "read_i64 = read_word 8"
definition read_u64 :: "u64 rd" where "read_u64 = read_word 8"
definition read_u128 :: "u128 rd" where "read_u128 = read_word 16"
definition read_f64 :: "f64 rd" where "read_f64 = read_word 8"

definition read_count :: "string \<Rightarrow> u32 rd" where
  "read_count what =
     bind_rd read_u32 (\<lambda>n. if MAX_ITEMS < unat n then fail_rd (LimitExceeded what n) else ret_rd n)"

definition read_string :: "bytes rd" where
  "read_string =
     bind_rd read_u32 (\<lambda>len.
       if MAX_NAME < unat len then fail_rd (LimitExceeded ''name'' len)
       else bind_rd (rd_take (unat len)) (\<lambda>bs.
         if utf8_valid bs then ret_rd bs else fail_rd BadUtf8))"

definition read_blob :: "string \<Rightarrow> bytes rd" where
  "read_blob what =
     bind_rd read_u32 (\<lambda>len.
       if MAX_BLOB < unat len then fail_rd (LimitExceeded what len) else rd_take (unat len))"

text \<open>\<open>Arc::from(..)\<close>: a fresh allocation.\<close>

definition alloc_arc :: "nat rd" where
  "alloc_arc r = Inr (r_arc r, r\<lparr>r_arc := Suc (r_arc r)\<rparr>)"

function read_value :: "trust_level \<Rightarrow> nat \<Rightarrow> value rd" where
  "read_value trust depth =
     (if MAX_VALUE_DEPTH < depth then fail_rd ValueTooNested
      else bind_rd read_u8 (\<lambda>t.
        if t = 0 then ret_rd VUnit
        else if t = 1 then bind_rd read_u8 (\<lambda>b. ret_rd (VBool (b \<noteq> 0)))
        else if t = 2 then bind_rd read_i64 (\<lambda>i. ret_rd (VInt i))
        else if t = 3 then bind_rd read_f64 (\<lambda>x. ret_rd (VFloat x))
        else if t = 4 then
          (if trust = Untrusted then fail_rd (FmtForbiddenConstant ProcessId)
           else bind_rd read_u64 (\<lambda>p. ret_rd (VPid p)))
        else if t = 5 then
          (if trust = Untrusted then fail_rd (FmtForbiddenConstant MessageKind)
           else
             bind_rd read_u64 (\<lambda>sender. bind_rd read_u128 (\<lambda>reply_cap.
             bind_rd read_u64 (\<lambda>request_id. bind_rd read_u16 (\<lambda>tg.
             bind_rd (read_value trust (depth + 1)) (\<lambda>payload.
               ret_rd (VMessage (authenticate (message_new sender request_id tg payload)
                        sender reply_cap))))))))
        else if t = 6 then
          (if trust = Untrusted then fail_rd (FmtForbiddenConstant Capability)
           else bind_rd read_u128 (\<lambda>c. ret_rd (VCap c)))
        else if t = 7 then
          bind_rd (read_blob ''str'') (\<lambda>bs.
            if utf8_valid bs then bind_rd alloc_arc (\<lambda>a. ret_rd (VStr a bs)) else fail_rd BadUtf8)
        else if t = 8 then
          bind_rd (read_blob ''bytes'') (\<lambda>bs. bind_rd alloc_arc (\<lambda>a. ret_rd (VBytes a bs)))
        else fail_rd (UnknownValueTag t)))"
  by pat_completeness auto
termination
  by (relation "measure (\<lambda>(trust, depth). Suc MAX_VALUE_DEPTH - depth)") auto

declare read_value.simps [simp del]

text \<open>\<open>for _ in 0..n { out.push(read()?); }\<close>, with and without the index.\<close>

fun read_many :: "nat \<Rightarrow> 'a rd \<Rightarrow> 'a list rd" where
  "read_many 0 p = ret_rd []"
| "read_many (Suc n) p = bind_rd p (\<lambda>x. bind_rd (read_many n p) (\<lambda>xs. ret_rd (x # xs)))"

definition read_function :: "function_def rd" where
  "read_function =
     bind_rd read_string (\<lambda>nm. bind_rd read_u32 (\<lambda>entry. bind_rd read_u8 (\<lambda>arity.
     bind_rd read_u8 (\<lambda>nregs.
       ret_rd \<lparr>f_name = nm, f_entry = entry, f_arity = arity, f_num_registers = nregs\<rparr>))))"

definition read_instruction :: "usize \<Rightarrow> instruction rd" where
  "read_instruction at =
     bind_rd read_u8 (\<lambda>byte.
       case from_u8 byte of
         None \<Rightarrow> fail_rd (FmtUnknownOpcode at byte)
       | Some op \<Rightarrow>
           bind_rd read_u8 (\<lambda>a. bind_rd read_u8 (\<lambda>b. bind_rd read_u8 (\<lambda>c.
           bind_rd read_i32 (\<lambda>imm.
             ret_rd \<lparr>i_op = op, i_a = a, i_b = b, i_c = c, i_imm = imm\<rparr>)))))"

fun read_code :: "nat \<Rightarrow> usize \<Rightarrow> instruction list rd" where
  "read_code 0 at = ret_rd []"
| "read_code (Suc n) at =
     bind_rd (read_instruction at) (\<lambda>x. bind_rd (read_code n (Suc at)) (\<lambda>xs. ret_rd (x # xs)))"

definition read_chunk :: "trust_level \<Rightarrow> chunk rd" where
  "read_chunk trust =
     bind_rd (read_array 4) (\<lambda>magic.
     if magic \<noteq> MAGIC then fail_rd (BadMagic magic)
     else bind_rd read_u32 (\<lambda>abi.
     if abi \<noteq> ABI_VERSION then fail_rd (UnsupportedAbi abi)
     else bind_rd read_string (\<lambda>nm.
     bind_rd (read_count ''constants'') (\<lambda>n_const.
     bind_rd (read_many (unat n_const) (read_value trust 0)) (\<lambda>constants.
     bind_rd (read_count ''functions'') (\<lambda>n_fn.
     bind_rd (read_many (unat n_fn) read_function) (\<lambda>functions.
     bind_rd (read_count ''code'') (\<lambda>n_code.
     bind_rd (read_code (unat n_code) 0) (\<lambda>code.
       ret_rd \<lparr>ch_name = nm, ch_constants = constants, ch_code = code,
               ch_functions = functions\<rparr>)))))))))"

definition decode_with :: "bytes \<Rightarrow> trust_level \<Rightarrow> format_error + chunk" where
  "decode_with bs trust =
     bind_res (read_chunk trust \<lparr>r_data = bs, r_pos = 0, r_arc = 0\<rparr>) (\<lambda>(ch, _). Inr ch)"

definition decode :: "bytes \<Rightarrow> format_error + chunk" where
  "decode bs = decode_with bs Untrusted"

section \<open>What a reader consumes\<close>

definition rest_bytes :: "reader \<Rightarrow> bytes" where
  "rest_bytes r = drop (r_pos r) (r_data r)"

text \<open>\<open>decodes p bs P\<close>: in front of any continuation, \<open>p\<close> reads exactly \<open>bs\<close> and yields a \<open>P\<close>.\<close>

definition decodes :: "'a rd \<Rightarrow> bytes \<Rightarrow> ('a \<Rightarrow> bool) \<Rightarrow> bool" where
  "decodes p bs P \<longleftrightarrow>
     (\<forall>r tl. rest_bytes r = bs @ tl \<longrightarrow> (\<exists>x r'. p r = Inr (x, r') \<and> P x \<and> rest_bytes r' = tl))"

lemma decodes_ret: "P x \<Longrightarrow> decodes (ret_rd x) [] P"
  by (simp add: decodes_def ret_rd_def)

lemma decodes_bind:
  assumes p: "decodes p bs P" and f: "\<And>x. P x \<Longrightarrow> decodes (f x) cs Q" and ds: "ds = bs @ cs"
  shows "decodes (bind_rd p f) ds Q"
  unfolding decodes_def
proof (intro allI impI)
  fix r tl
  assume "rest_bytes r = ds @ tl"
  then have "rest_bytes r = bs @ (cs @ tl)" by (simp add: ds)
  with p obtain x r' where x: "p r = Inr (x, r')" "P x" "rest_bytes r' = cs @ tl"
    unfolding decodes_def by blast
  with f [OF x(2)] obtain y r'' where "f x r' = Inr (y, r'')" "Q y" "rest_bytes r'' = tl"
    unfolding decodes_def by blast
  with x(1) show "\<exists>y r''. bind_rd p f r = Inr (y, r'') \<and> Q y \<and> rest_bytes r'' = tl"
    by (simp add: bind_rd_def)
qed

lemma decodes_bind_ret:
  assumes "decodes p bs P" and "\<And>x. P x \<Longrightarrow> Q (g x)"
  shows "decodes (bind_rd p (\<lambda>x. ret_rd (g x))) bs Q"
  using assms by (intro decodes_bind [where cs = "[]", OF assms(1)]) (auto intro: decodes_ret)

lemma decodes_mono: "decodes p bs P \<Longrightarrow> (\<And>x. P x \<Longrightarrow> Q x) \<Longrightarrow> decodes p bs Q"
  unfolding decodes_def by blast

lemma decodes_take: "length bs = n \<Longrightarrow> decodes (rd_take n) bs (\<lambda>x. x = bs)"
proof -
  assume n: "length bs = n"
  have "\<exists>x r'. rd_take n r = Inr (x, r') \<and> x = bs \<and> rest_bytes r' = tl"
    if "rest_bytes r = bs @ tl" for r tl
  proof -
    have eq: "drop (r_pos r) (r_data r) = bs @ tl" using that by (simp add: rest_bytes_def)
    then have "length (r_data r) - r_pos r = length bs + length tl"
      by (metis length_append length_drop)
    then have "\<not> rd_rest r < n" by (simp add: rd_rest_def usize_sat_sub_def n)
    moreover have "drop (r_pos r + n) (r_data r) = tl"
      using eq n by (metis add.commute append_eq_conv_conj drop_drop)
    ultimately show ?thesis using eq n by (simp add: rd_take_def rest_bytes_def)
  qed
  then show ?thesis by (simp add: decodes_def)
qed

lemma decodes_alloc: "decodes alloc_arc [] (\<lambda>_. True)"
  by (simp add: decodes_def alloc_arc_def rest_bytes_def)

lemma decodes_u8: "decodes read_u8 [b] (\<lambda>x. x = b)"
  unfolding read_u8_def by (rule decodes_bind_ret [OF decodes_take]) auto

lemma decodes_word:
  fixes w :: "'a::len word"
  assumes "LENGTH('a) = 8 * k"
  shows "decodes (read_word k) (to_le k (unat w)) (\<lambda>x. x = w)"
  unfolding read_word_def read_array_def
  by (rule decodes_bind_ret [OF decodes_take]) (auto simp: word_le_roundtrip [OF assms])

section \<open>The codec contract\<close>

locale codec =
  fixes wr :: "'a \<Rightarrow> bytes"
    and rdr :: "'a rd"
    and ok :: "'a \<Rightarrow> bool"
    and sim :: "'a \<Rightarrow> 'a \<Rightarrow> bool"
  assumes roundtrip: "ok x \<Longrightarrow> decodes rdr (wr x) (sim x)"
begin

lemma many_roundtrip:
  "\<forall>x\<in>set xs. ok x \<Longrightarrow>
     decodes (read_many (length xs) rdr) (concat (map wr xs)) (list_all2 sim xs)"
proof (induction xs)
  case Nil
  then show ?case by (auto intro: decodes_ret)
next
  case (Cons x xs)
  have A: "decodes rdr (wr x) (sim x)" using Cons.prems by (simp add: roundtrip)
  have B: "decodes (bind_rd (read_many (length xs) rdr) (\<lambda>ys. ret_rd (y # ys)))
      (concat (map wr xs)) (list_all2 sim (x # xs))" if "sim x y" for y
    using Cons that by (intro decodes_bind_ret [where P = "list_all2 sim xs"]) auto
  show ?case by (simp, rule decodes_bind [OF A B refl])
qed

end

interpretation u8_codec: codec "\<lambda>b. [b]" read_u8 "\<lambda>_. True" "\<lambda>x y. y = x"
  by unfold_locales (rule decodes_u8)

interpretation u16_codec: codec le_u16 read_u16 "\<lambda>_. True" "\<lambda>x y. y = x"
  by unfold_locales (simp add: le_u16_def read_u16_def decodes_word)

interpretation u32_codec: codec le_u32 read_u32 "\<lambda>_. True" "\<lambda>x y. y = x"
  by unfold_locales (simp add: le_u32_def read_u32_def decodes_word)

interpretation i32_codec: codec le_u32 read_i32 "\<lambda>_. True" "\<lambda>x y. y = x"
  by unfold_locales (simp add: le_u32_def read_i32_def decodes_word)

interpretation i64_codec: codec le_u64 read_i64 "\<lambda>_. True" "\<lambda>x y. y = x"
  by unfold_locales (simp add: le_u64_def read_i64_def decodes_word)

interpretation u64_codec: codec le_u64 read_u64 "\<lambda>_. True" "\<lambda>x y. y = x"
  by unfold_locales (simp add: le_u64_def read_u64_def decodes_word)

interpretation f64_codec: codec le_u64 read_f64 "\<lambda>_. True" "\<lambda>x y. y = x"
  by unfold_locales (simp add: le_u64_def read_f64_def decodes_word)

interpretation u128_codec: codec le_u128 read_u128 "\<lambda>_. True" "\<lambda>x y. y = x"
  by unfold_locales (simp add: le_u128_def read_u128_def decodes_word)

lemma decodes_tag: "decodes (f t) cs Q \<Longrightarrow> decodes (bind_rd read_u8 f) (t # cs) Q"
  by (rule decodes_bind [OF decodes_u8, where cs = cs]) auto

lemma decodes_u32_bind:
  "decodes (f (word_of_nat n)) cs Q \<Longrightarrow> decodes (bind_rd read_u32 f) (le_len n @ cs) Q"
  unfolding le_len_def by (rule decodes_bind [OF u32_codec.roundtrip, where cs = cs]) auto

lemma unat_u32: "n < 2 ^ 32 \<Longrightarrow> unat (word_of_nat n :: u32) = n"
  by (simp add: unat_of_nat)

lemma decodes_count:
  assumes "n \<le> MAX_ITEMS"
  shows "decodes (read_count what) (le_len n) (\<lambda>x. unat x = n)"
proof -
  have n: "unat (word_of_nat n :: u32) = n" using assms by (intro unat_u32) (simp add: MAX_ITEMS_def)
  have "decodes (if MAX_ITEMS < unat (word_of_nat n :: u32)
      then fail_rd (LimitExceeded what (word_of_nat n)) else ret_rd (word_of_nat n)) []
      (\<lambda>x :: u32. unat x = n)"
    using assms n by (simp add: decodes_def ret_rd_def)
  then show ?thesis
    using decodes_u32_bind [where cs = "[]" and n = n and Q = "\<lambda>x. unat x = n"
        and f = "\<lambda>n. if MAX_ITEMS < unat n then fail_rd (LimitExceeded what n) else ret_rd n"]
    by (simp add: read_count_def)
qed

definition name_ok :: "bytes \<Rightarrow> bool" where
  "name_ok s \<longleftrightarrow> length s \<le> MAX_NAME \<and> utf8_valid s"

definition function_enc_ok :: "function_def \<Rightarrow> bool" where
  "function_enc_ok def \<longleftrightarrow> name_ok (f_name def)"

fun blobs_ok :: "value \<Rightarrow> bool" where
  "blobs_ok (VStr _ s) = (length s \<le> MAX_BLOB)"
| "blobs_ok (VBytes _ b) = (length b \<le> MAX_BLOB)"
| "blobs_ok (VMessage (Msg _ _ _ _ pl)) = blobs_ok pl"
| "blobs_ok _ = True"

definition value_enc_ok :: "trust_level \<Rightarrow> nat \<Rightarrow> value \<Rightarrow> bool" where
  "value_enc_ok trust depth v \<longleftrightarrow>
     value_ok v \<and> blobs_ok v \<and> depth + value_depth v \<le> MAX_VALUE_DEPTH \<and>
     (trust = Trusted \<or> forbidden_kind v = None)"

lemma decodes_string: "name_ok s \<Longrightarrow> decodes read_string (write_string s) (\<lambda>x. x = s)"
proof -
  assume s: "name_ok s"
  then have n: "unat (word_of_nat (length s) :: u32) = length s"
    by (intro unat_u32) (simp add: name_ok_def MAX_NAME_def)
  have "decodes (bind_rd (rd_take (length s))
      (\<lambda>bs. if utf8_valid bs then ret_rd bs else fail_rd BadUtf8)) (s @ []) (\<lambda>x. x = s)"
    using s by (intro decodes_bind [OF decodes_take]) (auto intro: decodes_ret simp: name_ok_def)
  then show ?thesis
    unfolding read_string_def write_string_def
    using s by (intro decodes_u32_bind) (simp add: n name_ok_def)
qed

lemma decodes_blob: "length b \<le> MAX_BLOB \<Longrightarrow> decodes (read_blob what) (write_blob b) (\<lambda>x. x = b)"
proof -
  assume b: "length b \<le> MAX_BLOB"
  then have "unat (word_of_nat (length b) :: u32) = length b"
    by (intro unat_u32) (simp add: MAX_BLOB_def)
  with b show ?thesis
    unfolding read_blob_def write_blob_def by (intro decodes_u32_bind) (simp add: decodes_take)
qed

interpretation string_codec: codec write_string read_string name_ok "\<lambda>x y. y = x"
  by unfold_locales (rule decodes_string)

interpretation blob_codec: codec write_blob "read_blob what" "\<lambda>b. length b \<le> MAX_BLOB" "\<lambda>x y. y = x"
  for what
  by unfold_locales (rule decodes_blob)

lemma decodes_function: "function_enc_ok def \<Longrightarrow> decodes read_function (write_function def) (\<lambda>x. x = def)"
  unfolding read_function_def write_function_def function_enc_ok_def
  apply (rule decodes_bind [OF string_codec.roundtrip], assumption, simp_all)
  apply (rule decodes_bind [OF u32_codec.roundtrip], simp_all)
  apply (rule decodes_tag, rule decodes_tag, rule decodes_ret, simp)
  done

interpretation function_codec: codec write_function read_function function_enc_ok "\<lambda>x y. y = x"
  by unfold_locales (rule decodes_function)

lemma decodes_instruction: "decodes (read_instruction at) (write_instruction instr) (\<lambda>x. x = instr)"
  unfolding read_instruction_def write_instruction_def append_Cons append_Nil
  apply (rule decodes_tag, simp)
  apply (rule decodes_tag, rule decodes_tag, rule decodes_tag)
  apply (rule decodes_bind_ret [OF i32_codec.roundtrip], simp_all)
  done

interpretation instruction_codec: codec write_instruction "read_instruction at" "\<lambda>_. True"
    "\<lambda>x y. y = x" for at
  by unfold_locales (rule decodes_instruction)

lemma decodes_code:
  "decodes (read_code (length is) at) (concat (map write_instruction is)) (\<lambda>x. x = is)"
proof (induction "is" arbitrary: at)
  case Nil
  then show ?case by (auto intro: decodes_ret)
next
  case (Cons i "is")
  have "decodes (bind_rd (read_code (length is) (Suc at)) (\<lambda>xs. ret_rd (i # xs)))
      (concat (map write_instruction is)) (\<lambda>x. x = i # is)"
    using Cons.IH by (rule decodes_bind_ret) simp
  with instruction_codec.roundtrip show ?case
    by (auto intro: decodes_bind)
qed

lemma decodes_value:
  "value_enc_ok trust d v \<Longrightarrow>
     decodes (read_value trust d) (write_value v) (\<lambda>w. erase_arcs w = erase_arcs v)"
proof (induction v arbitrary: d rule: value_msg_induct)
  case (VMessage s c r t pl)
  from VMessage.prems have tr: "trust = Trusted" and d: "\<not> MAX_VALUE_DEPTH < d"
    and ok: "value_enc_ok trust (d + 1) pl"
    by (auto simp: value_enc_ok_def)
  note IH = VMessage.IH [OF ok]
  have "decodes (bind_rd read_u64 (\<lambda>sender. bind_rd read_u128 (\<lambda>reply_cap.
             bind_rd read_u64 (\<lambda>request_id. bind_rd read_u16 (\<lambda>tg.
             bind_rd (read_value trust (d + 1)) (\<lambda>payload.
               ret_rd (VMessage (authenticate (message_new sender request_id tg payload)
                        sender reply_cap))))))))
     (le_u64 s @ le_u128 c @ le_u64 r @ le_u16 t @ write_value pl)
     (\<lambda>w. erase_arcs w = erase_arcs (VMessage (Msg s c r t pl)))"
    apply (rule decodes_bind [OF u64_codec.roundtrip], simp_all)
    apply (rule decodes_bind [OF u128_codec.roundtrip], simp_all)
    apply (rule decodes_bind [OF u64_codec.roundtrip], simp_all)
    apply (rule decodes_bind [OF u16_codec.roundtrip], simp_all)
    apply (rule decodes_bind_ret, rule IH [simplified], simp add: message_new_def)
    done
  then show ?case
    unfolding write_value.simps read_value.simps [of trust d]
    using d tr by (simp only: if_False) (rule decodes_tag, simp)
next
  case (VStr a s)
  then have d: "\<not> MAX_VALUE_DEPTH < d" and s: "length s \<le> MAX_BLOB" "utf8_valid s"
    by (auto simp: value_enc_ok_def)
  have "decodes (bind_rd (read_blob ''str'') (\<lambda>bs. if utf8_valid bs
      then bind_rd alloc_arc (\<lambda>a. ret_rd (VStr a bs)) else fail_rd BadUtf8))
      (write_blob s) (\<lambda>w. erase_arcs w = VStr 0 s)"
    by (rule decodes_bind [OF decodes_blob [OF s(1)], where cs = "[]"])
      (auto simp: s intro: decodes_bind_ret [OF decodes_alloc])
  then show ?case
    unfolding write_value.simps read_value.simps [of trust d]
    using d by (simp only: if_False) (rule decodes_tag, simp)
next
  case (VBytes a b)
  then have d: "\<not> MAX_VALUE_DEPTH < d" and b: "length b \<le> MAX_BLOB"
    by (auto simp: value_enc_ok_def)
  have "decodes (bind_rd (read_blob ''bytes'') (\<lambda>bs. bind_rd alloc_arc (\<lambda>a. ret_rd (VBytes a bs))))
      (write_blob b) (\<lambda>w. erase_arcs w = VBytes 0 b)"
    by (rule decodes_bind [OF decodes_blob [OF b], where cs = "[]"])
      (auto intro: decodes_bind_ret [OF decodes_alloc])
  then show ?case
    unfolding write_value.simps read_value.simps [of trust d]
    using d by (simp only: if_False) (rule decodes_tag, simp)
qed (subst read_value.simps,
    force simp: value_enc_ok_def intro!: decodes_tag decodes_ret
        decodes_bind_ret [OF i64_codec.roundtrip] decodes_bind_ret [OF f64_codec.roundtrip]
        decodes_bind_ret [OF u64_codec.roundtrip] decodes_bind_ret [OF u128_codec.roundtrip])+

interpretation value_codec: codec write_value "read_value trust depth" "value_enc_ok trust depth"
    "\<lambda>v w. erase_arcs w = erase_arcs v" for trust depth
  by unfold_locales (rule decodes_value)

section \<open>Whole chunks\<close>

text \<open>
  \<open>chunk_enc_ok\<close>: a chunk within the decoder's limits whose constants the trust level admits.
  \<open>chunk_sim\<close>: equal up to the identity of the allocations in the constant pool.
\<close>

definition chunk_enc_ok :: "trust_level \<Rightarrow> chunk \<Rightarrow> bool" where
  "chunk_enc_ok trust ch \<longleftrightarrow>
     name_ok (ch_name ch) \<and>
     length (ch_constants ch) \<le> MAX_ITEMS \<and> length (ch_functions ch) \<le> MAX_ITEMS \<and>
     length (ch_code ch) \<le> MAX_ITEMS \<and>
     (\<forall>v\<in>set (ch_constants ch). value_enc_ok trust 0 v) \<and>
     (\<forall>def\<in>set (ch_functions ch). function_enc_ok def)"

definition chunk_sim :: "chunk \<Rightarrow> chunk \<Rightarrow> bool" where
  "chunk_sim c d \<longleftrightarrow>
     ch_name d = ch_name c \<and> ch_code d = ch_code c \<and> ch_functions d = ch_functions c \<and>
     map erase_arcs (ch_constants d) = map erase_arcs (ch_constants c)"

lemma list_all2_eq_rev: "list_all2 (\<lambda>x y. y = x) xs ys \<longleftrightarrow> ys = xs"
  by (auto simp: list_all2_conv_all_nth intro: nth_equalityI)

lemma list_all2_erase:
  "list_all2 (\<lambda>v w. erase_arcs w = erase_arcs v) xs ys \<Longrightarrow> map erase_arcs ys = map erase_arcs xs"
  by (auto simp: list_all2_conv_all_nth intro: nth_equalityI)

lemma decodes_chunk:
  assumes ok: "chunk_enc_ok trust ch"
  shows "decodes (read_chunk trust) (encode ch) (chunk_sim ch)"
proof -
  from ok have lens: "length (ch_constants ch) \<le> MAX_ITEMS" "length (ch_functions ch) \<le> MAX_ITEMS"
      "length (ch_code ch) \<le> MAX_ITEMS"
    by (simp_all add: chunk_enc_ok_def)
  have cs: "decodes (read_many (length (ch_constants ch)) (read_value trust 0))
      (concat (map write_value (ch_constants ch)))
      (\<lambda>ys. map erase_arcs ys = map erase_arcs (ch_constants ch))"
    using ok by (intro decodes_mono [OF value_codec.many_roundtrip])
      (auto simp: chunk_enc_ok_def dest: list_all2_erase)
  have fs: "decodes (read_many (length (ch_functions ch)) read_function)
      (concat (map write_function (ch_functions ch))) (\<lambda>ys. ys = ch_functions ch)"
    using ok by (intro decodes_mono [OF function_codec.many_roundtrip])
      (auto simp: chunk_enc_ok_def list_all2_eq_rev)
  have nm: "decodes read_string (write_string (ch_name ch)) (\<lambda>x. x = ch_name ch)"
    using ok by (intro string_codec.roundtrip) (simp add: chunk_enc_ok_def)
  have fin: "decodes (ret_rd \<lparr>ch_name = ch_name ch, ch_constants = ks, ch_code = ch_code ch,
        ch_functions = ch_functions ch\<rparr>) [] (chunk_sim ch)"
    if "map erase_arcs ks = map erase_arcs (ch_constants ch)" for ks
    using that by (intro decodes_ret) (simp add: chunk_sim_def)
  have enc: "encode ch = MAGIC @ le_u32 ABI_VERSION @ write_string (ch_name ch) @
     le_len (length (ch_constants ch)) @ concat (map write_value (ch_constants ch)) @
     le_len (length (ch_functions ch)) @ concat (map write_function (ch_functions ch)) @
     le_len (length (ch_code ch)) @ concat (map write_instruction (ch_code ch)) @ []"
    by (simp add: encode_def)
  show ?thesis
    unfolding read_chunk_def read_array_def enc
    apply (rule decodes_bind [OF decodes_take _ refl], simp add: MAGIC_def, simp)
    apply (rule decodes_bind [OF u32_codec.roundtrip _ refl], simp, simp)
    apply (rule decodes_bind [OF nm _ refl], simp)
    apply (rule decodes_bind [OF decodes_count [OF lens(1)] _ refl], simp only:)
    apply (rule decodes_bind [OF cs _ refl])
    apply (rule decodes_bind [OF decodes_count [OF lens(2)] _ refl], simp only:)
    apply (rule decodes_bind [OF fs _ refl])
    apply (rule decodes_bind [OF decodes_count [OF lens(3)] _ refl], simp only:)
    apply (rule decodes_bind [OF decodes_code, where cs = "[]"], simp only:)
     apply (erule fin)
    apply simp
    done
qed

lemma decode_encode:
  assumes "chunk_enc_ok trust ch"
  shows "\<exists>ch'. decode_with (encode ch @ extra) trust = Inr ch' \<and> chunk_sim ch ch'"
proof -
  let ?r = "\<lparr>r_data = encode ch @ extra, r_pos = 0, r_arc = 0\<rparr>"
  have "rest_bytes ?r = encode ch @ extra" by (simp add: rest_bytes_def)
  with decodes_chunk [OF assms] obtain ch' r' where "read_chunk trust ?r = Inr (ch', r')"
      "chunk_sim ch ch'"
    unfolding decodes_def by blast
  then show ?thesis by (simp add: decode_with_def)
qed

section \<open>What decoding guarantees\<close>

definition yields :: "'a rd \<Rightarrow> ('a \<Rightarrow> bool) \<Rightarrow> bool" where
  "yields p P \<longleftrightarrow> (\<forall>r x r'. p r = Inr (x, r') \<longrightarrow> P x)"

lemma yields_ret: "P x \<Longrightarrow> yields (ret_rd x) P"
  by (simp add: yields_def ret_rd_def)

lemma yields_fail [simp]: "yields (fail_rd e) P"
  by (simp add: yields_def fail_rd_def)

lemma yields_bind:
  assumes "yields p P" and "\<And>x. P x \<Longrightarrow> yields (f x) Q"
  shows "yields (bind_rd p f) Q"
  using assms unfolding yields_def bind_rd_def
  by (fastforce simp: bind_res_Inr_iff)

lemma yields_any: "(\<And>x. yields (f x) Q) \<Longrightarrow> yields (bind_rd p f) Q"
  by (rule yields_bind [where P = "\<lambda>_. True"]) (simp_all add: yields_def)

lemma yields_take: "yields (rd_take n) (\<lambda>bs. length bs = n)"
  by (auto simp: yields_def rd_take_def rd_rest_def usize_sat_sub_def split: if_splits)

lemma yields_many:
  "yields p P \<Longrightarrow> yields (read_many n p) (\<lambda>xs. length xs = n \<and> (\<forall>x\<in>set xs. P x))"
proof (induction n)
  case 0
  then show ?case by (simp add: yields_ret)
next
  case (Suc n)
  show ?case unfolding read_many.simps
    by (rule yields_bind [OF Suc.prems], rule yields_bind [OF Suc.IH [OF Suc.prems]])
      (auto intro!: yields_ret)
qed

lemma yields_code: "yields (read_code n at) (\<lambda>xs. length xs = n)"
proof (induction n arbitrary: at)
  case 0
  then show ?case by (simp add: yields_ret)
next
  case (Suc n)
  show ?case unfolding read_code.simps
    by (rule yields_any, rule yields_bind [OF Suc.IH]) (auto intro!: yields_ret)
qed

lemma yields_count: "yields (read_count what) (\<lambda>n. unat n \<le> MAX_ITEMS)"
  unfolding read_count_def by (rule yields_any) (auto intro: yields_ret)

lemma yields_string: "yields read_string name_ok"
  unfolding read_string_def name_ok_def
  by (rule yields_any) (auto intro!: yields_bind [OF yields_take] yields_ret)

lemma yields_blob: "yields (read_blob what) (\<lambda>b. length b \<le> MAX_BLOB)"
  unfolding read_blob_def
  by (rule yields_any) (use yields_take in \<open>auto simp: yields_def fail_rd_def\<close>)

lemma yields_function: "yields read_function function_enc_ok"
  unfolding read_function_def function_enc_ok_def
  by (rule yields_bind [OF yields_string], (rule yields_any)+, rule yields_ret) simp

lemma yields_if:
  "(b \<Longrightarrow> yields p P) \<Longrightarrow> (\<not> b \<Longrightarrow> yields q P) \<Longrightarrow> yields (if b then p else q) P"
  by simp

lemma value_enc_ok_simps:
  assumes "d \<le> MAX_VALUE_DEPTH"
  shows "value_enc_ok t d VUnit" "value_enc_ok t d (VBool b)" "value_enc_ok t d (VInt i)"
    "value_enc_ok t d (VFloat x)"
    "t \<noteq> Untrusted \<Longrightarrow> value_enc_ok t d (VPid p)" "t \<noteq> Untrusted \<Longrightarrow> value_enc_ok t d (VCap c)"
    "utf8_valid s \<Longrightarrow> length s \<le> MAX_BLOB \<Longrightarrow> value_enc_ok t d (VStr a s)"
    "length s \<le> MAX_BLOB \<Longrightarrow> value_enc_ok t d (VBytes a s)"
    "t \<noteq> Untrusted \<Longrightarrow> value_enc_ok t (d + 1) pl \<Longrightarrow>
       value_enc_ok t d (VMessage (authenticate (message_new u r g pl) w q))"
  using assms by (cases t; simp add: value_enc_ok_def message_new_def)+

lemma yields_value: "yields (read_value trust d) (value_enc_ok trust d)"
proof (induction trust d rule: read_value.induct)
  case (1 trust depth)
  show ?case
  proof (cases "MAX_VALUE_DEPTH < depth")
    case True
    then show ?thesis by (subst read_value.simps) simp
  next
    case False
    then have d: "depth \<le> MAX_VALUE_DEPTH" by simp
    have blob: "yields (bind_rd (read_blob w) f) Q"
      if "\<And>b. length b \<le> MAX_BLOB \<Longrightarrow> yields (f b) Q" for w and f :: "bytes \<Rightarrow> value rd" and Q
      using that by (rule yields_bind [OF yields_blob])
    have pl: "yields (bind_rd (read_value trust (depth + 1)) f) Q"
      if "trust \<noteq> Untrusted" and "\<And>v. value_enc_ok trust (depth + 1) v \<Longrightarrow> yields (f v) Q"
      for f :: "value \<Rightarrow> value rd" and Q
      using "1.IH" [OF False] that
      by (intro yields_bind [where P = "value_enc_ok trust (depth + 1)"]) auto
    note enc = value_enc_ok_simps [OF d]
    show ?thesis
      apply (subst read_value.simps)
      apply (simp only: False if_False)
      apply (rule yields_any)
      apply (intro yields_if yields_fail blob)
      apply (assumption | rule pl yields_any yields_ret enc)+
      done
  qed
qed

lemma decode_enc_ok: "decode_with bs trust = Inr ch \<Longrightarrow> chunk_enc_ok trust ch"
proof -
  have "yields (read_chunk trust) (chunk_enc_ok trust)"
    unfolding read_chunk_def
    apply (rule yields_any, simp, intro impI)
    apply (rule yields_any, simp, intro impI)
    apply (rule yields_bind [OF yields_string])
    apply (rule yields_bind [OF yields_count], rule yields_bind [OF yields_many [OF yields_value]])
    apply (rule yields_bind [OF yields_count], rule yields_bind [OF yields_many [OF yields_function]])
    apply (rule yields_bind [OF yields_count], rule yields_bind [OF yields_code])
    apply (rule yields_ret, simp add: chunk_enc_ok_def)
    done
  then show "decode_with bs trust = Inr ch \<Longrightarrow> chunk_enc_ok trust ch"
    by (auto simp: decode_with_def yields_def bind_res_Inr_iff)
qed

lemma decode_constants_ok: "decode_with bs trust = Inr ch \<Longrightarrow> constants_ok trust (ch_constants ch)"
  by (auto dest!: decode_enc_ok simp: chunk_enc_ok_def constants_ok_def value_enc_ok_def)

section \<open>Properties\<close>

lemmas enc_ok_defs = chunk_enc_ok_def name_ok_def utf8_valid.simps function_enc_ok_def value_enc_ok_def
  MAX_NAME_def MAX_ITEMS_def MAX_BLOB_def MAX_VALUE_DEPTH_def

text \<open>A module with one string constant, one function and two instructions.\<close>

definition sample_chunk :: chunk where
  "sample_chunk = \<lparr>ch_name = [109], ch_constants = [VInt 7, VStr 3 [104, 105]],
     ch_code = [instr_a_imm LoadConst 0 1, instr_nullary Halt],
     ch_functions = [\<lparr>f_name = [102], f_entry = 0, f_arity = 0, f_num_registers = 1\<rparr>]\<rparr>"

lemma sample_chunk_enc_ok: "chunk_enc_ok Untrusted sample_chunk"
  by (simp add: sample_chunk_def enc_ok_defs)

text \<open>C4: decoding inverts encoding: whatever follows the module, a chunk within the format's limits comes
  back as itself, up to the identity of the allocations its strings live in.\<close>

theorem decode_encode_roundtrip:
  "chunk_enc_ok trust ch \<Longrightarrow> \<exists>ch'. decode_with (encode ch @ extra) trust = Inr ch' \<and> chunk_sim ch ch'"
  by (rule decode_encode)

theorem decode_encode_roundtrip_witness:
  "\<exists>ch'. decode_with (encode sample_chunk @ [1, 2, 3]) Untrusted = Inr ch' \<and> chunk_sim sample_chunk ch'"
  using decode_encode_roundtrip [OF sample_chunk_enc_ok] .

text \<open>C6: whatever bytes arrive, an accepted module respects every limit of the format (name, item and blob
  sizes, UTF-8, message depth), an untrusted one holds no capability, pid or message constant, and
  the module encodes back to bytes that decode to the same module.\<close>

theorem decode_with_guarantees:
  "decode_with bs trust = Inr ch \<Longrightarrow>
     chunk_enc_ok trust ch \<and> constants_ok trust (ch_constants ch) \<and>
     (\<exists>ch'. decode_with (encode ch) trust = Inr ch' \<and> chunk_sim ch ch')"
  using decode_enc_ok decode_constants_ok decode_encode [of trust ch "[]"] by auto

theorem decode_with_guarantees_witness:
  "\<exists>ch. decode_with (encode sample_chunk) Untrusted = Inr ch \<and> chunk_enc_ok Untrusted ch \<and>
     constants_ok Untrusted (ch_constants ch)"
  using decode_encode [OF sample_chunk_enc_ok, of "[]"] decode_with_guarantees [of "encode sample_chunk" Untrusted]
  by auto

end
