(* ===== verification/BF_Cap.thy ===== *)
theory BF_Cap
  imports BF_Value
begin

text \<open>
  \<open>src/crates/byteflow/src/bytecode/cap.rs\<close> and \<open>scheduler/delegate.rs\<close>: capability rights as
  a 32-bit set, native allowlists as a bitmap of 64-bit words, capabilities with the revocation
  epoch they were minted in, attenuation and delegation.

  The lemmas read the bit tricks as sets (\<open>mask_set\<close>, \<open>rights_set\<close>) and show that attenuation
  never widens authority. The locale \<open>attenuable\<close> is that contract; it is interpreted on rights
  and on whole capabilities, so a chain of any length stays below its root. \<open>getrandom\<close> is a
  third-party crate: \<open>cap_id_random\<close> takes it as an argument.
\<close>

section \<open>Random identifiers\<close>

fun cap_id_random_loop :: "nat \<Rightarrow> ('g \<Rightarrow> bytes option \<times> 'g) \<Rightarrow> 'g \<Rightarrow> cap_id option \<times> 'g" where
  "cap_id_random_loop 0 getrandom g = (None, g)"
| "cap_id_random_loop (Suc n) getrandom g =
     (case getrandom g of
        (None, g') \<Rightarrow> (None, g')
      | (Some bs, g') \<Rightarrow>
          let raw = word_of_nat (from_le bs) :: u128
          in if raw \<noteq> 0 then (Some raw, g') else cap_id_random_loop n getrandom g')"

text \<open>\<open>None\<close> is \<open>Err(CapIdError::Entropy)\<close>: a failed draw, or eight zero draws in a row.\<close>

definition cap_id_random :: "('g \<Rightarrow> bytes option \<times> 'g) \<Rightarrow> 'g \<Rightarrow> cap_id option \<times> 'g" where
  "cap_id_random getrandom g = cap_id_random_loop 8 getrandom g"

lemma cap_id_random_not_none:
  "cap_id_random getrandom g = (Some c, g') \<Longrightarrow> \<not> cap_id_is_none c"
proof -
  have "cap_id_random_loop n getrandom g = (Some c, g') \<Longrightarrow> c \<noteq> 0" for n
    by (induction n arbitrary: g) (auto simp: Let_def split: prod.splits option.splits if_splits)
  then show "cap_id_random getrandom g = (Some c, g') \<Longrightarrow> \<not> cap_id_is_none c"
    by (simp add: cap_id_random_def cap_id_is_none_def)
qed

section \<open>Rights\<close>

type_synonym cap_rights = u32

definition NONE :: cap_rights where "NONE = 0"
definition SEND :: cap_rights where "SEND = push_bit 0 1"
definition ASK :: cap_rights where "ASK = push_bit 1 1"
definition RECV :: cap_rights where "RECV = push_bit 2 1"
definition SPAWN :: cap_rights where "SPAWN = push_bit 3 1"
definition LINK :: cap_rights where "LINK = push_bit 4 1"
definition MONITOR :: cap_rights where "MONITOR = push_bit 5 1"
definition ADMIN :: cap_rights where "ADMIN = push_bit 6 1"
definition NATIVE :: cap_rights where "NATIVE = push_bit 7 1"

definition ADDRESSING :: cap_rights where
  "ADDRESSING = SEND OR ASK OR LINK OR MONITOR"

definition FLOW :: cap_rights where
  "FLOW = SEND OR ASK OR RECV OR SPAWN OR LINK OR MONITOR OR NATIVE"

definition ROOT :: cap_rights where "ROOT = FLOW"

definition SEND_ASK :: cap_rights where "SEND_ASK = SEND OR ASK"

lemmas rights_defs = NONE_def SEND_def ASK_def RECV_def SPAWN_def LINK_def MONITOR_def ADMIN_def
  NATIVE_def ADDRESSING_def FLOW_def ROOT_def SEND_ASK_def

definition rights_union :: "cap_rights \<Rightarrow> cap_rights \<Rightarrow> cap_rights" where
  "rights_union a b = a OR b"

definition rights_intersect :: "cap_rights \<Rightarrow> cap_rights \<Rightarrow> cap_rights" where
  "rights_intersect a b = a AND b"

definition contains :: "cap_rights \<Rightarrow> cap_rights \<Rightarrow> bool" where
  "contains a b = (a AND b = b)"

definition is_subset_of :: "cap_rights \<Rightarrow> cap_rights \<Rightarrow> bool" where
  "is_subset_of a b = (a AND NOT b = 0)"

definition bits_u8 :: "cap_rights \<Rightarrow> u8" where
  "bits_u8 a = ucast a"

definition rights_from_u8 :: "u8 \<Rightarrow> cap_rights" where
  "rights_from_u8 b = ucast b"

text \<open>Reading rights as the set of their bits.\<close>

definition rights_set :: "cap_rights \<Rightarrow> nat set" where
  "rights_set r = {n. bit r n}"

lemma rights_set_inject: "rights_set a = rights_set b \<longleftrightarrow> a = b"
  by (auto simp: rights_set_def intro: bit_eqI)

lemma rights_set_union: "rights_set (rights_union a b) = rights_set a \<union> rights_set b"
  by (auto simp: rights_set_def rights_union_def bit_or_iff)

lemma rights_set_intersect: "rights_set (rights_intersect a b) = rights_set a \<inter> rights_set b"
  by (auto simp: rights_set_def rights_intersect_def bit_and_iff)

lemma rights_set_bound: "n \<in> rights_set r \<Longrightarrow> n < 32"
  using bit_imp_le_length [of r n] by (simp add: rights_set_def)

lemma rights_set_subset_iff: "rights_set a \<subseteq> rights_set b \<longleftrightarrow> (\<forall>n<32. bit a n \<longrightarrow> bit b n)"
  using rights_set_bound [of _ a] by (auto simp: rights_set_def)

lemma contains_iff_subset: "contains a b \<longleftrightarrow> rights_set b \<subseteq> rights_set a"
  by (auto simp: contains_def rights_set_subset_iff bit_eq_iff bit_and_iff)

lemma is_subset_of_iff_subset: "is_subset_of a b \<longleftrightarrow> rights_set a \<subseteq> rights_set b"
  by (auto simp: is_subset_of_def rights_set_subset_iff bit_eq_iff bit_and_iff bit_not_iff)

lemma is_subset_of_iff_contains: "is_subset_of a b \<longleftrightarrow> contains b a"
  by (simp add: is_subset_of_iff_subset contains_iff_subset)

lemma contains_refl [simp]: "contains a a"
  by (simp add: contains_def)

lemma contains_empty [simp]: "contains a 0"
  by (simp add: contains_def)

lemma contains_trans: "contains a b \<Longrightarrow> contains b c \<Longrightarrow> contains a c"
  by (auto simp: contains_iff_subset)

lemma contains_intersect [simp]: "contains a (rights_intersect a b)"
  by (auto simp: contains_iff_subset rights_set_intersect)

lemma flow_lacks_admin: "\<not> contains FLOW ADMIN"
  by (simp add: rights_defs contains_def)

lemma rights_u8_roundtrip: "rights_from_u8 (bits_u8 a) = a AND 0xFF"
  by (simp add: rights_from_u8_def bits_u8_def bit_eq_iff bit_and_iff bit_ucast_iff
      bit_numeral_word_iff) (auto simp: less_Suc_eq numeral_eq_Suc bit_numeral_rec)

section \<open>Native allowlists\<close>

type_synonym native_mask = "u64 list"
type_synonym native_idx = u32

definition mask_empty :: "usize \<Rightarrow> native_mask" where
  "mask_empty native_count = replicate ((native_count + 63) div 64) 0"

definition mask_full :: "usize \<Rightarrow> native_mask" where
  "mask_full native_count =
     (let v = replicate ((native_count + 63) div 64) (- 1 :: u64);
          rem = native_count mod 64
      in if rem \<noteq> 0 \<and> v \<noteq> [] then butlast v @ [last v AND (push_bit rem 1 - 1)] else v)"

definition mask_set_index :: "usize \<Rightarrow> native_mask \<Rightarrow> native_idx \<Rightarrow> native_mask" where
  "mask_set_index native_count v i =
     (let w = unat i div 64; b = unat i mod 64
      in if w < length v \<and> unat i < native_count then v[w := (v ! w) OR push_bit b 1] else v)"

definition mask_from_indices :: "usize \<Rightarrow> native_idx list \<Rightarrow> native_mask" where
  "mask_from_indices native_count idxs =
     foldl (mask_set_index native_count) (replicate ((native_count + 63) div 64) 0) idxs"

definition mask_allows :: "native_mask \<Rightarrow> native_idx \<Rightarrow> bool" where
  "mask_allows m idx =
     (let w = unat idx div 64; b = unat idx mod 64
      in case nth_opt m w of Some wd \<Rightarrow> wd AND push_bit b 1 \<noteq> 0 | None \<Rightarrow> False)"

definition mask_word :: "native_mask \<Rightarrow> nat \<Rightarrow> u64" where
  "mask_word m i = (case nth_opt m i of Some w \<Rightarrow> w | None \<Rightarrow> 0)"

definition mask_intersect :: "native_mask \<Rightarrow> native_mask \<Rightarrow> native_mask" where
  "mask_intersect m requested =
     map (\<lambda>i. mask_word m i AND mask_word requested i) [0..<min (length m) (length requested)]"

text \<open>The bitmap as the set of allowed indices.\<close>

definition mask_set :: "native_mask \<Rightarrow> native_idx set" where
  "mask_set m = {i. mask_allows m i}"

lemma and_exp_iff: "(w::'a::len word) AND 2 ^ b \<noteq> 0 \<longleftrightarrow> bit w b"
  by (simp add: and_exp_eq_0_iff_not_bit)

lemma mask_allows_iff: "mask_allows m i \<longleftrightarrow> bit (mask_word m (unat i div 64)) (unat i mod 64)"
  by (simp add: mask_allows_def mask_word_def Let_def and_exp_iff split: option.splits)

lemma mask_word_out: "length m \<le> i \<Longrightarrow> mask_word m i = 0"
  by (simp add: mask_word_def)

lemma mask_word_in: "i < length m \<Longrightarrow> mask_word m i = m ! i"
  by (simp add: mask_word_def)

lemma mask_word_intersect:
  "mask_word (mask_intersect a b) i = mask_word a i AND mask_word b i"
proof (cases "i < min (length a) (length b)")
  case True
  then show ?thesis by (simp add: mask_intersect_def mask_word_in)
next
  case False
  then have "length a \<le> i \<or> length b \<le> i" by auto
  with False show ?thesis by (auto simp: mask_intersect_def mask_word_out)
qed

lemma mask_set_intersect: "mask_set (mask_intersect a b) = mask_set a \<inter> mask_set b"
  by (auto simp: mask_set_def mask_allows_iff mask_word_intersect bit_and_iff)

lemma mask_set_empty: "mask_set (mask_empty n) = {}"
  by (auto simp: mask_set_def mask_allows_iff mask_word_def mask_empty_def nth_opt_def)

lemma length_mask_set_index [simp]: "length (mask_set_index n v i) = length v"
  by (simp add: mask_set_index_def Let_def)

lemma mask_word_set_index:
  "mask_word (mask_set_index n v i) k =
     (if k = unat i div 64 \<and> k < length v \<and> unat i < n
      then mask_word v k OR push_bit (unat i mod 64) 1 else mask_word v k)"
  by (auto simp: mask_set_index_def mask_word_def nth_opt_def Let_def)

lemma mask_allows_set_index:
  "mask_allows (mask_set_index n v i) j \<longleftrightarrow>
     mask_allows v j \<or> (j = i \<and> unat i div 64 < length v \<and> unat i < n)"
proof -
  have "j = i \<longleftrightarrow> unat j div 64 = unat i div 64 \<and> unat j mod 64 = unat i mod 64"
    by (metis div_mult_mod_eq word_unat_eq_iff)
  moreover have "unat j mod 64 < 64" by simp
  ultimately show ?thesis
    by (auto simp: mask_allows_iff mask_word_set_index bit_or_iff bit_exp_iff)
qed

lemma mask_allows_foldl:
  "mask_allows (foldl (mask_set_index n) v idxs) j \<longleftrightarrow>
     mask_allows v j \<or> (j \<in> set idxs \<and> unat j div 64 < length v \<and> unat j < n)"
  by (induction idxs arbitrary: v) (auto simp: mask_allows_set_index)

lemma mask_set_from_indices:
  "mask_set (mask_from_indices n idxs) = {i \<in> set idxs. unat i < n}"
proof -
  have "unat i < n \<Longrightarrow> unat i div 64 < (n + 63) div 64" for i :: native_idx
    by linarith
  then show ?thesis
    using mask_set_empty [of n]
    by (auto simp: mask_set_def mask_from_indices_def mask_allows_foldl mask_empty_def)
qed

lemma mask_full_eq:
  "mask_full n =
     replicate (n div 64) (- 1) @ (if n mod 64 = 0 then [] else [2 ^ (n mod 64) - 1])"
proof (cases "n mod 64 = 0")
  case True
  then obtain k where "n = 64 * k" by (auto simp: mod_eq_0_iff_dvd)
  then have "(n + 63) div 64 = n div 64" by simp
  with True show ?thesis by (simp add: mask_full_def Let_def)
next
  case False
  then have "0 < n mod 64" and "n mod 64 < 64" by simp_all
  moreover have "n = 64 * (n div 64) + n mod 64" by simp
  ultimately have "(n + 63) div 64 = Suc (n div 64)" by linarith
  then have "replicate ((n + 63) div 64) (- 1 :: u64) = replicate (n div 64) (- 1) @ [- 1]"
    by (simp add: replicate_append_same)
  with False show ?thesis by (simp add: mask_full_def Let_def)
qed

lemma mask_set_full: "mask_set (mask_full n) = {i. unat i < n}"
proof -
  have "mask_allows (mask_full n) i \<longleftrightarrow> unat i < n" for i
  proof -
    consider "unat i div 64 < n div 64" | "unat i div 64 = n div 64" | "n div 64 < unat i div 64"
      by linarith
    then show ?thesis
    proof cases
      case 1
      then have "mask_word (mask_full n) (unat i div 64) = - 1"
        by (simp add: mask_word_in mask_full_eq nth_append)
      moreover have "unat i < n" using 1 by (meson div_le_mono leD le_less_linear)
      ultimately show ?thesis by (simp add: mask_allows_iff)
    next
      case 2
      then have w: "mask_word (mask_full n) (unat i div 64) =
          (if n mod 64 = 0 then 0 else 2 ^ (n mod 64) - 1)"
        by (simp add: mask_word_def nth_opt_def mask_full_eq nth_append)
      have "unat i < n \<longleftrightarrow> unat i mod 64 < n mod 64"
        using 2 by (metis div_mult_mod_eq add_less_cancel_left)
      then show ?thesis by (auto simp: mask_allows_iff w bit_mask_iff simp flip: mask_eq_exp_minus_1)
    next
      case 3
      then have "mask_word (mask_full n) (unat i div 64) = 0"
        by (intro mask_word_out) (simp add: mask_full_eq)
      moreover have "\<not> unat i < n" using 3 by (meson div_le_mono leD less_or_eq_imp_le)
      ultimately show ?thesis by (simp add: mask_allows_iff)
    qed
  qed
  then show ?thesis by (simp add: mask_set_def)
qed

section \<open>Capabilities\<close>

datatype cap_target = TFlow u64 | TNativeTable | TScheduler

fun target_flow_id :: "cap_target \<Rightarrow> u64 option" where
  "target_flow_id (TFlow fid) = Some fid"
| "target_flow_id TNativeTable = None"
| "target_flow_id TScheduler = None"

record cap =
  c_target :: cap_target
  c_rights :: cap_rights
  c_native_mask :: "native_mask option"
  c_epoch :: u64

text \<open>A \<open>RevocationCell\<close> is its current epoch; \<open>fetch_add\<close> wraps.\<close>

type_synonym revocation_cell = u64

definition cell_new :: revocation_cell where
  "cell_new = 0"

definition cell_revoke :: "revocation_cell \<Rightarrow> revocation_cell" where
  "cell_revoke cell = cell + 1"

definition cap_root :: "cap_target \<Rightarrow> cap_rights \<Rightarrow> native_mask option \<Rightarrow> revocation_cell \<Rightarrow> cap" where
  "cap_root target rights native_mask cell =
     \<lparr>c_target = target, c_rights = rights, c_native_mask = native_mask, c_epoch = cell\<rparr>"

definition cap_is_valid :: "cap \<Rightarrow> revocation_cell \<Rightarrow> bool" where
  "cap_is_valid c cell = (c_epoch c = cell)"

definition cap_attenuate :: "cap \<Rightarrow> cap_rights \<Rightarrow> native_mask option \<Rightarrow> cap" where
  "cap_attenuate c want_rights want_native =
     \<lparr>c_target = c_target c,
      c_rights = rights_intersect (c_rights c) want_rights,
      c_native_mask =
        (case (c_native_mask c, want_native) of
           (Some cur, Some req) \<Rightarrow> Some (mask_intersect cur req)
         | (Some cur, None) \<Rightarrow> Some cur
         | (None, _) \<Rightarrow> None),
      c_epoch = c_epoch c\<rparr>"

datatype delegate_error = SourceRevoked | SourceLacksNative

definition exec_delegate ::
  "cap \<Rightarrow> revocation_cell \<Rightarrow> cap_rights \<Rightarrow> native_mask option \<Rightarrow> delegate_error + cap" where
  "exec_delegate src src_cell want_rights want_native =
     (if \<not> cap_is_valid src src_cell then Inl SourceRevoked
      else if want_native \<noteq> None \<and> \<not> contains (c_rights src) NATIVE then Inl SourceLacksNative
      else Inr (cap_attenuate src want_rights want_native))"

text \<open>The native indices a capability lets its holder call.\<close>

definition cap_natives :: "cap \<Rightarrow> native_idx set" where
  "cap_natives c = (case c_native_mask c of None \<Rightarrow> {} | Some m \<Rightarrow> mask_set m)"

text \<open>\<open>cap_le c d\<close>: \<open>c\<close> carries no authority that \<open>d\<close> lacks.\<close>

definition cap_le :: "cap \<Rightarrow> cap \<Rightarrow> bool" where
  "cap_le c d \<longleftrightarrow> c_target c = c_target d \<and> is_subset_of (c_rights c) (c_rights d)
     \<and> cap_natives c \<subseteq> cap_natives d \<and> c_epoch c = c_epoch d"

section \<open>The attenuation contract\<close>

locale attenuable =
  fixes le :: "'a \<Rightarrow> 'a \<Rightarrow> bool"
    and narrow :: "'a \<Rightarrow> 'w \<Rightarrow> 'a"
  assumes le_refl: "le a a"
    and le_trans: "le a b \<Longrightarrow> le b c \<Longrightarrow> le a c"
    and narrow_le: "le (narrow a w) a"
begin

lemma chain_le: "le (foldl narrow a ws) a"
proof (induction ws rule: rev_induct)
  case Nil
  show ?case by (simp add: le_refl)
next
  case (snoc w ws)
  then show ?case using le_trans [OF narrow_le snoc] by simp
qed

lemma chain_prefix_le: "le (foldl narrow a (us @ vs)) (foldl narrow a us)"
  by (simp add: chain_le)

lemma narrow_below: "le a b \<Longrightarrow> le (narrow a w) b"
  using narrow_le le_trans by blast

end

interpretation rights_att: attenuable is_subset_of rights_intersect
  by unfold_locales (auto simp: is_subset_of_iff_subset rights_set_intersect)

lemma cap_attenuate_le: "cap_le (cap_attenuate c r m) c"
proof -
  have "cap_natives (cap_attenuate c r m) \<subseteq> cap_natives c"
    by (auto simp: cap_natives_def cap_attenuate_def mask_set_intersect split: option.splits)
  then show ?thesis
    by (simp add: cap_le_def cap_attenuate_def rights_att.narrow_le)
qed

interpretation cap_att: attenuable cap_le "\<lambda>c (r, m). cap_attenuate c r m"
proof unfold_locales
  show "cap_le a a" for a by (simp add: cap_le_def rights_att.le_refl)
  show "cap_le a b \<Longrightarrow> cap_le b c \<Longrightarrow> cap_le a c" for a b c
    by (auto simp: cap_le_def intro: rights_att.le_trans)
  show "cap_le (case w of (r, m) \<Rightarrow> cap_attenuate a r m) a" for a w
    by (cases w) (simp add: cap_attenuate_le)
qed

lemma exec_delegate_le: "exec_delegate src cell r m = Inr c \<Longrightarrow> cap_le c src"
  by (auto simp: exec_delegate_def cap_attenuate_le split: if_splits)

lemma exec_delegate_valid: "exec_delegate src cell r m = Inr c \<Longrightarrow> cap_is_valid c cell"
  by (auto simp: exec_delegate_def cap_is_valid_def cap_attenuate_def split: if_splits)

section \<open>Revocation\<close>

lemma cell_revoke_iter: "(cell_revoke ^^ k) cell = cell + word_of_nat k"
  by (induction k) (simp_all add: cell_revoke_def algebra_simps)

lemma revoked_iff:
  "cap_is_valid c ((cell_revoke ^^ k) (c_epoch c)) \<longleftrightarrow> 2 ^ 64 dvd k"
proof -
  have "c_epoch c = c_epoch c + word_of_nat k \<longleftrightarrow> word_of_nat k = (0 :: u64)" by simp
  also have "\<dots> \<longleftrightarrow> 2 ^ 64 dvd k" by (simp add: word_of_nat_eq_0_iff)
  finally show ?thesis by (simp add: cap_is_valid_def cell_revoke_iter)
qed

lemma attenuate_valid_iff [simp]: "cap_is_valid (cap_attenuate c r m) cell \<longleftrightarrow> cap_is_valid c cell"
  by (simp add: cap_is_valid_def cap_attenuate_def)

section \<open>Properties\<close>

text \<open>A chain of attenuations only loses authority: whatever rights and native masks are asked for along
  the way, the last capability names the same target and epoch, and its rights and callable natives are subsets
  of the first one's (and of every intermediate one's).\<close>

theorem attenuation_chain_never_escalates:
  "cap_le (foldl (\<lambda>c (r, m). cap_attenuate c r m) c (us @ vs)) (foldl (\<lambda>c (r, m). cap_attenuate c r m) c us) \<and>
   cap_le (foldl (\<lambda>c (r, m). cap_attenuate c r m) c us) c"
  using cap_att.chain_prefix_le cap_att.chain_le by blast

text \<open>The native bitmap refines a set of indices: building it from a list, the full and the empty mask and the
  intersection are the set operations, with indices outside the table dropped.\<close>

theorem native_mask_refines_sets:
  "mask_set (mask_from_indices n idxs) = {i \<in> set idxs. unat i < n} \<and>
   mask_set (mask_full n) = {i. unat i < n} \<and> mask_set (mask_empty n) = {} \<and>
   mask_set (mask_intersect a b) = mask_set a \<inter> mask_set b"
  by (simp add: mask_set_from_indices mask_set_full mask_set_empty mask_set_intersect)

text \<open>Revoking a flow kills its capabilities and everything attenuated from them: after \<open>k\<close> revocations
  of the cell a capability was minted from, it and any capability attenuated from it are valid only if the 64-bit epoch
  has wrapped all the way round.\<close>

theorem revocation_kills_derived:
  "cap_is_valid (foldl (\<lambda>c (r, m). cap_attenuate c r m) (cap_root t r nm cell) ws) ((cell_revoke ^^ k) cell)
     \<longleftrightarrow> 2 ^ 64 dvd k"
proof -
  have "c_epoch (foldl (\<lambda>c (r, m). cap_attenuate c r m) (cap_root t r nm cell) ws) = cell"
    using cap_att.chain_le [of "cap_root t r nm cell" ws] by (simp add: cap_le_def cap_root_def)
  then show ?thesis using revoked_iff by metis
qed

end
