(* ===== verification/BF_Quota.thy ===== *)
theory BF_Quota
  imports BF_Float64
begin

text \<open>
  \<open>scheduler/quota.rs\<close>: per-flow budgets. The atomics of a \<open>FlowQuota\<close> are fields of a record and
  every operation is a state transformer; the clock readings of the token bucket are arguments in
  nanoseconds, and a poisoned lock is a flag of the bucket. The second half replays the two
  multi-step atomics (\<open>charge_cpu\<close>'s fetch-and-restore, \<open>alloc\<close>'s compare-and-swap loop) as step
  relations over any number of concurrent callers.
\<close>

record quota_config =
  qc_cpu_budget :: i64
  qc_mem_limit :: usize
  qc_spawn_burst :: i64
  qc_spawn_per_sec :: i64
  qc_send_burst :: i64
  qc_send_per_sec :: i64

definition quota_permissive :: quota_config where
  "quota_permissive = \<lparr>qc_cpu_budget = 1000000000, qc_mem_limit = 64 * 1024 * 1024,
     qc_spawn_burst = 10000, qc_spawn_per_sec = 10000, qc_send_burst = 50000,
     qc_send_per_sec = 50000\<rparr>"

definition quota_sandbox :: quota_config where
  "quota_sandbox = \<lparr>qc_cpu_budget = 50000, qc_mem_limit = 16 * 1024 * 1024,
     qc_spawn_burst = 32, qc_spawn_per_sec = 32, qc_send_burst = 256, qc_send_per_sec = 64\<rparr>"

definition quota_default :: quota_config where
  "quota_default = quota_permissive"

section \<open>Token buckets\<close>

record token_bucket =
  tb_capacity :: i64
  tb_tokens :: i64
  tb_refill_per_sec :: i64
  tb_last_refill :: nat
  tb_poisoned :: bool

definition bucket_new :: "i64 \<Rightarrow> i64 \<Rightarrow> nat \<Rightarrow> token_bucket" where
  "bucket_new capacity refill now = \<lparr>tb_capacity = capacity, tb_tokens = capacity,
     tb_refill_per_sec = refill, tb_last_refill = now, tb_poisoned = False\<rparr>"

text \<open>\<open>Duration::as_secs_f64\<close> on a duration in nanoseconds.\<close>

definition as_secs_f64 :: "nat \<Rightarrow> f64" where
  "as_secs_f64 ns =
     f64_add (f64_round False (ns div 1000000000) 0 False)
       (f64_div (f64_round False (ns mod 1000000000) 0 False) (f64_round False 1000000000 0 False))"

definition refill_amount :: "nat \<Rightarrow> i64 \<Rightarrow> i64" where
  "refill_amount elapsed per_sec = f64_to_i64 (f64_mul (as_secs_f64 elapsed) (i64_to_f64 per_sec))"

text \<open>
  \<open>now\<close> is the reading behind \<open>last.elapsed()\<close> (which saturates at zero), \<open>now'\<close> the one stored.
  \<open>None\<close> is the poisoned lock.
\<close>

definition bucket_refill :: "token_bucket \<Rightarrow> nat \<Rightarrow> nat \<Rightarrow> token_bucket option" where
  "bucket_refill tb now now' =
     (if tb_poisoned tb then None
      else
        let elapsed = now - tb_last_refill tb in
        if 50000000 \<le> elapsed then
          let add = refill_amount elapsed (tb_refill_per_sec tb) in
          if 0 < sint add then
            let cur = tb_tokens tb; s = cur + add;
                new = (if sint s \<le> sint (tb_capacity tb) then s else tb_capacity tb)
            in Some (tb\<lparr>tb_tokens := new, tb_last_refill := now'\<rparr>)
          else Some tb
        else Some tb)"

definition try_consume :: "token_bucket \<Rightarrow> nat \<Rightarrow> nat \<Rightarrow> bool \<times> token_bucket" where
  "try_consume tb now now' =
     (case bucket_refill tb now now' of
        None \<Rightarrow> (False, tb)
      | Some tb' \<Rightarrow>
          let cur = tb_tokens tb' in
          if sint cur \<le> 0 then (False, tb') else (True, tb'\<lparr>tb_tokens := cur - 1\<rparr>))"

definition bucket_credit :: "token_bucket \<Rightarrow> i64 \<Rightarrow> token_bucket" where
  "bucket_credit tb extra =
     (if sint extra \<le> 0 then tb else tb\<lparr>tb_tokens := tb_tokens tb + extra\<rparr>)"

section \<open>Flow quotas\<close>

datatype quota_error =
    CpuExhausted
  | MemoryExhausted usize usize
  | SpawnRateExceeded
  | SendRateExceeded

record flow_quota =
  fq_cpu_budget :: i64
  fq_mem_limit :: usize
  fq_mem_used :: usize
  fq_spawn_bucket :: token_bucket
  fq_send_bucket :: token_bucket

definition quota_new :: "i64 \<Rightarrow> usize \<Rightarrow> i64 \<Rightarrow> i64 \<Rightarrow> i64 \<Rightarrow> i64 \<Rightarrow> nat \<Rightarrow> flow_quota" where
  "quota_new cpu_budget mem_limit spawn_burst spawn_per_sec send_burst send_per_sec now =
     \<lparr>fq_cpu_budget = cpu_budget, fq_mem_limit = mem_limit, fq_mem_used = 0,
      fq_spawn_bucket = bucket_new spawn_burst spawn_per_sec now,
      fq_send_bucket = bucket_new send_burst send_per_sec now\<rparr>"

definition quota_from_config :: "quota_config \<Rightarrow> nat \<Rightarrow> flow_quota" where
  "quota_from_config cfg now =
     quota_new (qc_cpu_budget cfg) (qc_mem_limit cfg) (qc_spawn_burst cfg) (qc_spawn_per_sec cfg)
       (qc_send_burst cfg) (qc_send_per_sec cfg) now"

definition remaining_cpu :: "flow_quota \<Rightarrow> i64" where
  "remaining_cpu q = (if sint (fq_cpu_budget q) < 0 then 0 else fq_cpu_budget q)"

definition charge_cpu :: "flow_quota \<Rightarrow> i64 \<Rightarrow> (quota_error + unit) \<times> flow_quota" where
  "charge_cpu q cost =
     (let old = fq_cpu_budget q;
          q1 = q\<lparr>fq_cpu_budget := old - cost\<rparr>;
          remaining = old - cost
      in if sint remaining < 0
         then (Inl CpuExhausted, q1\<lparr>fq_cpu_budget := fq_cpu_budget q1 + cost\<rparr>)
         else (Inr (), q1))"

definition quota_alloc :: "flow_quota \<Rightarrow> usize \<Rightarrow> (quota_error + unit) \<times> flow_quota" where
  "quota_alloc q bytes =
     (let cur = fq_mem_used q; nxt = usize_sat_add cur bytes; limit = fq_mem_limit q
      in if limit < nxt then (Inl (MemoryExhausted bytes limit), q)
         else (Inr (), q\<lparr>fq_mem_used := nxt\<rparr>))"

definition quota_free :: "flow_quota \<Rightarrow> usize \<Rightarrow> flow_quota" where
  "quota_free q bytes = q\<lparr>fq_mem_used := usize_sat_sub (fq_mem_used q) bytes\<rparr>"

definition check_spawn :: "flow_quota \<Rightarrow> nat \<Rightarrow> nat \<Rightarrow> (quota_error + unit) \<times> flow_quota" where
  "check_spawn q now now' =
     (case try_consume (fq_spawn_bucket q) now now' of
        (granted, tb) \<Rightarrow>
          (if granted then Inr () else Inl SpawnRateExceeded, q\<lparr>fq_spawn_bucket := tb\<rparr>))"

definition check_send :: "flow_quota \<Rightarrow> nat \<Rightarrow> nat \<Rightarrow> (quota_error + unit) \<times> flow_quota" where
  "check_send q now now' =
     (case try_consume (fq_send_bucket q) now now' of
        (granted, tb) \<Rightarrow>
          (if granted then Inr () else Inl SendRateExceeded, q\<lparr>fq_send_bucket := tb\<rparr>))"

definition top_up_cpu :: "flow_quota \<Rightarrow> i64 \<Rightarrow> flow_quota" where
  "top_up_cpu q extra = q\<lparr>fq_cpu_budget := fq_cpu_budget q + extra\<rparr>"

definition top_up_mem :: "flow_quota \<Rightarrow> usize \<Rightarrow> flow_quota" where
  "top_up_mem q extra = q\<lparr>fq_mem_limit := (fq_mem_limit q + extra) mod 2 ^ 64\<rparr>"

definition top_up_send :: "flow_quota \<Rightarrow> i64 \<Rightarrow> flow_quota" where
  "top_up_send q extra = q\<lparr>fq_send_bucket := bucket_credit (fq_send_bucket q) extra\<rparr>"

section \<open>The quota directory\<close>

type_synonym quota_table = "u64 \<rightharpoonup> flow_quota"

definition quota_table_insert :: "quota_table \<Rightarrow> u64 \<Rightarrow> flow_quota \<Rightarrow> quota_table" where
  "quota_table_insert t fid q = t(fid \<mapsto> q)"

definition quota_table_get :: "quota_table \<Rightarrow> u64 \<Rightarrow> flow_quota option" where
  "quota_table_get t fid = t fid"

definition quota_table_remove :: "quota_table \<Rightarrow> u64 \<Rightarrow> quota_table" where
  "quota_table_remove t fid = t(fid := None)"

section \<open>Sequential behaviour\<close>

definition quota_inv :: "flow_quota \<Rightarrow> bool" where
  "quota_inv q \<longleftrightarrow> fq_mem_used q \<le> fq_mem_limit q \<and> fq_mem_limit q \<le> usize_max"

lemma quota_new_inv: "mem_limit \<le> usize_max \<Longrightarrow> quota_inv (quota_new c mem_limit sb sp nb np now)"
  by (simp add: quota_inv_def quota_new_def)

lemma quota_alloc_inv: "quota_inv q \<Longrightarrow> quota_inv (snd (quota_alloc q n))"
  by (simp add: quota_alloc_def quota_inv_def Let_def)

lemma quota_free_inv: "quota_inv q \<Longrightarrow> quota_inv (quota_free q n)"
  by (auto simp: quota_free_def quota_inv_def usize_sat_sub_def)

lemma quota_alloc_fail_unchanged: "fst (quota_alloc q n) = Inl e \<Longrightarrow> snd (quota_alloc q n) = q"
  by (simp add: quota_alloc_def Let_def split: if_splits)

lemma quota_alloc_frame:
  "fq_mem_limit (snd (quota_alloc q n)) = fq_mem_limit q"
  "fq_cpu_budget (snd (quota_alloc q n)) = fq_cpu_budget q"
  by (simp_all add: quota_alloc_def Let_def)

lemma charge_cpu_fail_unchanged: "fst (charge_cpu q cost) = Inl e \<Longrightarrow> snd (charge_cpu q cost) = q"
  by (simp add: charge_cpu_def Let_def split: if_splits)

lemma sint_sub_no_wrap:
  fixes a b :: i64
  assumes "- (2 ^ 63) \<le> sint a - sint b" and "sint a - sint b < 2 ^ 63"
  shows "sint (a - b) = sint a - sint b"
  using assms by (simp add: sint_word_diff signed_take_bit_int_eq_self)

lemma charge_cpu_ok_iff:
  assumes "0 \<le> sint cost" and "0 \<le> sint (fq_cpu_budget q)"
  shows "fst (charge_cpu q cost) = Inr () \<longleftrightarrow> sint cost \<le> sint (fq_cpu_budget q)"
proof -
  have "sint (fq_cpu_budget q) < 2 ^ 63" "sint cost < 2 ^ 63"
    using sint_lt [of "fq_cpu_budget q"] sint_lt [of cost] by simp_all
  with assms have "sint (fq_cpu_budget q - cost) = sint (fq_cpu_budget q) - sint cost"
    by (intro sint_sub_no_wrap) linarith+
  then show ?thesis by (simp add: charge_cpu_def Let_def)
qed

lemma try_consume_capped:
  assumes "sint (tb_tokens tb) \<le> sint (tb_capacity tb)"
  shows "sint (tb_tokens (snd (try_consume tb now now'))) \<le> sint (tb_capacity tb)"
proof (cases "bucket_refill tb now now'")
  case None
  with assms show ?thesis by (simp add: try_consume_def)
next
  case (Some tb')
  have le: "sint (tb_tokens tb') \<le> sint (tb_capacity tb)"
    using Some assms by (auto simp: bucket_refill_def Let_def split: if_splits)
  have "sint (tb_tokens tb' - 1) \<le> sint (tb_tokens tb')" if "0 < sint (tb_tokens tb')"
  proof -
    have "sint (tb_tokens tb') < 2 ^ 63" using sint_lt [of "tb_tokens tb'"] by simp
    with that have "sint (tb_tokens tb' - 1) = sint (tb_tokens tb') - sint (1 :: i64)"
      by (intro sint_sub_no_wrap) simp_all
    then show ?thesis by simp
  qed
  with le Some show ?thesis by (auto simp: try_consume_def Let_def)
qed

lemma try_consume_poisoned: "tb_poisoned tb \<Longrightarrow> try_consume tb now now' = (False, tb)"
  by (simp add: try_consume_def bucket_refill_def)

section \<open>Concurrent CPU charges\<close>

text \<open>
  \<open>charge_cpu\<close> is a \<open>fetch_sub\<close> followed, when the result is negative, by a \<open>fetch_add\<close>. Each is
  one atomic step; in between, other callers run. \<open>cc_owing t\<close> is the amount thread \<open>t\<close> has
  subtracted and will restore; \<open>cc_granted\<close> is the sum of the charges that returned \<open>Ok\<close>. The
  budget is an \<open>int\<close> here: the steps are those of runs whose counter stays inside \<open>i64\<close>.
\<close>

record cpu_race =
  cc_budget :: int
  cc_owing :: "nat \<Rightarrow> int"
  cc_granted :: int

inductive cpu_step :: "cpu_race \<Rightarrow> cpu_race \<Rightarrow> bool" where
  charge_ok: "cc_owing s t = 0 \<Longrightarrow> 0 \<le> cost \<Longrightarrow> 0 \<le> cc_budget s - cost \<Longrightarrow>
     cpu_step s (s\<lparr>cc_budget := cc_budget s - cost, cc_granted := cc_granted s + cost\<rparr>)"
| charge_overdraw: "cc_owing s t = 0 \<Longrightarrow> 0 \<le> cost \<Longrightarrow> cc_budget s - cost < 0 \<Longrightarrow>
     cpu_step s (s\<lparr>cc_budget := cc_budget s - cost, cc_owing := (cc_owing s)(t := cost)\<rparr>)"
| restore: "cc_owing s t = owed \<Longrightarrow>
     cpu_step s (s\<lparr>cc_budget := cc_budget s + owed, cc_owing := (cc_owing s)(t := 0)\<rparr>)"

inductive cpu_reach :: "int \<Rightarrow> cpu_race \<Rightarrow> bool" for b where
  init: "cpu_reach b \<lparr>cc_budget = b, cc_owing = (\<lambda>_. 0), cc_granted = 0\<rparr>"
| step: "cpu_reach b s \<Longrightarrow> cpu_step s s' \<Longrightarrow> cpu_reach b s'"

definition owing_sum :: "(nat \<Rightarrow> int) \<Rightarrow> int" where
  "owing_sum f = (\<Sum>t | f t \<noteq> 0. f t)"

lemma owing_sum_upd:
  assumes "finite {t. f t \<noteq> 0}"
  shows "owing_sum (f(t := x)) = owing_sum f - f t + x"
proof -
  let ?A = "insert t {t. f t \<noteq> 0}"
  have fin: "finite ?A" using assms by simp
  have "owing_sum (f(t := x)) = sum (f(t := x)) ?A"
    unfolding owing_sum_def by (rule sum.mono_neutral_left [OF fin]) auto
  also have "\<dots> = x + sum f (?A - {t})"
    using fin by (simp add: sum.remove [of _ t] cong: sum.cong_simp)
  also have "sum f (?A - {t}) = sum f ?A - f t"
    using sum.remove [OF fin, of t f] by auto
  also have "sum f ?A = owing_sum f"
    unfolding owing_sum_def by (rule sum.mono_neutral_right [OF fin]) auto
  finally show ?thesis by (simp add: fun_upd_def)
qed

definition cpu_race_inv :: "int \<Rightarrow> cpu_race \<Rightarrow> bool" where
  "cpu_race_inv b s \<longleftrightarrow>
     finite {t. cc_owing s t \<noteq> 0} \<and> (\<forall>t. 0 \<le> cc_owing s t) \<and>
     cc_budget s + cc_granted s + owing_sum (cc_owing s) = b \<and> cc_granted s \<le> max b 0"

lemma owing_sum_nonneg: "\<forall>t. 0 \<le> f t \<Longrightarrow> 0 \<le> owing_sum f"
  by (simp add: owing_sum_def sum_nonneg)

lemma finite_upd: "finite {t. f t \<noteq> (0::int)} \<Longrightarrow> finite {t. (f(u := x)) t \<noteq> 0}"
  by (rule finite_subset [of _ "insert u {t. f t \<noteq> 0}"]) (auto split: if_splits)

lemma cpu_step_inv: "cpu_step s s' \<Longrightarrow> cpu_race_inv b s \<Longrightarrow> cpu_race_inv b s'"
proof (induction rule: cpu_step.induct)
  case (charge_ok s t cost)
  then have "cc_granted s + cost \<le> b"
    using owing_sum_nonneg [of "cc_owing s"] by (simp add: cpu_race_inv_def)
  with charge_ok show ?case by (simp add: cpu_race_inv_def)
next
  case (charge_overdraw s t cost)
  then show ?case
    using owing_sum_upd [of "cc_owing s" t cost] finite_upd [of "cc_owing s" t cost]
    by (simp add: cpu_race_inv_def)
next
  case (restore s t owed)
  then show ?case
    using owing_sum_upd [of "cc_owing s" t 0] finite_upd [of "cc_owing s" t 0]
    by (simp add: cpu_race_inv_def)
qed

lemma cpu_reach_inv: "cpu_reach b s \<Longrightarrow> cpu_race_inv b s"
proof (induction rule: cpu_reach.induct)
  case init
  then show ?case by (simp add: cpu_race_inv_def owing_sum_def)
next
  case (step s s')
  then show ?case by (blast intro: cpu_step_inv)
qed

section \<open>Concurrent allocation\<close>

text \<open>
  \<open>alloc\<close> and \<open>free\<close> load the counter, compute the next value and publish it with a
  compare-and-swap that fails (also spuriously) if the counter moved; \<open>top_up_mem\<close> may raise the
  limit in between. \<open>pc_alloc t\<close> holds what thread \<open>t\<close> loaded and is about to publish.
\<close>

record mem_race =
  mr_used :: nat
  mr_limit :: nat
  mr_cas :: "nat \<Rightarrow> (nat \<times> nat) option"

inductive mem_step :: "mem_race \<Rightarrow> mem_race \<Rightarrow> bool" where
  alloc_load: "usize_sat_add (mr_used s) n \<le> mr_limit s \<Longrightarrow>
     mem_step s (s\<lparr>mr_cas := (mr_cas s)(t \<mapsto> (mr_used s, usize_sat_add (mr_used s) n))\<rparr>)"
| alloc_refused: "mr_limit s < usize_sat_add (mr_used s) n \<Longrightarrow>
     mem_step s (s\<lparr>mr_cas := (mr_cas s)(t := None)\<rparr>)"
| free_load:
    "mem_step s (s\<lparr>mr_cas := (mr_cas s)(t \<mapsto> (mr_used s, usize_sat_sub (mr_used s) n))\<rparr>)"
| cas_ok: "mr_cas s t = Some (cur, nxt) \<Longrightarrow> mr_used s = cur \<Longrightarrow>
     mem_step s (s\<lparr>mr_used := nxt, mr_cas := (mr_cas s)(t := None)\<rparr>)"
| cas_fail: "mr_cas s t = Some (cur, nxt) \<Longrightarrow>
     mem_step s (s\<lparr>mr_cas := (mr_cas s)(t := None)\<rparr>)"
| raise_limit: "mem_step s (s\<lparr>mr_limit := mr_limit s + extra\<rparr>)"

inductive mem_reach :: "nat \<Rightarrow> mem_race \<Rightarrow> bool" for l where
  init: "mem_reach l \<lparr>mr_used = 0, mr_limit = l, mr_cas = Map.empty\<rparr>"
| step: "mem_reach l s \<Longrightarrow> mem_step s s' \<Longrightarrow> mem_reach l s'"

definition mem_race_inv :: "mem_race \<Rightarrow> bool" where
  "mem_race_inv s \<longleftrightarrow>
     mr_used s \<le> mr_limit s \<and>
     (\<forall>t cur nxt. mr_cas s t = Some (cur, nxt) \<longrightarrow> nxt \<le> mr_limit s)"

lemma mem_step_inv: "mem_step s s' \<Longrightarrow> mem_race_inv s \<Longrightarrow> mem_race_inv s'"
  by (induction rule: mem_step.induct)
    (auto simp: mem_race_inv_def usize_sat_sub_def split: if_splits intro: le_trans trans_le_add1)

lemma mem_reach_inv: "mem_reach l s \<Longrightarrow> mem_race_inv s"
proof (induction rule: mem_reach.induct)
  case init
  then show ?case by (simp add: mem_race_inv_def)
next
  case (step s s')
  then show ?case by (blast intro: mem_step_inv)
qed

section \<open>Properties\<close>



text \<open>However concurrent allocations, frees and limit raises interleave around the compare-and-swap, the memory
  charged to a flow never exceeds its limit.\<close>

theorem memory_never_exceeds_limit: "mem_reach l s \<Longrightarrow> mr_used s \<le> mr_limit s"
  using mem_reach_inv [of l s] by (simp add: mem_race_inv_def)

theorem memory_never_exceeds_limit_witness:
  "mem_reach 8 \<lparr>mr_used = 5, mr_limit = 8, mr_cas = Map.empty\<rparr> \<and> (5::nat) \<le> 8"
proof -
  let ?s0 = "\<lparr>mr_used = 0, mr_limit = 8, mr_cas = Map.empty\<rparr>"
  let ?s1 = "\<lparr>mr_used = 0, mr_limit = 8, mr_cas = [3 \<mapsto> (0, 5)]\<rparr>"
  let ?s2 = "\<lparr>mr_used = 5, mr_limit = 8, mr_cas = Map.empty\<rparr>"
  have "mem_step ?s0 ?s1"
    using mem_step.alloc_load [of ?s0 5 3] by (simp add: usize_sat_add_def usize_max_def)
  moreover have "mem_step ?s1 ?s2" using mem_step.cas_ok [of ?s1 3 0 5] by simp
  ultimately have "mem_reach 8 ?s2" by (blast intro: mem_reach.intros)
  then show ?thesis using memory_never_exceeds_limit by fastforce
qed

end
