(* ===== verification/BF_Native.thy ===== *)
theory BF_Native
  imports BF_Cap BF_Quota
begin

text \<open>
  \<open>vm/fault.rs\<close>, \<open>vm/native.rs\<close> and \<open>natives.rs\<close>: the faults a flow can die of, the table of host
  functions behind \<open>CallNative\<close> with its builder, the argument decoders of natives, the per-flow
  gate that decides whether a call is allowed, and the standard natives.

  A native is host code; the model takes it as a function on argument lists. The standard natives
  are translated; \<open>print\<close> is modelled up to its output, and \<open>now_ms\<close> takes the clock reading as an
  argument. Revocation cells are shared atomics, so a gate names its two cells and \<open>cells\<close> is the
  store it reads them in.
\<close>

section \<open>Rendering numbers\<close>

fun dec_digits :: "nat \<Rightarrow> string" where
  "dec_digits n =
     (if n < 10 then [char_of (48 + n)] else dec_digits (n div 10) @ [char_of (48 + n mod 10)])"

declare dec_digits.simps [simp del]

definition show_int :: "int \<Rightarrow> string" where
  "show_int i = (if i < 0 then CHR ''-'' # dec_digits (nat (- i)) else dec_digits (nat i))"

definition hex_digit :: "nat \<Rightarrow> char" where
  "hex_digit n = (if n < 10 then char_of (48 + n) else char_of (55 + n))"

definition show_hex2 :: "u8 \<Rightarrow> string" where
  "show_hex2 b = [hex_digit (unat b div 16), hex_digit (unat b mod 16)]"

section \<open>Faults\<close>

datatype fault =
    DivideByZero
  | RegisterOutOfRange u8 u8
  | RegisterIndexOverflow u8 u8
  | BadConstant u32 u32
  | BadFunction u32 u32
  | BadOpcodeByte u8
  | CallStackOverflow usize
  | TypeMismatch string string
  | BadNative u32 u32
  | NativeError string
  | NativeDenied string
  | Explicit i32
  | Invariant string
  | QuotaExceeded string

fun fault_string :: "fault \<Rightarrow> string" where
  "fault_string DivideByZero = ''division by zero''"
| "fault_string (RegisterOutOfRange reg frame_size) =
     ''register r'' @ dec_digits (unat reg) @ '' out of range (frame has ''
     @ dec_digits (unat frame_size) @ '' registers)''"
| "fault_string (BadConstant index pool_size) =
     ''constant index '' @ dec_digits (unat index) @ '' out of range (pool size ''
     @ dec_digits (unat pool_size) @ '')''"
| "fault_string (BadFunction index table_size) =
     ''function index '' @ dec_digits (unat index) @ '' out of range (table size ''
     @ dec_digits (unat table_size) @ '')''"
| "fault_string (RegisterIndexOverflow base offset) =
     ''register index r'' @ dec_digits (unat base) @ ''+'' @ dec_digits (unat offset)
     @ '' overflows the register index space (max r255)''"
| "fault_string (BadOpcodeByte b) = ''unknown opcode byte 0x'' @ show_hex2 b"
| "fault_string (CallStackOverflow depth) = ''call stack overflow at depth '' @ dec_digits depth"
| "fault_string (TypeMismatch expected got) =
     ''type mismatch: expected '' @ expected @ '', got '' @ got"
| "fault_string (BadNative index table_size) =
     ''native function index '' @ dec_digits (unat index) @ '' out of range (table size ''
     @ dec_digits (unat table_size) @ '')''"
| "fault_string (NativeError msg) = ''native function error: '' @ msg"
| "fault_string (NativeDenied msg) = msg"
| "fault_string (Explicit code) = ''explicit trap (code '' @ show_int (sint code) @ '')''"
| "fault_string (Invariant msg) = ''vm invariant broken: '' @ msg"
| "fault_string (QuotaExceeded msg) = msg"

fun quota_error_string :: "quota_error \<Rightarrow> string" where
  "quota_error_string CpuExhausted = ''flow CPU budget exhausted''"
| "quota_error_string (MemoryExhausted requested limit) =
     ''flow memory exhausted (requested '' @ dec_digits requested @ '', limit ''
     @ dec_digits limit @ '')''"
| "quota_error_string SpawnRateExceeded = ''spawn rate exceeded''"
| "quota_error_string SendRateExceeded = ''send rate exceeded''"

section \<open>The native table\<close>

type_synonym native_fn = "value list \<Rightarrow> fault + value"
type_synonym native_table = "(string \<times> native_fn) option list"

definition native_table_empty :: native_table where
  "native_table_empty = []"

definition native_get :: "native_table \<Rightarrow> u32 \<Rightarrow> native_fn option" where
  "native_get t index =
     (case nth_opt t (unat index) of Some (Some (_, f)) \<Rightarrow> Some f | _ \<Rightarrow> None)"

definition slot_named :: "string \<Rightarrow> (string \<times> native_fn) option \<Rightarrow> bool" where
  "slot_named nm slot = (case slot of Some (n, _) \<Rightarrow> n = nm | None \<Rightarrow> False)"

definition native_index_of :: "native_table \<Rightarrow> string \<Rightarrow> u32 option" where
  "native_index_of t nm = map_option word_of_nat (position (slot_named nm) t)"

definition native_names :: "native_table \<Rightarrow> string list" where
  "native_names t = map fst (List.map_filter id t)"

datatype native_table_error = DuplicateName string | SlotOccupied u32 string

definition register_at ::
  "native_table \<Rightarrow> u32 \<Rightarrow> string \<Rightarrow> native_fn \<Rightarrow> native_table_error + native_table" where
  "register_at entries index nm f =
     (if list_ex (slot_named nm) entries then Inl (DuplicateName nm)
      else
        let i = unat index;
            es = (if length entries \<le> i then entries @ replicate (i + 1 - length entries) None
                  else entries)
        in if es ! i \<noteq> None then Inl (SlotOccupied index nm) else Inr (es[i := Some (nm, f)]))"

definition register ::
  "native_table \<Rightarrow> string \<Rightarrow> native_fn \<Rightarrow> native_table_error + native_table" where
  "register entries nm f = register_at entries (word_of_nat (length entries)) nm f"

section \<open>Argument decoders\<close>

definition expect_arg :: "value list \<Rightarrow> usize \<Rightarrow> string \<Rightarrow> fault + value" where
  "expect_arg args index fn_name =
     ok_or (nth_opt args index) (NativeError (fn_name @ '': missing argument '' @ dec_digits index))"

definition expect_int :: "value list \<Rightarrow> usize \<Rightarrow> string \<Rightarrow> fault + i64" where
  "expect_int args index fn_name =
     bind_res (expect_arg args index fn_name) (\<lambda>v.
       ok_or (as_int v) (NativeError (fn_name @ '': argument '' @ dec_digits index
         @ '' is not an int'')))"

definition expect_bool :: "value list \<Rightarrow> usize \<Rightarrow> string \<Rightarrow> fault + bool" where
  "expect_bool args index fn_name =
     bind_res (expect_arg args index fn_name) (\<lambda>v.
       case v of
         VBool b \<Rightarrow> Inr b
       | VInt i \<Rightarrow> Inr (i \<noteq> 0)
       | other \<Rightarrow> Inl (NativeError (fn_name @ '': argument '' @ dec_digits index
           @ '' is not a bool/int (got '' @ type_name other @ '')'')))"

definition expect_message :: "value list \<Rightarrow> usize \<Rightarrow> string \<Rightarrow> fault + message" where
  "expect_message args index fn_name =
     bind_res (expect_arg args index fn_name) (\<lambda>v.
       ok_or (as_message v) (NativeError (fn_name @ '': argument '' @ dec_digits index
         @ '' is not a message'')))"

definition expect_u64 :: "value list \<Rightarrow> usize \<Rightarrow> string \<Rightarrow> fault + u64" where
  "expect_u64 args index fn_name =
     bind_res (expect_arg args index fn_name) (\<lambda>v.
       let err = Inl (NativeError (fn_name @ '': argument '' @ dec_digits index
             @ '' is not a non-negative int/pid (got '' @ type_name v @ '')''))
       in case v of
         VPid p \<Rightarrow> Inr p
       | VInt i \<Rightarrow> if 0 \<le> sint i then Inr i else err
       | VBool b \<Rightarrow> Inr (if b then 1 else 0)
       | _ \<Rightarrow> err)"

section \<open>The native gate\<close>

type_synonym cell_id = nat
type_synonym cell_store = "cell_id \<Rightarrow> u64"

record native_gate =
  g_has_native :: bool
  g_mask :: native_mask
  g_authority_epoch :: u64
  g_flow_cell :: cell_id
  g_native_epoch :: u64
  g_native_cell :: cell_id

text \<open>\<open>deny\<close> allocates two cells of its own, at epoch 0.\<close>

definition gate_deny :: "usize \<Rightarrow> cell_id \<Rightarrow> cell_id \<Rightarrow> native_gate" where
  "gate_deny native_count flow_cell native_cell =
     \<lparr>g_has_native = False, g_mask = mask_empty native_count, g_authority_epoch = 0,
      g_flow_cell = flow_cell, g_native_epoch = 0, g_native_cell = native_cell\<rparr>"

definition gate_from_authority ::
  "cap \<Rightarrow> cell_id \<Rightarrow> cell_id \<Rightarrow> cell_store \<Rightarrow> usize \<Rightarrow> native_gate" where
  "gate_from_authority c flow_cell native_cell cells native_count =
     \<lparr>g_has_native = contains (c_rights c) NATIVE,
      g_mask = (case c_native_mask c of Some m \<Rightarrow> m | None \<Rightarrow> mask_empty native_count),
      g_authority_epoch = c_epoch c, g_flow_cell = flow_cell,
      g_native_epoch = cells native_cell, g_native_cell = native_cell\<rparr>"

definition gate_is_live :: "cell_store \<Rightarrow> native_gate \<Rightarrow> bool" where
  "gate_is_live cells g =
     (cells (g_flow_cell g) = g_authority_epoch g \<and> cells (g_native_cell g) = g_native_epoch g)"

datatype native_call_error =
    NoNativeRight
  | IndexNotAllowlisted native_idx
  | IndexOutOfRange native_idx
  | NativeRevoked

fun native_call_error_string :: "native_call_error \<Rightarrow> string" where
  "native_call_error_string NoNativeRight = ''CALL_NATIVE: flow lacks NATIVE right''"
| "native_call_error_string (IndexNotAllowlisted idx) =
     ''CALL_NATIVE: index '' @ dec_digits (unat idx) @ '' not on allowlist''"
| "native_call_error_string (IndexOutOfRange idx) =
     ''CALL_NATIVE: index '' @ dec_digits (unat idx) @ '' out of range''"
| "native_call_error_string NativeRevoked = ''CALL_NATIVE: capability revoked''"

definition check_native_call :: "cap \<Rightarrow> native_table \<Rightarrow> native_idx \<Rightarrow> native_call_error + unit" where
  "check_native_call c t idx =
     (if length t \<le> unat idx then Inl (IndexOutOfRange idx)
      else if \<not> contains (c_rights c) NATIVE then Inl NoNativeRight
      else case c_native_mask c of
        Some m \<Rightarrow> if mask_allows m idx then Inr () else Inl (IndexNotAllowlisted idx)
      | None \<Rightarrow> Inl (IndexNotAllowlisted idx))"

definition check_native_gate ::
  "cell_store \<Rightarrow> native_gate \<Rightarrow> native_table \<Rightarrow> native_idx \<Rightarrow> native_call_error + unit" where
  "check_native_gate cells g t idx =
     (if length t \<le> unat idx then Inl (IndexOutOfRange idx)
      else if \<not> gate_is_live cells g then Inl NativeRevoked
      else if \<not> g_has_native g then Inl NoNativeRight
      else if mask_allows (g_mask g) idx then Inr () else Inl (IndexNotAllowlisted idx))"

section \<open>The standard natives\<close>

definition std_print :: native_fn where
  "std_print args = Inr VUnit"

text \<open>\<open>clock\<close>: \<open>Inl e\<close> when the system clock is before the epoch, else milliseconds.\<close>

definition std_now_ms :: "string + nat \<Rightarrow> native_fn" where
  "std_now_ms clock args =
     (case clock of
        Inl e \<Rightarrow> Inl (NativeError (''system clock error: '' @ e))
      | Inr ms \<Rightarrow>
          if ms < 2 ^ 63 then Inr (VInt (word_of_nat ms))
          else Inl (NativeError ''system clock value exceeds i64''))"

definition std_make_msg :: native_fn where
  "std_make_msg args =
     (let base = (if 4 \<le> length args then 1 else 0) in
      bind_res (expect_u64 args base ''make_msg'') (\<lambda>request_id.
      bind_res (expect_u64 args (base + 1) ''make_msg'') (\<lambda>tg.
      bind_res (expect_arg args (base + 2) ''make_msg'') (\<lambda>payload.
        if unat tg < 2 ^ 16
        then Inr (VMessage (message_new 0 request_id (ucast tg) payload))
        else Inl (NativeError (''make_msg: tag '' @ dec_digits (unat tg)
               @ '' does not fit in u16''))))))"

definition std_msg_sender :: native_fn where
  "std_msg_sender args = bind_res (expect_message args 0 ''msg_sender'') (\<lambda>m. Inr (VPid (m_sender m)))"

definition std_msg_request_id :: native_fn where
  "std_msg_request_id args =
     bind_res (expect_message args 0 ''msg_request_id'') (\<lambda>m. Inr (VInt (m_request_id m)))"

definition std_msg_tag :: native_fn where
  "std_msg_tag args = bind_res (expect_message args 0 ''msg_tag'') (\<lambda>m. Inr (VInt (ucast (m_tag m))))"

definition std_msg_payload :: native_fn where
  "std_msg_payload args = bind_res (expect_message args 0 ''msg_payload'') (\<lambda>m. Inr (m_payload m))"

definition std_msg_reply_cap :: native_fn where
  "std_msg_reply_cap args =
     bind_res (expect_message args 0 ''msg_reply_cap'') (\<lambda>m. Inr (VCap (m_reply_cap m)))"

definition std_native_built :: "string + nat \<Rightarrow> native_table_error + native_table" where
  "std_native_built clock =
     bind_res (register native_table_empty ''print'' std_print) (\<lambda>b.
     bind_res (register b ''now_ms'' (std_now_ms clock)) (\<lambda>b.
     bind_res (register b ''make_msg'' std_make_msg) (\<lambda>b.
     bind_res (register b ''msg_sender'' std_msg_sender) (\<lambda>b.
     bind_res (register b ''msg_request_id'' std_msg_request_id) (\<lambda>b.
     bind_res (register b ''msg_tag'' std_msg_tag) (\<lambda>b.
     bind_res (register b ''msg_payload'' std_msg_payload) (\<lambda>b.
       register b ''msg_reply_cap'' std_msg_reply_cap)))))))"

definition std_native_table :: "string + nat \<Rightarrow> native_table" where
  "std_native_table clock =
     (case std_native_built clock of Inr b \<Rightarrow> b | Inl _ \<Rightarrow> native_table_empty)"

definition std_native_map :: "(string \<times> u32) list" where
  "std_native_map =
     [(''print'', 0), (''now_ms'', 1), (''make_msg'', 2), (''msg_sender'', 3),
      (''msg_request_id'', 4), (''msg_tag'', 5), (''msg_payload'', 6), (''msg_reply_cap'', 7)]"

section \<open>Facts\<close>

lemma register_append:
  "\<not> list_ex (slot_named nm) es \<Longrightarrow> length es < 2 ^ 32 \<Longrightarrow> register es nm f = Inr (es @ [Some (nm, f)])"
  by (simp add: register_def register_at_def Let_def unat_of_nat take_bit_nat_eq_self list_update_append)

lemma register_at_get:
  assumes "register_at es i nm f = Inr t"
  shows "native_get t i = Some f" and "unat i < length t"
    and "j \<noteq> i \<Longrightarrow> native_get t j = native_get es j"
proof -
  let ?es = "if length es \<le> unat i then es @ replicate (unat i + 1 - length es) None else es"
  from assms have t: "t = ?es[unat i := Some (nm, f)]"
    by (auto simp: register_at_def Let_def split: if_splits)
  have len: "unat i < length ?es" by simp
  then show "unat i < length t" by (simp only: t length_list_update)
  show "native_get t i = Some f" using len by (simp add: native_get_def t del: length_append)
  assume "j \<noteq> i"
  then have "unat i \<noteq> unat j" by (simp add: word_unat_eq_iff)
  then have "nth_opt t (unat j) = nth_opt ?es (unat j)"
    by (simp add: t nth_opt_def del: length_append)
  then have "native_get t j = native_get ?es j" by (simp add: native_get_def)
  also have "\<dots> = native_get es j"
  proof (cases "unat j < length es")
    case True
    then have "nth_opt ?es (unat j) = nth_opt es (unat j)" by (simp add: nth_opt_def nth_append)
    then show ?thesis by (simp add: native_get_def)
  next
    case False
    then have "nth_opt ?es (unat j) = None \<or> nth_opt ?es (unat j) = Some None"
      by (auto simp: nth_opt_def nth_append)
    with False show ?thesis by (auto simp: native_get_def)
  qed
  finally show "native_get t j = native_get es j" .
qed

lemma std_native_table_eq:
  "std_native_table clock =
     [Some (''print'', std_print), Some (''now_ms'', std_now_ms clock),
      Some (''make_msg'', std_make_msg), Some (''msg_sender'', std_msg_sender),
      Some (''msg_request_id'', std_msg_request_id), Some (''msg_tag'', std_msg_tag),
      Some (''msg_payload'', std_msg_payload), Some (''msg_reply_cap'', std_msg_reply_cap)]"
  by (simp add: std_native_table_def std_native_built_def register_append native_table_empty_def
      slot_named_def)

lemma check_native_gate_ok_iff:
  "check_native_gate cells g t idx = Inr () \<longleftrightarrow>
     unat idx < length t \<and> gate_is_live cells g \<and> g_has_native g \<and> idx \<in> mask_set (g_mask g)"
  by (auto simp: check_native_gate_def mask_set_def)

lemma expect_u64_cap_rejected: "\<not> is_ok (expect_u64 [VCap c] 0 fn_name)"
  by (simp add: expect_u64_def expect_arg_def Let_def)

end
