(* ===== verification/BF_Machine.thy ===== *)
theory BF_Machine
  imports BF_Native BF_Verify "HOL-Library.Signed_Division"
begin

text \<open>
  \<open>vm/frame.rs\<close>, \<open>vm/result.rs\<close> and \<open>vm/machine.rs\<close>: the register interpreter. A \<open>Vm\<close> is a record;
  \<open>exec_instr\<close> is one arm of the \<open>match instr.op\<close> in \<open>Vm::run\<close> per opcode, \<open>vm_step\<close> one turn of its
  loop and \<open>vm_run\<close> the loop over the instruction budget. The frame stack is kept top first
  (\<open>frames.last()\<close> is the head). An operation that returns \<open>Result\<close> and mutates the machine returns
  both, since the mutations before an error stay.

  Integer arithmetic is the release build's (wrapping, also for the unary minus of \<open>Neg\<close>). The
  revocation cells a native call reads are shared with other threads: \<open>cells k\<close> is the store as the
  \<open>k\<close>-th instruction sees it. Durations are milliseconds.
\<close>

section \<open>Frames and results\<close>

record frame =
  fr_function :: u32
  fr_pc :: usize
  fr_registers :: "value list"
  fr_dest_reg :: "u8 option"

definition frame_new :: "u32 \<Rightarrow> u8 \<Rightarrow> u8 option \<Rightarrow> frame" where
  "frame_new function num_registers dest_reg =
     \<lparr>fr_function = function, fr_pc = 0, fr_registers = replicate (unat num_registers) VUnit,
      fr_dest_reg = dest_reg\<rparr>"

datatype vm_result =
    VmComplete "value"
  | VmYield
  | VmSleep u64
  | VmSpawn u32 "value list" u8 cap_rights
  | VmSelfPid u8
  | VmSend cap_id "value"
  | VmReceive u8 "u64 option" "u16 option" "u64 option"
  | VmAsk u8 cap_id "value" "u64 option"
  | VmMonitor u8 cap_id
  | VmDemonitor u8
  | VmLink u8 cap_id
  | VmUnlink u8
  | VmRegisterName nat bytes
  | VmWhereis u8 nat bytes
  | VmDelegate u8 cap_id cap_rights "cap_id option"
  | VmTrap fault

definition MAX_CALL_DEPTH :: nat where
  "MAX_CALL_DEPTH = 4096"

record vm =
  vm_chunk :: chunk
  vm_natives :: native_table
  vm_native_gate :: native_gate
  vm_frames :: "frame list"
  vm_instructions_executed :: u64
  vm_next_request_id :: u64
  vm_quota :: "flow_quota option"

type_synonym 'a vm_res = "(fault + 'a) \<times> vm"

section \<open>Entering a function\<close>

fun load_args :: "u8 \<Rightarrow> nat \<Rightarrow> value list \<Rightarrow> value list \<Rightarrow> fault + value list" where
  "load_args frame_size i [] regs = Inr regs"
| "load_args frame_size i (a # as) regs =
     (if i < length regs then load_args frame_size (Suc i) as (regs[i := a])
      else Inl (RegisterOutOfRange (word_of_nat i) frame_size))"

definition vm_with_native_gate ::
  "chunk \<Rightarrow> native_table \<Rightarrow> native_gate \<Rightarrow> u32 \<Rightarrow> value list \<Rightarrow> fault + vm" where
  "vm_with_native_gate ch natives gate function args =
     bind_res (ok_or (chunk_function ch function)
         (BadFunction function (word_of_nat (length (ch_functions ch))))) (\<lambda>def.
     let fr = (frame_new function (f_num_registers def) None)\<lparr>fr_pc := unat (f_entry def)\<rparr> in
     bind_res (load_args (f_num_registers def) 0 (take (unat (f_arity def)) args)
         (fr_registers fr)) (\<lambda>regs.
     Inr \<lparr>vm_chunk = ch, vm_natives = natives, vm_native_gate = gate,
          vm_frames = [fr\<lparr>fr_registers := regs\<rparr>], vm_instructions_executed = 0,
          vm_next_request_id = 1, vm_quota = None\<rparr>))"

definition vm_new :: "chunk \<Rightarrow> native_table \<Rightarrow> u32 \<Rightarrow> value list \<Rightarrow> cell_id \<Rightarrow> cell_id \<Rightarrow> fault + vm" where
  "vm_new ch natives function args flow_cell native_cell =
     vm_with_native_gate ch natives (gate_deny (length natives) flow_cell native_cell) function args"

section \<open>Quota charges\<close>

definition charge_heap_value :: "flow_quota \<Rightarrow> value \<Rightarrow> (fault + unit) \<times> flow_quota" where
  "charge_heap_value q v =
     (case (case v of VStr _ s \<Rightarrow> Some (length s) | VBytes _ b \<Rightarrow> Some (length b) | _ \<Rightarrow> None) of
        None \<Rightarrow> (Inr (), q)
      | Some bytes \<Rightarrow>
          if bytes = 0 then (Inr (), q)
          else case quota_alloc q bytes of
            (Inr u, q') \<Rightarrow> (Inr u, q')
          | (Inl e, q') \<Rightarrow> (Inl (QuotaExceeded (quota_error_string e)), q'))"

fun charge_all :: "flow_quota \<Rightarrow> value list \<Rightarrow> (fault + unit) \<times> flow_quota" where
  "charge_all q [] = (Inr (), q)"
| "charge_all q (v # vs) =
     (case charge_heap_value q v of
        (Inl f, q') \<Rightarrow> (Inl f, q')
      | (Inr _, q') \<Rightarrow> charge_all q' vs)"

text \<open>Frames are charged bottom first; a failure leaves the earlier charges on the quota.\<close>

definition set_quota :: "vm \<Rightarrow> flow_quota \<Rightarrow> (fault + unit) \<times> flow_quota \<times> vm" where
  "set_quota m q =
     (case charge_all q (concat (map fr_registers (rev (vm_frames m)))) of
        (Inl f, q') \<Rightarrow> (Inl f, q', m)
      | (Inr _, q') \<Rightarrow> (Inr (), q', m\<lparr>vm_quota := Some q'\<rparr>))"

section \<open>Registers\<close>

function fresh_request_id :: "vm \<Rightarrow> u64 \<times> vm" where
  "fresh_request_id m =
     (let rid = vm_next_request_id m;
          m' = m\<lparr>vm_next_request_id := u64_sat_add (vm_next_request_id m) 1\<rparr>
      in if rid = 0 then fresh_request_id m' else (rid, m'))"
  by pat_completeness auto
termination
  by (relation "measure (\<lambda>m. if vm_next_request_id m = 0 then 1 else 0)")
    (simp_all add: u64_sat_add_def)

declare fresh_request_id.simps [simp del]

definition current_function :: "vm \<Rightarrow> u32" where
  "current_function m = (case vm_frames m of [] \<Rightarrow> 0 | fr # _ \<Rightarrow> fr_function fr)"

definition current_pc :: "vm \<Rightarrow> usize option" where
  "current_pc m = (case vm_frames m of [] \<Rightarrow> None | fr # _ \<Rightarrow> Some (fr_pc fr))"

definition current_num_registers :: "vm \<Rightarrow> u8 option" where
  "current_num_registers m =
     (case vm_frames m of [] \<Rightarrow> None | fr # _ \<Rightarrow> Some (word_of_nat (length (fr_registers fr))))"

definition set_pc :: "vm \<Rightarrow> usize \<Rightarrow> vm" where
  "set_pc m pc =
     (case vm_frames m of [] \<Rightarrow> m | fr # frs \<Rightarrow> m\<lparr>vm_frames := fr\<lparr>fr_pc := pc\<rparr> # frs\<rparr>)"

definition empty_stack :: fault where
  "empty_stack = Invariant ''empty frame stack while running''"

definition get_reg :: "vm \<Rightarrow> u8 \<Rightarrow> fault + value" where
  "get_reg m reg =
     (case vm_frames m of
        [] \<Rightarrow> Inl empty_stack
      | fr # _ \<Rightarrow>
          ok_or (nth_opt (fr_registers fr) (unat reg))
            (RegisterOutOfRange reg (word_of_nat (length (fr_registers fr)))))"

definition peek_reg :: "vm \<Rightarrow> u8 \<Rightarrow> value option" where
  "peek_reg m reg =
     (case vm_frames m of [] \<Rightarrow> None | fr # _ \<Rightarrow> nth_opt (fr_registers fr) (unat reg))"

text \<open>\<open>Arc::ptr_eq\<close>: the register already holds this very allocation.\<close>

definition same_arc :: "value \<Rightarrow> value option \<Rightarrow> bool" where
  "same_arc v old =
     (case (v, old) of
        (VStr a _, Some (VStr a' _)) \<Rightarrow> a = a'
      | (VBytes a _, Some (VBytes a' _)) \<Rightarrow> a = a'
      | _ \<Rightarrow> False)"

definition charge_register_store :: "vm \<Rightarrow> u8 \<Rightarrow> value \<Rightarrow> unit vm_res" where
  "charge_register_store m reg v =
     (case vm_quota m of
        None \<Rightarrow> (Inr (), m)
      | Some q \<Rightarrow>
          if same_arc v (peek_reg m reg) then (Inr (), m)
          else case charge_heap_value q v of (r, q') \<Rightarrow> (r, m\<lparr>vm_quota := Some q'\<rparr>))"

definition set_reg :: "vm \<Rightarrow> u8 \<Rightarrow> value \<Rightarrow> unit vm_res" where
  "set_reg m reg v =
     (case charge_register_store m reg v of
        (Inl f, m1) \<Rightarrow> (Inl f, m1)
      | (Inr _, m1) \<Rightarrow>
          (case vm_frames m1 of
             [] \<Rightarrow> (Inl empty_stack, m1)
           | fr # frs \<Rightarrow>
               if unat reg < length (fr_registers fr)
               then (Inr (), m1\<lparr>vm_frames :=
                       fr\<lparr>fr_registers := (fr_registers fr)[unat reg := v]\<rparr> # frs\<rparr>)
               else (Inl (RegisterOutOfRange reg (word_of_nat (length (fr_registers fr)))), m1)))"

definition resume_with :: "vm \<Rightarrow> u8 \<Rightarrow> value \<Rightarrow> unit vm_res" where
  "resume_with m dest_reg v = set_reg m dest_reg v"

definition fetch :: "vm \<Rightarrow> instruction option vm_res" where
  "fetch m =
     (case vm_frames m of
        [] \<Rightarrow> (Inl empty_stack, m)
      | fr # frs \<Rightarrow>
          (case nth_opt (ch_code (vm_chunk m)) (fr_pc fr) of
             None \<Rightarrow> (Inr None, m)
           | Some instr \<Rightarrow> (Inr (Some instr), m\<lparr>vm_frames := fr\<lparr>fr_pc := fr_pc fr + 1\<rparr> # frs\<rparr>)))"

definition reg_at :: "u8 \<Rightarrow> nat \<Rightarrow> fault + u8" where
  "reg_at base offset =
     (if unat base + offset < 256 then Inr (word_of_nat (unat base + offset))
      else Inl (RegisterIndexOverflow base (if offset < 256 then word_of_nat offset else 255)))"

text \<open>\<open>for i in 0..argc { args.push(get_reg(reg_at(base, i + shift)?)?) }\<close>\<close>

fun gather :: "vm \<Rightarrow> u8 \<Rightarrow> nat list \<Rightarrow> fault + value list" where
  "gather m base [] = Inr []"
| "gather m base (off # offs) =
     bind_res (reg_at base off) (\<lambda>reg. bind_res (get_reg m reg) (\<lambda>v.
     bind_res (gather m base offs) (\<lambda>vs. Inr (v # vs))))"

section \<open>Arithmetic\<close>

definition as_f64 :: "value \<Rightarrow> fault + f64" where
  "as_f64 v =
     (case v of
        VInt i \<Rightarrow> Inr (i64_to_f64 i)
      | VFloat x \<Rightarrow> Inr x
      | other \<Rightarrow> Inl (TypeMismatch ''int or float'' (type_name other)))"

definition wrapping_div :: "i64 \<Rightarrow> i64 \<Rightarrow> i64" where
  "wrapping_div x y = word_of_int (sint x sdiv sint y)"

definition wrapping_rem :: "i64 \<Rightarrow> i64 \<Rightarrow> i64" where
  "wrapping_rem x y = word_of_int (sint x smod sint y)"

definition float_op :: "(f64 \<Rightarrow> f64 \<Rightarrow> value) \<Rightarrow> value \<Rightarrow> value \<Rightarrow> fault + value" where
  "float_op f a b = bind_res (as_f64 a) (\<lambda>x. bind_res (as_f64 b) (\<lambda>y. Inr (f x y)))"

definition bad_binop :: fault where
  "bad_binop = Invariant ''numeric_binop called with a non-arithmetic opcode''"

definition binop_value :: "opcode \<Rightarrow> value \<Rightarrow> value \<Rightarrow> fault + value" where
  "binop_value op a b =
     (case op of
        Add \<Rightarrow> (case (a, b) of (VInt x, VInt y) \<Rightarrow> Inr (VInt (x + y))
                | _ \<Rightarrow> float_op (\<lambda>x y. VFloat (f64_add x y)) a b)
      | Sub \<Rightarrow> (case (a, b) of (VInt x, VInt y) \<Rightarrow> Inr (VInt (x - y))
                | _ \<Rightarrow> float_op (\<lambda>x y. VFloat (f64_sub x y)) a b)
      | Mul \<Rightarrow> (case (a, b) of (VInt x, VInt y) \<Rightarrow> Inr (VInt (x * y))
                | _ \<Rightarrow> float_op (\<lambda>x y. VFloat (f64_mul x y)) a b)
      | Div \<Rightarrow> (case (a, b) of
                  (VInt x, VInt y) \<Rightarrow>
                    if y = 0 then Inl DivideByZero else Inr (VInt (wrapping_div x y))
                | _ \<Rightarrow> bind_res (as_f64 b) (\<lambda>denom. bind_res (as_f64 a) (\<lambda>x.
                         Inr (VFloat (f64_div x denom)))))
      | Mod \<Rightarrow> (case (a, b) of
                  (VInt x, VInt y) \<Rightarrow>
                    if y = 0 then Inl DivideByZero else Inr (VInt (wrapping_rem x y))
                | _ \<Rightarrow> Inl bad_binop)
      | Eq \<Rightarrow> Inr (VBool (value_eq a b))
      | Lt \<Rightarrow> (case (a, b) of (VInt x, VInt y) \<Rightarrow> Inr (VBool (sint x < sint y))
               | _ \<Rightarrow> float_op (\<lambda>x y. VBool (f64_lt x y)) a b)
      | Le \<Rightarrow> (case (a, b) of (VInt x, VInt y) \<Rightarrow> Inr (VBool (sint x \<le> sint y))
               | _ \<Rightarrow> float_op (\<lambda>x y. VBool (f64_le x y)) a b)
      | _ \<Rightarrow> Inl bad_binop)"

definition numeric_binop :: "vm \<Rightarrow> opcode \<Rightarrow> u8 \<Rightarrow> u8 \<Rightarrow> u8 \<Rightarrow> unit vm_res" where
  "numeric_binop m op dst lhs rhs =
     (case bind_res (get_reg m lhs) (\<lambda>a. bind_res (get_reg m rhs) (binop_value op a)) of
        Inl f \<Rightarrow> (Inl f, m)
      | Inr result \<Rightarrow> set_reg m dst result)"

definition neg_value :: "value \<Rightarrow> fault + value" where
  "neg_value v =
     (case v of
        VInt x \<Rightarrow> Inr (VInt (- x))
      | VFloat x \<Rightarrow> Inr (VFloat (f64_neg x))
      | other \<Rightarrow> Inl (TypeMismatch ''int or float'' (type_name other)))"

definition tag_from_value :: "value \<Rightarrow> fault + u16" where
  "tag_from_value v =
     (case as_int v of
        Some i \<Rightarrow> if 0 \<le> sint i \<and> sint i \<le> 65535 then Inr (ucast i)
                  else Inl (TypeMismatch ''tag u16'' ''int-out-of-range'')
      | None \<Rightarrow> Inl (TypeMismatch ''int'' (type_name v)))"

definition request_id_from_value :: "value \<Rightarrow> fault + u64" where
  "request_id_from_value v =
     (case as_int v of
        Some i \<Rightarrow> if 0 \<le> sint i then Inr i
                  else Inl (TypeMismatch ''request_id u64'' ''negative-int'')
      | None \<Rightarrow> Inl (TypeMismatch ''int'' (type_name v)))"

section \<open>The dispatch loop\<close>

text \<open>An arm either goes on with the loop or returns from \<open>run\<close>.\<close>

datatype ctl = Next | Stop vm_result

text \<open>The \<open>trap!\<close> macro, on a plain result and on one that mutated the machine.\<close>

definition trap_or :: "vm \<Rightarrow> fault + 'a \<Rightarrow> ('a \<Rightarrow> vm \<times> ctl) \<Rightarrow> vm \<times> ctl" where
  "trap_or m r k = (case r of Inl f \<Rightarrow> (m, Stop (VmTrap f)) | Inr v \<Rightarrow> k v)"

definition trap_unit :: "unit vm_res \<Rightarrow> vm \<times> ctl" where
  "trap_unit r = (case r of (Inl f, m) \<Rightarrow> (m, Stop (VmTrap f)) | (Inr _, m) \<Rightarrow> (m, Next))"

definition need_cap :: "value \<Rightarrow> fault + cap_id" where
  "need_cap v = ok_or (as_cap v) (TypeMismatch ''cap'' (type_name v))"

definition need_message :: "value \<Rightarrow> fault + message" where
  "need_message v = ok_or (as_message v) (TypeMismatch ''message'' (type_name v))"

definition pop_frame :: "vm \<Rightarrow> value \<Rightarrow> vm_result option vm_res" where
  "pop_frame m v =
     (case vm_frames m of
        [] \<Rightarrow> (Inl (Invariant ''pop_frame on empty stack''), m)
      | finished # frs \<Rightarrow>
          let m1 = m\<lparr>vm_frames := frs\<rparr> in
          (case fr_dest_reg finished of
             None \<Rightarrow> (Inr (Some (VmComplete v)), m1)
           | Some dest \<Rightarrow>
               (case set_reg m1 dest v of
                  (Inr _, m2) \<Rightarrow> (Inr None, m2)
                | (Inl _, m2) \<Rightarrow>
                    (Inr (Some (VmTrap (RegisterOutOfRange dest
                       (case vm_frames m2 of [] \<Rightarrow> 0
                        | fr # _ \<Rightarrow> word_of_nat (length (fr_registers fr)))))), m2))))"

definition return_value :: "vm \<Rightarrow> value \<Rightarrow> vm_result option vm_res" where
  "return_value m v = pop_frame m v"

definition after_pop :: "vm_result option vm_res \<Rightarrow> vm \<times> ctl" where
  "after_pop r =
     (case r of
        (Inl f, m) \<Rightarrow> (m, Stop (VmTrap f))
      | (Inr (Some res), m) \<Rightarrow> (m, Stop res)
      | (Inr None, m) \<Rightarrow> (m, Next))"

definition op_halt :: "vm \<Rightarrow> vm \<times> ctl" where
  "op_halt m = trap_or m (get_reg m 0) (\<lambda>v. (m, Stop (VmComplete v)))"

definition op_load_const :: "instruction \<Rightarrow> vm \<Rightarrow> vm \<times> ctl" where
  "op_load_const i m =
     (let idx = i_imm i in
      trap_or m (ok_or (chunk_constant (vm_chunk m) idx)
          (BadConstant idx (word_of_nat (length (ch_constants (vm_chunk m))))))
        (\<lambda>konst. trap_unit (set_reg m (i_a i) konst)))"

definition op_load_imm :: "instruction \<Rightarrow> vm \<Rightarrow> vm \<times> ctl" where
  "op_load_imm i m = trap_unit (set_reg m (i_a i) (VInt (scast (i_imm i))))"

definition op_move :: "instruction \<Rightarrow> vm \<Rightarrow> vm \<times> ctl" where
  "op_move i m = trap_or m (get_reg m (i_b i)) (\<lambda>v. trap_unit (set_reg m (i_a i) v))"

definition op_binop :: "instruction \<Rightarrow> vm \<Rightarrow> vm \<times> ctl" where
  "op_binop i m = trap_unit (numeric_binop m (i_op i) (i_a i) (i_b i) (i_c i))"

definition op_neg :: "instruction \<Rightarrow> vm \<Rightarrow> vm \<times> ctl" where
  "op_neg i m =
     trap_or m (bind_res (get_reg m (i_b i)) neg_value)
       (\<lambda>negated. trap_unit (set_reg m (i_a i) negated))"

definition jump_by :: "i32 \<Rightarrow> vm \<Rightarrow> vm \<times> ctl" where
  "jump_by imm m =
     (case vm_frames m of
        [] \<Rightarrow> (m, Stop (VmTrap empty_stack))
      | fr # frs \<Rightarrow>
          let target = int (fr_pc fr) + sint imm
          in (m\<lparr>vm_frames := fr\<lparr>fr_pc := i64_as_usize target\<rparr> # frs\<rparr>, Next))"

definition op_jump :: "instruction \<Rightarrow> vm \<Rightarrow> vm \<times> ctl" where
  "op_jump i m = jump_by (i_imm i) m"

definition op_branch :: "instruction \<Rightarrow> vm \<Rightarrow> vm \<times> ctl" where
  "op_branch i m =
     trap_or m (get_reg m (i_a i)) (\<lambda>cond. if \<not> is_truthy cond then jump_by (i_imm i) m else (m, Next))"

definition op_call :: "instruction \<Rightarrow> vm \<Rightarrow> vm \<times> ctl" where
  "op_call i m =
     (let function = i_imm i; argc = i_b i; dst = i_a i in
      if MAX_CALL_DEPTH \<le> length (vm_frames m)
      then (m, Stop (VmTrap (CallStackOverflow (length (vm_frames m)))))
      else
        trap_or m (ok_or (chunk_function (vm_chunk m) function)
            (BadFunction function (word_of_nat (length (ch_functions (vm_chunk m)))))) (\<lambda>def.
        trap_or m (gather m dst [0..<unat argc]) (\<lambda>args.
        let fr = (frame_new function (f_num_registers def) (Some dst))\<lparr>fr_pc := unat (f_entry def)\<rparr> in
        trap_or m (load_args (f_num_registers def) 0 (take (unat (f_arity def)) args)
            (fr_registers fr)) (\<lambda>regs.
          (m\<lparr>vm_frames := fr\<lparr>fr_registers := regs\<rparr> # vm_frames m\<rparr>, Next)))))"

definition native_fault :: "native_table \<Rightarrow> native_call_error \<Rightarrow> fault" where
  "native_fault t err =
     (case err of
        IndexOutOfRange index \<Rightarrow> BadNative index (word_of_nat (length t))
      | other \<Rightarrow> NativeDenied (native_call_error_string other))"

definition op_call_native :: "cell_store \<Rightarrow> instruction \<Rightarrow> vm \<Rightarrow> vm \<times> ctl" where
  "op_call_native cells i m =
     (let native_index = i_imm i; argc = i_b i; dst = i_a i in
      case check_native_gate cells (vm_native_gate m) (vm_natives m) native_index of
        Inl err \<Rightarrow> (m, Stop (VmTrap (native_fault (vm_natives m) err)))
      | Inr _ \<Rightarrow>
          trap_or m (ok_or (native_get (vm_natives m) native_index)
              (BadNative native_index (word_of_nat (length (vm_natives m))))) (\<lambda>native_fn.
          trap_or m (gather m dst [0..<unat argc]) (\<lambda>args.
          trap_or m (native_fn args) (\<lambda>v. trap_unit (set_reg m dst v)))))"

definition op_return :: "instruction \<Rightarrow> vm \<Rightarrow> vm \<times> ctl" where
  "op_return i m = trap_or m (get_reg m (i_a i)) (\<lambda>v. after_pop (pop_frame m v))"

definition op_spawn :: "instruction \<Rightarrow> vm \<Rightarrow> vm \<times> ctl" where
  "op_spawn i m =
     trap_or m (gather m (i_a i) (map Suc [0..<unat (i_b i)])) (\<lambda>args.
       (m, Stop (VmSpawn (i_imm i) args (i_a i) (rights_from_u8 (i_c i)))))"

definition op_sleep :: "instruction \<Rightarrow> vm \<Rightarrow> vm \<times> ctl" where
  "op_sleep i m =
     trap_or m (get_reg m (i_a i)) (\<lambda>millis.
       case as_int millis of
         Some ms \<Rightarrow>
           if 0 \<le> sint ms then (m, Stop (VmSleep ms))
           else (m, Stop (VmTrap (TypeMismatch ''non-negative int'' (type_name millis))))
       | None \<Rightarrow> (m, Stop (VmTrap (TypeMismatch ''non-negative int'' (type_name millis)))))"

definition op_exit :: "instruction \<Rightarrow> vm \<Rightarrow> vm \<times> ctl" where
  "op_exit i m = trap_or m (get_reg m (i_a i)) (\<lambda>v. (m, Stop (VmComplete v)))"

definition op_send :: "instruction \<Rightarrow> vm \<Rightarrow> vm \<times> ctl" where
  "op_send i m =
     trap_or m (get_reg m (i_a i)) (\<lambda>target. trap_or m (get_reg m (i_b i)) (\<lambda>msg.
     trap_or m (need_cap target) (\<lambda>c. trap_or m (need_message msg) (\<lambda>_.
       (m, Stop (VmSend c msg))))))"

text \<open>\<open>Some(n) if n >= 0 => n as u64, _ => 0\<close>\<close>

definition millis_or_zero :: "value \<Rightarrow> u64" where
  "millis_or_zero v = (case as_int v of Some n \<Rightarrow> if 0 \<le> sint n then n else 0 | None \<Rightarrow> 0)"

definition op_receive_timeout :: "instruction \<Rightarrow> vm \<Rightarrow> vm \<times> ctl" where
  "op_receive_timeout i m =
     trap_or m (get_reg m (i_b i)) (\<lambda>millis.
       (m, Stop (VmReceive (i_a i) (Some (millis_or_zero millis)) None None)))"

definition op_receive_match :: "instruction \<Rightarrow> vm \<Rightarrow> vm \<times> ctl" where
  "op_receive_match i m =
     trap_or m (bind_res (get_reg m (i_b i)) tag_from_value) (\<lambda>tg.
       (m, Stop (VmReceive (i_a i) None (Some tg) None)))"

text \<open>\<open>u16::try_from(instr.imm)\<close>\<close>

definition imm_tag :: "i32 \<Rightarrow> fault + u16" where
  "imm_tag imm =
     (if 0 \<le> sint imm \<and> sint imm \<le> 65535 then Inr (ucast imm)
      else Inl (TypeMismatch ''tag u16'' ''imm-out-of-range''))"

definition op_receive_match_imm :: "instruction \<Rightarrow> vm \<Rightarrow> vm \<times> ctl" where
  "op_receive_match_imm i m =
     trap_or m (imm_tag (i_imm i)) (\<lambda>tg. (m, Stop (VmReceive (i_a i) None (Some tg) None)))"

definition op_fresh_request_id :: "instruction \<Rightarrow> vm \<Rightarrow> vm \<times> ctl" where
  "op_fresh_request_id i m =
     (case fresh_request_id m of (rid, m1) \<Rightarrow> trap_unit (set_reg m1 (i_a i) (VInt rid)))"

definition op_receive_match_corr :: "instruction \<Rightarrow> vm \<Rightarrow> vm \<times> ctl" where
  "op_receive_match_corr i m =
     trap_or m (bind_res (get_reg m (i_b i)) tag_from_value) (\<lambda>tg.
     trap_or m (bind_res (get_reg m (i_c i)) request_id_from_value) (\<lambda>rid.
       (m, Stop (VmReceive (i_a i) None (Some tg) (Some rid)))))"

definition op_receive_match_corr_imm :: "instruction \<Rightarrow> vm \<Rightarrow> vm \<times> ctl" where
  "op_receive_match_corr_imm i m =
     trap_or m (imm_tag (i_imm i)) (\<lambda>tg.
     trap_or m (bind_res (get_reg m (i_b i)) request_id_from_value) (\<lambda>rid.
       (m, Stop (VmReceive (i_a i) None (Some tg) (Some rid)))))"

definition op_ask :: "instruction \<Rightarrow> vm \<Rightarrow> vm \<times> ctl" where
  "op_ask i m =
     trap_or m (get_reg m (i_b i)) (\<lambda>target. trap_or m (get_reg m (i_c i)) (\<lambda>request.
     trap_or m (need_cap target) (\<lambda>c. trap_or m (need_message request) (\<lambda>_.
       (m, Stop (VmAsk (i_a i) c request None))))))"

definition op_ask_timeout :: "instruction \<Rightarrow> vm \<Rightarrow> vm \<times> ctl" where
  "op_ask_timeout i m =
     trap_or m (get_reg m (i_b i)) (\<lambda>target. trap_or m (get_reg m (i_c i)) (\<lambda>request.
     trap_or m (if 0 \<le> sint (i_imm i) \<and> sint (i_imm i) \<le> 255 then Inr (ucast (i_imm i) :: u8)
                else Inl (TypeMismatch ''millis register'' ''imm-out-of-range'')) (\<lambda>millis_reg.
     trap_or m (get_reg m millis_reg) (\<lambda>millis.
     trap_or m (need_cap target) (\<lambda>c. trap_or m (need_message request) (\<lambda>_.
       (m, Stop (VmAsk (i_a i) c request (Some (millis_or_zero millis))))))))))"

definition op_monitor :: "instruction \<Rightarrow> vm \<Rightarrow> vm \<times> ctl" where
  "op_monitor i m =
     trap_or m (bind_res (get_reg m (i_b i)) need_cap) (\<lambda>c. (m, Stop (VmMonitor (i_a i) c)))"

definition op_link :: "instruction \<Rightarrow> vm \<Rightarrow> vm \<times> ctl" where
  "op_link i m =
     trap_or m (bind_res (get_reg m (i_b i)) need_cap) (\<lambda>c. (m, Stop (VmLink (i_a i) c)))"

definition op_register_name :: "instruction \<Rightarrow> vm \<Rightarrow> vm \<times> ctl" where
  "op_register_name i m =
     trap_or m (get_reg m (i_a i)) (\<lambda>nm.
       case nm of
         VStr a s \<Rightarrow> (m, Stop (VmRegisterName a s))
       | other \<Rightarrow> (m, Stop (VmTrap (TypeMismatch ''str'' (type_name other)))))"

definition op_whereis :: "instruction \<Rightarrow> vm \<Rightarrow> vm \<times> ctl" where
  "op_whereis i m =
     trap_or m (get_reg m (i_b i)) (\<lambda>nm.
       case nm of
         VStr a s \<Rightarrow> (m, Stop (VmWhereis (i_a i) a s))
       | other \<Rightarrow> (m, Stop (VmTrap (TypeMismatch ''str'' (type_name other)))))"

definition op_delegate :: "instruction \<Rightarrow> vm \<Rightarrow> vm \<times> ctl" where
  "op_delegate i m =
     trap_or m (bind_res (get_reg m (i_b i)) need_cap) (\<lambda>src_cap.
     trap_or m (if i_c i = 255 then Inr None
                else bind_res (bind_res (get_reg m (i_c i)) need_cap) (\<lambda>c. Inr (Some c)))
       (\<lambda>want_native_cap.
         (m, Stop (VmDelegate (i_a i) src_cap (i_imm i) want_native_cap))))"

definition exec_instr :: "cell_store \<Rightarrow> instruction \<Rightarrow> vm \<Rightarrow> vm \<times> ctl" where
  "exec_instr cells i m =
     (case i_op i of
        Halt \<Rightarrow> op_halt m
      | Nop \<Rightarrow> (m, Next)
      | LoadConst \<Rightarrow> op_load_const i m
      | LoadImm \<Rightarrow> op_load_imm i m
      | Move \<Rightarrow> op_move i m
      | Add \<Rightarrow> op_binop i m
      | Sub \<Rightarrow> op_binop i m
      | Mul \<Rightarrow> op_binop i m
      | Div \<Rightarrow> op_binop i m
      | Mod \<Rightarrow> op_binop i m
      | Eq \<Rightarrow> op_binop i m
      | Lt \<Rightarrow> op_binop i m
      | Le \<Rightarrow> op_binop i m
      | Neg \<Rightarrow> op_neg i m
      | Jump \<Rightarrow> op_jump i m
      | Branch \<Rightarrow> op_branch i m
      | Call \<Rightarrow> op_call i m
      | CallNative \<Rightarrow> op_call_native cells i m
      | Return \<Rightarrow> op_return i m
      | Spawn \<Rightarrow> op_spawn i m
      | Yield \<Rightarrow> (m, Stop VmYield)
      | Sleep \<Rightarrow> op_sleep i m
      | Exit \<Rightarrow> op_exit i m
      | SelfPid \<Rightarrow> (m, Stop (VmSelfPid (i_a i)))
      | Send \<Rightarrow> op_send i m
      | Receive \<Rightarrow> (m, Stop (VmReceive (i_a i) None None None))
      | ReceiveTimeout \<Rightarrow> op_receive_timeout i m
      | ReceiveMatch \<Rightarrow> op_receive_match i m
      | ReceiveMatchImm \<Rightarrow> op_receive_match_imm i m
      | FreshRequestId \<Rightarrow> op_fresh_request_id i m
      | ReceiveMatchCorr \<Rightarrow> op_receive_match_corr i m
      | ReceiveMatchCorrImm \<Rightarrow> op_receive_match_corr_imm i m
      | Ask \<Rightarrow> op_ask i m
      | AskTimeout \<Rightarrow> op_ask_timeout i m
      | Monitor \<Rightarrow> op_monitor i m
      | Demonitor \<Rightarrow> (m, Stop (VmDemonitor (i_a i)))
      | Link \<Rightarrow> op_link i m
      | Unlink \<Rightarrow> (m, Stop (VmUnlink (i_a i)))
      | RegisterName \<Rightarrow> op_register_name i m
      | Whereis \<Rightarrow> op_whereis i m
      | Delegate \<Rightarrow> op_delegate i m
      | Trap \<Rightarrow> (m, Stop (VmTrap (Explicit (i_imm i)))))"

text \<open>One turn of the loop: count, fetch (falling off the end is an implicit \<open>return Unit\<close>), run.\<close>

definition vm_step :: "(u64 \<Rightarrow> cell_store) \<Rightarrow> vm \<Rightarrow> vm \<times> ctl" where
  "vm_step cells m =
     (let m1 = m\<lparr>vm_instructions_executed := vm_instructions_executed m + 1\<rparr> in
      case fetch m1 of
        (Inl f, m2) \<Rightarrow> (m2, Stop (VmTrap f))
      | (Inr None, m2) \<Rightarrow> after_pop (pop_frame m2 VUnit)
      | (Inr (Some i), m2) \<Rightarrow> exec_instr (cells (vm_instructions_executed m2)) i m2)"

fun vm_run :: "(u64 \<Rightarrow> cell_store) \<Rightarrow> nat \<Rightarrow> vm \<Rightarrow> vm \<times> vm_result" where
  "vm_run cells 0 m = (m, VmYield)"
| "vm_run cells (Suc budget) m =
     (case vm_step cells m of
        (m', Stop res) \<Rightarrow> (m', res)
      | (m', Next) \<Rightarrow> vm_run cells budget m')"

lemma op_binop_eq:
  "op_binop i m =
     trap_or m (bind_res (get_reg m (i_b i)) (\<lambda>a. bind_res (get_reg m (i_c i)) (binop_value (i_op i) a)))
       (\<lambda>v. trap_unit (set_reg m (i_a i) v))"
  by (simp add: op_binop_def numeric_binop_def trap_or_def trap_unit_def split: sum.splits)

lemmas op_defs = op_halt_def op_load_const_def op_load_imm_def op_move_def op_binop_eq op_neg_def
  op_jump_def op_branch_def op_call_def op_call_native_def op_return_def op_spawn_def op_sleep_def
  op_exit_def op_send_def op_receive_timeout_def op_receive_match_def op_receive_match_imm_def
  op_fresh_request_id_def op_receive_match_corr_def op_receive_match_corr_imm_def op_ask_def
  op_ask_timeout_def op_monitor_def op_link_def op_register_name_def op_whereis_def
  op_delegate_def

end
