(* ===== verification/BF_Machine_Safety.thy ===== *)
theory BF_Machine_Safety
  imports BF_Machine
begin

text \<open>
  What the interpreter of \<open>vm/machine.rs\<close> guarantees: type soundness for verified chunks (a well-formed
  machine stays well-formed and never takes a fault the verifier excludes), confinement of the values a
  flow can hold (no capability is forged, strings stay UTF-8), the memory quota, the instruction budget,
  and the native gate.
\<close>

section \<open>The shape of a machine\<close>

text \<open>Everything of a machine but register contents, the quota and the counters.\<close>

type_synonym frame_shape = "u32 \<times> usize \<times> usize \<times> u8 option"

definition frame_shape :: "frame \<Rightarrow> frame_shape" where
  "frame_shape fr = (fr_function fr, fr_pc fr, length (fr_registers fr), fr_dest_reg fr)"

definition vm_shape :: "vm \<Rightarrow> chunk \<times> native_table \<times> native_gate \<times> frame_shape list" where
  "vm_shape m = (vm_chunk m, vm_natives m, vm_native_gate m, map frame_shape (vm_frames m))"

definition shape_ok :: "chunk \<Rightarrow> frame_shape \<Rightarrow> bool" where
  "shape_ok ch s =
     (case s of (fn, pc, n, _) \<Rightarrow>
        pc \<le> length (ch_code ch) \<and>
        (\<exists>def. chunk_function ch fn = Some def \<and> n = unat (f_num_registers def)))"

text \<open>Every frame but the bottom one knows where its result goes; the bottom one has no caller.\<close>

definition stack_ok :: "chunk \<Rightarrow> frame_shape list \<Rightarrow> bool" where
  "stack_ok ch ss \<longleftrightarrow>
     ss \<noteq> [] \<and> length ss \<le> MAX_CALL_DEPTH \<and> (\<forall>s\<in>set ss. shape_ok ch s) \<and>
     (\<forall>k<length ss. snd (snd (snd (ss ! k))) = None \<longleftrightarrow> Suc k = length ss)"

definition vm_ok :: "vm \<Rightarrow> bool" where
  "vm_ok m \<longleftrightarrow> stack_ok (vm_chunk m) (map frame_shape (vm_frames m))"

lemma vm_ok_shape: "vm_shape m = vm_shape m' \<Longrightarrow> vm_ok m = vm_ok m'"
  by (simp add: vm_shape_def vm_ok_def)

lemma set_reg_shape [simp]: "vm_shape (snd (set_reg m r v)) = vm_shape m"
  by (auto simp: set_reg_def charge_register_store_def vm_shape_def frame_shape_def
      split: option.splits sum.splits list.splits prod.splits)

lemma set_reg_shapeD: "set_reg m r v = (x, m') \<Longrightarrow> vm_shape m' = vm_shape m"
  using set_reg_shape [of m r v] by simp

lemma vm_ok_frames: "vm_ok m \<Longrightarrow> vm_frames m \<noteq> []"
  by (auto simp: vm_ok_def stack_ok_def)

lemma stack_ok_tl:
  "stack_ok ch (s # ss) \<Longrightarrow> snd (snd (snd s)) \<noteq> None \<Longrightarrow> stack_ok ch ss"
proof -
  assume ok: "stack_ok ch (s # ss)" and d: "snd (snd (snd s)) \<noteq> None"
  have k: "snd (snd (snd (ss ! k))) = None \<longleftrightarrow> Suc k = length ss" if "k < length ss" for k
  proof -
    from ok have "\<forall>k<length (s # ss). snd (snd (snd ((s # ss) ! k))) = None \<longleftrightarrow> Suc k = length (s # ss)"
      unfolding stack_ok_def by blast
    from spec [OF this, of "Suc k"] that show ?thesis by simp
  qed
  have "ss \<noteq> []" using ok d by (auto simp: stack_ok_def)
  with ok k show ?thesis by (simp add: stack_ok_def)
qed

lemma stack_ok_push:
  "stack_ok ch ss \<Longrightarrow> shape_ok ch s \<Longrightarrow> snd (snd (snd s)) \<noteq> None \<Longrightarrow> length ss < MAX_CALL_DEPTH \<Longrightarrow>
   stack_ok ch (s # ss)"
  by (auto simp: stack_ok_def less_Suc_eq_0_disj)

lemma stack_ok_set_pc:
  "stack_ok ch ((fn, pc, n, d) # ss) \<Longrightarrow> pc' \<le> length (ch_code ch) \<Longrightarrow> stack_ok ch ((fn, pc', n, d) # ss)"
  by (auto simp: stack_ok_def shape_ok_def less_Suc_eq_0_disj)

lemma length_load_args: "load_args n i as regs = Inr regs' \<Longrightarrow> length regs' = length regs"
  by (induction n i as regs rule: load_args.induct) (auto split: if_splits)

section \<open>Faults the verifier excludes\<close>

fun verifier_fault :: "fault \<Rightarrow> bool" where
  "verifier_fault (BadConstant _ _) = True"
| "verifier_fault (BadFunction _ _) = True"
| "verifier_fault (BadOpcodeByte _) = True"
| "verifier_fault (Invariant msg) = (Invariant msg \<noteq> bad_binop)"
| "verifier_fault _ = False"

definition natives_safe :: "native_table \<Rightarrow> bool" where
  "natives_safe t \<longleftrightarrow> (\<forall>i f args e. native_get t i = Some f \<longrightarrow> f args = Inl e \<longrightarrow> \<not> verifier_fault e)"

definition sound_outcome :: "vm \<times> ctl \<Rightarrow> bool" where
  "sound_outcome r \<longleftrightarrow>
     (case r of (m, c) \<Rightarrow>
        (vm_ok m \<or> (\<exists>v. c = Stop (VmComplete v))) \<and>
        (\<forall>f. c = Stop (VmTrap f) \<longrightarrow> \<not> verifier_fault f))"

lemma charge_heap_value_safe: "charge_heap_value q v = (Inl f, q') \<Longrightarrow> \<not> verifier_fault f"
  by (auto simp: charge_heap_value_def split: option.splits if_splits prod.splits sum.splits)

lemma set_reg_safe: "vm_frames m \<noteq> [] \<Longrightarrow> set_reg m r v = (Inl f, m') \<Longrightarrow> \<not> verifier_fault f"
  by (auto simp: set_reg_def charge_register_store_def dest: charge_heap_value_safe
      split: option.splits sum.splits list.splits prod.splits if_splits)

lemma get_reg_safe: "vm_frames m \<noteq> [] \<Longrightarrow> get_reg m r = Inl f \<Longrightarrow> \<not> verifier_fault f"
  by (auto simp: get_reg_def ok_or_def split: list.splits option.splits)

lemma reg_at_safe: "reg_at b k = Inl f \<Longrightarrow> \<not> verifier_fault f"
  by (auto simp: reg_at_def split: if_splits)

lemma gather_safe: "vm_frames m \<noteq> [] \<Longrightarrow> gather m b offs = Inl f \<Longrightarrow> \<not> verifier_fault f"
  by (induction offs) (auto simp: bind_res_Inl_iff dest: reg_at_safe get_reg_safe)

lemma load_args_safe: "load_args n i as regs = Inl f \<Longrightarrow> \<not> verifier_fault f"
  by (induction n i as regs rule: load_args.induct) (auto split: if_splits)

lemma as_f64_safe: "as_f64 v = Inl f \<Longrightarrow> \<not> verifier_fault f"
  by (auto simp: as_f64_def split: val_splits)

lemma float_op_safe: "float_op g a b = Inl f \<Longrightarrow> \<not> verifier_fault f"
  by (auto simp: float_op_def bind_res_Inl_iff dest: as_f64_safe)

lemma bad_binop_safe [simp]: "\<not> verifier_fault bad_binop"
  by (simp add: bad_binop_def)

lemma binop_value_safe: "binop_value op a b = Inl f \<Longrightarrow> \<not> verifier_fault f"
  by (cases op)
    (auto simp: binop_value_def bind_res_Inl_iff dest: float_op_safe as_f64_safe
      split: val_splits if_splits)

lemma conversions_safe:
  "neg_value v = Inl f \<Longrightarrow> \<not> verifier_fault f"
  "tag_from_value v = Inl f \<Longrightarrow> \<not> verifier_fault f"
  "request_id_from_value v = Inl f \<Longrightarrow> \<not> verifier_fault f"
  "need_cap v = Inl f \<Longrightarrow> \<not> verifier_fault f"
  "need_message v = Inl f \<Longrightarrow> \<not> verifier_fault f"
  "imm_tag imm = Inl f \<Longrightarrow> \<not> verifier_fault f"
  by (auto simp: neg_value_def tag_from_value_def request_id_from_value_def need_cap_def
      need_message_def imm_tag_def ok_or_def split: val_splits option.splits if_splits)

lemma native_fault_safe: "\<not> verifier_fault (native_fault t e)"
  by (cases e) (simp_all add: native_fault_def)

lemmas fault_safe = get_reg_safe gather_safe conversions_safe load_args_safe


section \<open>Type soundness\<close>

lemma sound_trap_or:
  "vm_ok m \<Longrightarrow> (\<And>f. r = Inl f \<Longrightarrow> \<not> verifier_fault f) \<Longrightarrow> (\<And>v. r = Inr v \<Longrightarrow> sound_outcome (k v)) \<Longrightarrow>
   sound_outcome (trap_or m r k)"
  by (cases r) (auto simp: trap_or_def sound_outcome_def)

lemma sound_set_reg: "vm_ok m \<Longrightarrow> sound_outcome (trap_unit (set_reg m r v))"
  using set_reg_shapeD [of m r v] vm_ok_frames [of m]
  by (auto simp: trap_unit_def sound_outcome_def dest: vm_ok_shape set_reg_safe
      split: prod.splits sum.splits)

lemma sound_next: "vm_ok m \<Longrightarrow> sound_outcome (m, Next)"
  by (simp add: sound_outcome_def)

lemma sound_stop: "vm_ok m \<Longrightarrow> (\<And>f. res = VmTrap f \<Longrightarrow> \<not> verifier_fault f) \<Longrightarrow> sound_outcome (m, Stop res)"
  by (simp add: sound_outcome_def)

lemmas sound_intros = sound_trap_or sound_set_reg sound_next sound_stop

lemma sound_pop: "vm_ok m \<Longrightarrow> sound_outcome (after_pop (pop_frame m v))"
proof -
  assume ok: "vm_ok m"
  then obtain fr frs where fr: "vm_frames m = fr # frs" using vm_ok_frames by (cases "vm_frames m") auto
  show ?thesis
  proof (cases "fr_dest_reg fr")
    case None
    then show ?thesis by (simp add: pop_frame_def fr after_pop_def sound_outcome_def Let_def)
  next
    case (Some d)
    let ?m1 = "m\<lparr>vm_frames := frs\<rparr>"
    have ok1: "vm_ok ?m1"
      using ok Some stack_ok_tl by (fastforce simp: vm_ok_def fr frame_shape_def)
    obtain r m2 where r: "set_reg ?m1 d v = (r, m2)" by fastforce
    have "vm_ok m2" using set_reg_shapeD [OF r] ok1 vm_ok_shape by blast
    with r Some show ?thesis
      by (cases r) (simp_all add: pop_frame_def fr after_pop_def sound_outcome_def Let_def)
  qed
qed

lemma sound_jump:
  assumes ok: "vm_ok m" and fr: "vm_frames m = fr # frs" and pc: "fr_pc fr = Suc at"
    and j: "jump_in_range (vm_chunk m) at imm" and len: "length (ch_code (vm_chunk m)) < 2 ^ 63"
  shows "sound_outcome (jump_by imm m)"
proof -
  let ?t = "int (Suc at) + sint imm"
  have t: "0 \<le> ?t" "?t \<le> int (length (ch_code (vm_chunk m)))"
    using j by (auto simp: jump_in_range_def algebra_simps)
  then have "i64_as_usize ?t = nat ?t" using len by (intro i64_as_usize_nonneg) auto
  then have "i64_as_usize ?t \<le> length (ch_code (vm_chunk m))" using t by linarith
  then have "vm_ok (m\<lparr>vm_frames := fr\<lparr>fr_pc := i64_as_usize ?t\<rparr> # frs\<rparr>)"
    using ok stack_ok_set_pc by (fastforce simp: vm_ok_def fr frame_shape_def)
  then show ?thesis by (simp add: jump_by_def fr pc Let_def sound_next)
qed

lemma sound_call:
  assumes ok: "vm_ok m" and ver: "verified trust (vm_chunk m)"
    and idx: "unat (i_imm i) < length (ch_functions (vm_chunk m))"
  shows "sound_outcome (op_call i m)"
proof -
  obtain def where def: "chunk_function (vm_chunk m) (i_imm i) = Some def"
    using idx by (auto simp: chunk_function_def)
  have entry: "unat (f_entry def) < length (ch_code (vm_chunk m))"
    using verified_function [OF ver def] by (simp add: function_ok_def)
  have push: "vm_ok (m\<lparr>vm_frames := \<lparr>fr_function = i_imm i, fr_pc = unat (f_entry def),
          fr_registers = regs, fr_dest_reg = Some (i_a i)\<rparr> # vm_frames m\<rparr>)"
    if "length regs = unat (f_num_registers def)" "length (vm_frames m) < MAX_CALL_DEPTH" for regs
    using ok that entry def
    by (auto simp: vm_ok_def frame_shape_def shape_ok_def intro!: stack_ok_push)
  show ?thesis
    using ok vm_ok_frames [OF ok]
    by (auto simp: op_call_def Let_def def frame_new_def not_le intro!: sound_intros push
        dest: fault_safe length_load_args)
qed

lemma sound_call_native:
  assumes ok: "vm_ok m" and nat: "natives_safe (vm_natives m)"
  shows "sound_outcome (op_call_native cells i m)"
proof (cases "check_native_gate cells (vm_native_gate m) (vm_natives m) (i_imm i)")
  case (Inl e)
  then show ?thesis using ok by (auto simp: op_call_native_def Let_def native_fault_safe intro!: sound_stop)
next
  case (Inr u)
  have "\<not> verifier_fault e" if "native_get (vm_natives m) (i_imm i) = Some f" "f args = Inl e" for f args e
    using nat that by (auto simp: natives_safe_def)
  then show ?thesis
    using ok vm_ok_frames [OF ok] Inr
    by (auto simp: op_call_native_def Let_def ok_or_def intro!: sound_intros dest: fault_safe
        split: option.splits)
qed

lemma sound_exec_instr:
  assumes ok: "vm_ok m" and ver: "verified trust (vm_chunk m)" and nat: "natives_safe (vm_natives m)"
    and fr: "vm_frames m = fr # frs" and pc: "fr_pc fr = Suc at"
    and i: "instruction_ok (vm_chunk m) at i" and len: "length (ch_code (vm_chunk m)) < 2 ^ 63"
  shows "sound_outcome (exec_instr cells i m)"
proof -
  have ne: "vm_frames m \<noteq> []" using fr by simp
  have jump: "sound_outcome (jump_by (i_imm i) m)" if "i_op i \<in> {Jump, Branch}"
    using i that sound_jump [OF ok fr pc _ len] by (auto simp: instruction_ok_def)
  have fresh: "vm_ok (snd (fresh_request_id m))"
    using ok by (subst fresh_request_id.simps, subst fresh_request_id.simps)
      (simp add: Let_def vm_ok_def u64_sat_add_def)
  show ?thesis
  proof (cases "i_op i")
    case LoadConst
    then show ?thesis using i ok
      by (auto simp: exec_instr_def op_load_const_def Let_def chunk_constant_def instruction_ok_def
          intro!: sound_intros)
  next
    case Call
    then show ?thesis using sound_call [OF ok ver] i by (simp add: exec_instr_def instruction_ok_def)
  next
    case CallNative
    then show ?thesis using sound_call_native [OF ok nat] by (simp add: exec_instr_def)
  next
    case FreshRequestId
    then show ?thesis using fresh
      by (auto simp: exec_instr_def op_fresh_request_id_def intro!: sound_set_reg split: prod.splits)
  next
    case Return
    then show ?thesis using ok ne
      by (auto simp: exec_instr_def op_return_def intro!: sound_trap_or sound_pop dest: fault_safe)
  qed (use ok ne jump in \<open>auto simp: exec_instr_def op_defs bind_res_Inl_iff
      intro!: sound_intros dest: fault_safe binop_value_safe split: sum.splits option.splits
      val_splits if_splits\<close>)
qed


lemma vm_shape_counted [simp]: "vm_shape (m\<lparr>vm_instructions_executed := n\<rparr>) = vm_shape m"
  by (simp add: vm_shape_def)

lemma sound_vm_step:
  assumes ok: "vm_ok m" and ver: "verified trust (vm_chunk m)" and nat: "natives_safe (vm_natives m)"
    and len: "length (ch_code (vm_chunk m)) < 2 ^ 63"
  shows "sound_outcome (vm_step cells m)"
proof -
  let ?m1 = "m\<lparr>vm_instructions_executed := vm_instructions_executed m + 1\<rparr>"
  obtain fr frs where fr: "vm_frames m = fr # frs" using vm_ok_frames [OF ok] by (cases "vm_frames m") auto
  have ok1: "vm_ok ?m1" using ok by (simp add: vm_ok_def)
  show ?thesis
  proof (cases "nth_opt (ch_code (vm_chunk m)) (fr_pc fr)")
    case None
    then show ?thesis using sound_pop [OF ok1] by (simp add: vm_step_def Let_def fetch_def fr)
  next
    case (Some i)
    let ?m2 = "?m1\<lparr>vm_frames := fr\<lparr>fr_pc := fr_pc fr + 1\<rparr> # frs\<rparr>"
    have "Suc (fr_pc fr) \<le> length (ch_code (vm_chunk m))" using Some by (simp add: nth_opt_Some_iff)
    then have ok2: "vm_ok ?m2"
      using ok stack_ok_set_pc by (fastforce simp: vm_ok_def fr frame_shape_def)
    have "sound_outcome (exec_instr c i ?m2)" for c
      by (rule sound_exec_instr [OF ok2, of trust]) (use ver nat len verified_instruction [OF ver Some] in auto)
    then show ?thesis using Some by (simp add: vm_step_def Let_def fetch_def fr)
  qed
qed

section \<open>Relations a run respects\<close>

lemma fresh_request_id_eq:
  "fresh_request_id m =
     (let n = (if vm_next_request_id m = 0 then 1 else vm_next_request_id m)
      in (n, m\<lparr>vm_next_request_id := u64_sat_add n 1\<rparr>))"
  by (subst fresh_request_id.simps, subst fresh_request_id.simps) (simp add: Let_def u64_sat_add_def)

text \<open>
  An instruction writes a machine through three updates only: the frame stack, the request counter and,
  by a charge, the quota. A preorder these respect holds across every instruction; one that also ignores
  the instruction counter holds between the ends of every run.
\<close>

locale exec_rel =
  fixes R :: "vm \<Rightarrow> vm \<Rightarrow> bool"
  assumes R_refl: "R m m"
    and R_trans: "R m1 m2 \<Longrightarrow> R m2 m3 \<Longrightarrow> R m1 m3"
    and R_frames: "R m (m\<lparr>vm_frames := frs\<rparr>)"
    and R_rid: "R m (m\<lparr>vm_next_request_id := k\<rparr>)"
    and R_charge: "vm_quota m = Some q \<Longrightarrow> charge_heap_value q v = (r, q') \<Longrightarrow> R m (m\<lparr>vm_quota := Some q'\<rparr>)"
begin

lemma charge_R: "charge_register_store m r v = (x, m') \<Longrightarrow> R m m'"
  by (auto simp: charge_register_store_def R_refl dest: R_charge split: option.splits if_splits prod.splits)

lemma set_reg_R: "set_reg m r v = (x, m') \<Longrightarrow> R m m'"
  by (auto simp: set_reg_def dest: charge_R intro: R_trans [OF _ R_frames]
      split: prod.splits sum.splits list.splits if_splits)

lemma trap_or_R: "(\<And>v. r = Inr v \<Longrightarrow> R m (fst (k v))) \<Longrightarrow> R m (fst (trap_or m r k))"
  by (cases r) (simp_all add: trap_or_def R_refl)

lemma trap_unit_R: "R m (fst (trap_unit (set_reg m r v)))"
  by (auto simp: trap_unit_def dest: set_reg_R split: prod.splits sum.splits)

lemma pop_R: "R m (fst (after_pop (pop_frame m v)))"
  by (auto simp: pop_frame_def after_pop_def Let_def R_refl R_frames intro: R_trans [OF R_frames]
      dest: set_reg_R split: list.splits option.splits prod.splits sum.splits)

lemma exec_instr_R: "R m (fst (exec_instr cells i m))"
  by (cases "i_op i")
    (auto simp: exec_instr_def op_defs jump_by_def fresh_request_id_eq Let_def R_refl
      intro!: trap_or_R trap_unit_R pop_R R_frames R_trans [OF R_rid trap_unit_R]
      split: sum.splits option.splits val_splits if_splits list.splits)

end

locale machine_rel = exec_rel +
  assumes R_count: "R m (m\<lparr>vm_instructions_executed := n\<rparr>)"
begin

lemma vm_step_R: "R m (fst (vm_step cells m))"
  by (auto simp: vm_step_def Let_def fetch_def R_count
      intro: R_trans [OF R_count] R_trans [OF R_count R_trans [OF R_frames exec_instr_R]] pop_R
      split: list.splits option.splits)

lemma vm_run_R: "R m (fst (vm_run cells budget m))"
proof (induction budget arbitrary: m)
  case 0
  then show ?case by (simp add: R_refl)
next
  case (Suc budget)
  obtain m1 c where st: "vm_step cells m = (m1, c)" by fastforce
  have "R m m1" using vm_step_R [of m cells] st by simp
  then show ?case using Suc.IH [of m1] st by (cases c) (auto intro: R_trans)
qed

end

interpretation count: exec_rel "\<lambda>m m'. vm_instructions_executed m' = vm_instructions_executed m"
  by unfold_locales simp_all

text \<open>The program, the natives and the gate of a machine never change.\<close>

definition vm_static :: "vm \<Rightarrow> chunk \<times> native_table \<times> native_gate" where
  "vm_static m = (vm_chunk m, vm_natives m, vm_native_gate m)"

interpretation static: machine_rel "\<lambda>m m'. vm_static m' = vm_static m"
  by unfold_locales (simp_all add: vm_static_def)

text \<open>
  A run touches of the quota only the memory charged, which grows and stays within the limit.
\<close>

definition quota_grows :: "flow_quota option \<Rightarrow> flow_quota option \<Rightarrow> bool" where
  "quota_grows old new =
     (case (old, new) of
        (None, None) \<Rightarrow> True
      | (Some q, Some q') \<Rightarrow>
          q' = q\<lparr>fq_mem_used := fq_mem_used q'\<rparr> \<and> (quota_inv q \<longrightarrow> fq_mem_used q \<le> fq_mem_used q' \<and> quota_inv q')
      | _ \<Rightarrow> False)"

lemma quota_grows_refl [simp]: "quota_grows q q"
  by (simp add: quota_grows_def split: option.split)

lemma quota_grows_trans: "quota_grows a b \<Longrightarrow> quota_grows b c \<Longrightarrow> quota_grows a c"
  by (auto simp: quota_grows_def split: option.splits)
    (metis flow_quota.update_convs(3) flow_quota.surjective)+

lemma quota_alloc_grows: "quota_alloc q n = (r, q') \<Longrightarrow> quota_grows (Some q) (Some q')"
  by (auto simp: quota_alloc_def Let_def quota_grows_def quota_inv_def usize_sat_add_def split: if_splits)

lemma charge_heap_value_grows: "charge_heap_value q v = (r, q') \<Longrightarrow> quota_grows (Some q) (Some q')"
  by (auto simp: charge_heap_value_def dest: quota_alloc_grows
      split: option.splits if_splits prod.splits sum.splits)

interpretation mem: machine_rel "\<lambda>m m'. quota_grows (vm_quota m) (vm_quota m')"
  by unfold_locales
    (auto intro: quota_grows_trans charge_heap_value_grows)

section \<open>Type soundness of whole runs\<close>

lemma sound_vm_run:
  "vm_ok m \<Longrightarrow> verified trust (vm_chunk m) \<Longrightarrow> natives_safe (vm_natives m) \<Longrightarrow>
   length (ch_code (vm_chunk m)) < 2 ^ 63 \<Longrightarrow> vm_run cells budget m = (m', res) \<Longrightarrow>
   (vm_ok m' \<or> (\<exists>v. res = VmComplete v)) \<and> (\<forall>f. res = VmTrap f \<longrightarrow> \<not> verifier_fault f)"
proof (induction budget arbitrary: m)
  case 0
  then show ?case by auto
next
  case (Suc budget)
  obtain m1 c where st: "vm_step cells m = (m1, c)" by fastforce
  have snd: "sound_outcome (m1, c)" using sound_vm_step [OF Suc.prems(1-4), of cells] st by simp
  have "vm_static m1 = vm_static m" using static.vm_step_R [of cells m] st by simp
  then show ?case
    using Suc.IH [of m1] Suc.prems snd st by (cases c) (auto simp: vm_static_def sound_outcome_def)
qed

lemma vm_with_native_gate_ok:
  assumes "vm_with_native_gate ch t g fn args = Inr m" and "verified trust ch"
  shows "vm_ok m"
proof -
  obtain def regs where d: "chunk_function ch fn = Some def"
    and r: "load_args (f_num_registers def) 0 (take (unat (f_arity def)) args)
         (replicate (unat (f_num_registers def)) VUnit) = Inr regs"
    and m: "m = \<lparr>vm_chunk = ch, vm_natives = t, vm_native_gate = g,
          vm_frames = [\<lparr>fr_function = fn, fr_pc = unat (f_entry def), fr_registers = regs,
            fr_dest_reg = None\<rparr>], vm_instructions_executed = 0,
          vm_next_request_id = 1, vm_quota = None\<rparr>"
    using assms(1) by (auto simp: vm_with_native_gate_def bind_res_Inr_iff ok_or_Inr_iff frame_new_def Let_def)
  show ?thesis
    using verified_function [OF assms(2) d] length_load_args [OF r] d
    by (simp add: m vm_ok_def stack_ok_def frame_shape_def shape_ok_def function_ok_def MAX_CALL_DEPTH_def)
qed

lemma vm_with_native_gate_static: "vm_with_native_gate ch t g fn args = Inr m \<Longrightarrow> vm_static m = (ch, t, g)"
  by (auto simp: vm_with_native_gate_def bind_res_Inr_iff Let_def vm_static_def)

lemma load_args_ok: "i + length as \<le> length regs \<Longrightarrow> is_ok (load_args n i as regs)"
  by (induction n i as regs rule: load_args.induct) auto

lemma vm_with_native_gate_total:
  assumes "verified trust ch" and "unat fn < length (ch_functions ch)"
  shows "is_ok (vm_with_native_gate ch t g fn args)"
proof -
  obtain def where d: "chunk_function ch fn = Some def" using assms by (auto simp: chunk_function_def)
  have "unat (f_arity def) \<le> unat (f_num_registers def)"
    using verified_function [OF assms(1) d] by (simp add: function_ok_def word_le_nat_alt)
  then have "is_ok (load_args (f_num_registers def) 0 (take (unat (f_arity def)) args)
      (replicate (unat (f_num_registers def)) VUnit))"
    by (intro load_args_ok) simp
  then show ?thesis
    by (auto simp: vm_with_native_gate_def d frame_new_def is_ok_iff)
qed

section \<open>Closure of the values a flow can hold\<close>

text \<open>The values a result hands to the scheduler; a capability id counts as the value naming it.\<close>

fun result_values :: "vm_result \<Rightarrow> value list" where
  "result_values (VmComplete v) = [v]"
| "result_values (VmSpawn _ args _ _) = args"
| "result_values (VmSend c v) = [VCap c, v]"
| "result_values (VmAsk _ c v _) = [VCap c, v]"
| "result_values (VmMonitor _ c) = [VCap c]"
| "result_values (VmLink _ c) = [VCap c]"
| "result_values (VmRegisterName a s) = [VStr a s]"
| "result_values (VmWhereis _ a s) = [VStr a s]"
| "result_values (VmDelegate _ c _ want) = VCap c # (case want of None \<Rightarrow> [] | Some w \<Rightarrow> [VCap w])"
| "result_values _ = []"

definition vm_values :: "vm \<Rightarrow> value set" where
  "vm_values m = (\<Union>fr\<in>set (vm_frames m). set (fr_registers fr))"

definition natives_closed :: "(value \<Rightarrow> bool) \<Rightarrow> native_table \<Rightarrow> bool" where
  "natives_closed V t \<longleftrightarrow>
     (\<forall>i f args v. native_get t i = Some f \<longrightarrow> (\<forall>a\<in>set args. V a) \<longrightarrow> f args = Inr v \<longrightarrow> V v)"

definition closed_outcome :: "(value \<Rightarrow> bool) \<Rightarrow> vm \<times> ctl \<Rightarrow> bool" where
  "closed_outcome V r \<longleftrightarrow>
     (\<forall>v\<in>vm_values (fst r). V v) \<and> (\<forall>res. snd r = Stop res \<longrightarrow> (\<forall>v\<in>set (result_values res). V v))"

text \<open>
  A property of values that the machine's own literals have and that a constant pool and a native
  table respect: it then holds of every register and every result, for good.
\<close>

locale closed_values =
  fixes V :: "value \<Rightarrow> bool"
  assumes V_unit: "V VUnit" and V_bool: "V (VBool b)" and V_int: "V (VInt i)" and V_float: "V (VFloat x)"
begin

lemma get_reg_V: "\<forall>v\<in>vm_values m. V v \<Longrightarrow> get_reg m r = Inr v \<Longrightarrow> V v"
  by (auto simp: get_reg_def ok_or_Inr_iff vm_values_def dest: nth_opt_set split: list.splits)

lemma gather_V: "\<forall>v\<in>vm_values m. V v \<Longrightarrow> gather m b offs = Inr vs \<Longrightarrow> v \<in> set vs \<Longrightarrow> V v"
  by (induction offs arbitrary: vs) (auto simp: bind_res_Inr_iff dest: get_reg_V)

lemma set_reg_V: "\<forall>v\<in>vm_values m. V v \<Longrightarrow> V w \<Longrightarrow> \<forall>v\<in>vm_values (snd (set_reg m r w)). V v"
  by (auto simp: set_reg_def charge_register_store_def vm_values_def
      dest!: set_update_subset_insert [THEN subsetD]
      split: option.splits sum.splits list.splits prod.splits)

lemma load_args_V:
  "load_args n i as regs = Inr regs' \<Longrightarrow> \<forall>v\<in>set as \<union> set regs. V v \<Longrightarrow> \<forall>v\<in>set regs'. V v"
proof (induction n i as regs rule: load_args.induct)
  case (2 n i a as regs)
  have "set (regs[i := a]) \<subseteq> insert a (set regs)" by (rule set_update_subset_insert)
  then have "\<forall>v\<in>set as \<union> set (regs[i := a]). V v" using 2(3) by auto
  then show ?case using 2 by (auto split: if_splits)
qed simp

lemma binop_value_V: "binop_value op a b = Inr v \<Longrightarrow> V v"
  by (cases op)
    (auto simp: binop_value_def float_op_def bind_res_Inr_iff V_bool V_int V_float
      split: val_splits if_splits)

lemma neg_value_V: "neg_value a = Inr v \<Longrightarrow> V v"
  by (auto simp: neg_value_def V_int V_float split: val_splits)

lemma closed_trap_or:
  "\<forall>v\<in>vm_values m. V v \<Longrightarrow> (\<And>v. r = Inr v \<Longrightarrow> closed_outcome V (k v)) \<Longrightarrow>
   closed_outcome V (trap_or m r k)"
  by (cases r) (auto simp: trap_or_def closed_outcome_def)

lemma closed_set_reg: "\<forall>v\<in>vm_values m. V v \<Longrightarrow> V w \<Longrightarrow> closed_outcome V (trap_unit (set_reg m r w))"
  using set_reg_V [of m w r]
  by (auto simp: trap_unit_def closed_outcome_def split: prod.splits sum.splits)

lemma closed_next: "\<forall>v\<in>vm_values m. V v \<Longrightarrow> closed_outcome V (m, Next)"
  by (simp add: closed_outcome_def)

lemma closed_stop:
  "\<forall>v\<in>vm_values m. V v \<Longrightarrow> (\<And>v. v \<in> set (result_values res) \<Longrightarrow> V v) \<Longrightarrow> closed_outcome V (m, Stop res)"
  by (simp add: closed_outcome_def)

lemmas closed_intros = closed_trap_or closed_set_reg closed_next closed_stop

lemma need_cap_V: "need_cap v = Inr c \<Longrightarrow> V v \<Longrightarrow> V (VCap c)"
  by (auto simp: need_cap_def ok_or_Inr_iff as_cap_iff)

lemma closed_pop:
  assumes m: "\<forall>v\<in>vm_values m. V v" and w: "V w"
  shows "closed_outcome V (after_pop (pop_frame m w))"
proof (cases "vm_frames m")
  case Nil
  then show ?thesis using m by (simp add: pop_frame_def after_pop_def closed_outcome_def)
next
  case (Cons fr frs)
  let ?m1 = "m\<lparr>vm_frames := frs\<rparr>"
  have m1: "\<forall>v\<in>vm_values ?m1. V v" using m Cons by (auto simp: vm_values_def)
  have "\<forall>v\<in>vm_values m2. V v" if "set_reg ?m1 d w = (x, m2)" for d x m2
    using set_reg_V [OF m1 w, of d] that by simp
  with m1 w Cons show ?thesis
    by (auto simp: pop_frame_def after_pop_def closed_outcome_def Let_def
        split: option.splits prod.splits sum.splits)
qed

lemma closed_push:
  assumes m: "\<forall>v\<in>vm_values m. V v" and g: "gather m b offs = Inr args"
    and l: "load_args n 0 (take k args) (replicate k' VUnit) = Inr regs"
  shows "\<forall>v\<in>vm_values (m\<lparr>vm_frames := fr\<lparr>fr_registers := regs\<rparr> # vm_frames m\<rparr>). V v"
proof -
  have "\<forall>v\<in>set (take k args) \<union> set (replicate k' VUnit). V v"
    using gather_V [OF m g] V_unit by (auto dest: in_set_takeD)
  then have "\<forall>v\<in>set regs. V v" by (rule load_args_V [OF l])
  with m show ?thesis by (auto simp: vm_values_def)
qed

lemma closed_call: "\<forall>v\<in>vm_values m. V v \<Longrightarrow> closed_outcome V (op_call i m)"
  by (auto simp: op_call_def Let_def frame_new_def simp del: frame.update_convs
      intro!: closed_intros dest: closed_push)

lemma closed_call_native:
  assumes m: "\<forall>v\<in>vm_values m. V v" and t: "natives_closed V (vm_natives m)"
  shows "closed_outcome V (op_call_native cells i m)"
proof -
  have "V v" if "native_get (vm_natives m) (i_imm i) = Some f" "gather m b offs = Inr args" "f args = Inr v"
    for f b offs args v
    using t that gather_V [OF m that(2)] unfolding natives_closed_def by blast
  then show ?thesis
    using m by (auto simp: op_call_native_def Let_def ok_or_Inr_iff intro!: closed_intros
        split: sum.splits)
qed

lemma closed_exec_instr:
  assumes m: "\<forall>v\<in>vm_values m. V v" and t: "natives_closed V (vm_natives m)"
    and k: "\<forall>v\<in>set (ch_constants (vm_chunk m)). V v"
  shows "closed_outcome V (exec_instr cells i m)"
proof -
  have frs: "\<forall>v\<in>vm_values (m\<lparr>vm_frames := fr\<lparr>fr_pc := p\<rparr> # frs\<rparr>). V v" if "vm_frames m = fr # frs" for fr frs p
    using m that by (auto simp: vm_values_def)
  have jump: "closed_outcome V (jump_by (i_imm i) m)"
    using m frs by (auto simp: jump_by_def Let_def intro!: closed_intros split: list.splits)
  have rid: "\<forall>v\<in>vm_values (m\<lparr>vm_next_request_id := n\<rparr>). V v" for n
    using m by (simp add: vm_values_def)
  show ?thesis
  proof (cases "i_op i")
    case LoadConst
    have "V v" if "nth_opt (ch_constants (vm_chunk m)) j = Some v" for j v
      using k nth_opt_set [OF that] by blast
    with LoadConst m show ?thesis
      by (auto simp: exec_instr_def op_load_const_def Let_def chunk_constant_def ok_or_Inr_iff
          intro!: closed_intros)
  next
    case Call
    then show ?thesis using closed_call [OF m] by (simp add: exec_instr_def)
  next
    case CallNative
    then show ?thesis using closed_call_native [OF m t] by (simp add: exec_instr_def)
  next
    case FreshRequestId
    then show ?thesis using rid
      by (auto simp: exec_instr_def op_fresh_request_id_def fresh_request_id_eq Let_def V_int
          intro!: closed_intros)
  next
    case Return
    then show ?thesis using m
      by (auto simp: exec_instr_def op_return_def intro!: closed_trap_or closed_pop dest: get_reg_V [OF m])
  qed (use jump in \<open>auto simp: exec_instr_def op_defs bind_res_Inr_iff V_int
      intro!: closed_intros [OF m] dest!: get_reg_V [OF m] dest: gather_V [OF m] binop_value_V neg_value_V need_cap_V
      split: sum.splits option.splits val_splits if_splits\<close>)
qed

lemma closed_vm_step:
  assumes m: "\<forall>v\<in>vm_values m. V v" and t: "natives_closed V (vm_natives m)"
    and k: "\<forall>v\<in>set (ch_constants (vm_chunk m)). V v"
  shows "closed_outcome V (vm_step cells m)"
proof -
  let ?m1 = "m\<lparr>vm_instructions_executed := vm_instructions_executed m + 1\<rparr>"
  have m1: "\<forall>v\<in>vm_values ?m1. V v" using m by (simp add: vm_values_def)
  have m2: "\<forall>v\<in>vm_values (?m1\<lparr>vm_frames := fr\<lparr>fr_pc := p\<rparr> # frs\<rparr>). V v" if "vm_frames m = fr # frs" for fr frs p
    using m that by (auto simp: vm_values_def)
  show ?thesis
    using m1 m2 t k by (auto simp: vm_step_def fetch_def Let_def V_unit intro!: closed_pop closed_exec_instr closed_stop
        split: list.splits option.splits)
qed

lemma closed_vm_run:
  "\<forall>v\<in>vm_values m. V v \<Longrightarrow> natives_closed V (vm_natives m) \<Longrightarrow> \<forall>v\<in>set (ch_constants (vm_chunk m)). V v \<Longrightarrow>
   vm_run cells budget m = (m', res) \<Longrightarrow>
   (\<forall>v\<in>vm_values m'. V v) \<and> (\<forall>v\<in>set (result_values res). V v)"
proof (induction budget arbitrary: m)
  case 0
  then show ?case by auto
next
  case (Suc budget)
  obtain m1 c where st: "vm_step cells m = (m1, c)" by fastforce
  have out: "closed_outcome V (m1, c)" using closed_vm_step [OF Suc.prems(1-3), of cells] st by simp
  have "vm_static m1 = vm_static m" using static.vm_step_R [of cells m] st by simp
  then have eq: "vm_natives m1 = vm_natives m" "vm_chunk m1 = vm_chunk m" by (simp_all add: vm_static_def)
  show ?case
  proof (cases c)
    case Next
    have "\<forall>v\<in>vm_values m1. V v" using out by (simp add: closed_outcome_def)
    from Suc.IH [OF this] show ?thesis using Suc.prems eq st Next by simp
  next
    case (Stop r)
    then show ?thesis using out st Suc.prems(4) by (simp add: closed_outcome_def)
  qed
qed

end


fun value_caps :: "value \<Rightarrow> cap_id set" where
  "value_caps (VCap c) = {c}"
| "value_caps (VMessage (Msg _ rc _ _ pl)) = insert rc (value_caps pl)"
| "value_caps _ = {}"

definition vm_caps :: "vm \<Rightarrow> cap_id set" where
  "vm_caps m = (\<Union>v\<in>vm_values m. value_caps v)"

definition result_caps :: "vm_result \<Rightarrow> cap_id set" where
  "result_caps res = (\<Union>v\<in>set (result_values res). value_caps v)"

interpretation caps: closed_values "\<lambda>v. value_caps v \<subseteq> insert CAP_NONE S" for S
  by unfold_locales simp_all

interpretation utf8: closed_values value_ok
  by unfold_locales simp_all

lemma allowed_constant_caps: "forbidden_kind v = None \<Longrightarrow> value_caps v = {}"
  by (cases v) simp_all

lemma vm_run_caps:
  assumes "verified Untrusted (vm_chunk m)"
    and "natives_closed (\<lambda>v. value_caps v \<subseteq> insert CAP_NONE (vm_caps m)) (vm_natives m)"
    and "vm_run cells budget m = (m', res)"
  shows "vm_caps m' \<union> result_caps res \<subseteq> insert CAP_NONE (vm_caps m)"
proof -
  have "\<forall>v\<in>set (ch_constants (vm_chunk m)). value_caps v \<subseteq> insert CAP_NONE (vm_caps m)"
    using assms(1) by (auto simp: verified_def constants_ok_def allowed_constant_caps)
  moreover have "\<forall>v\<in>vm_values m. value_caps v \<subseteq> insert CAP_NONE (vm_caps m)"
    by (auto simp: vm_caps_def)
  ultimately have "(\<forall>v\<in>vm_values m'. value_caps v \<subseteq> insert CAP_NONE (vm_caps m)) \<and>
      (\<forall>v\<in>set (result_values res). value_caps v \<subseteq> insert CAP_NONE (vm_caps m))"
    using caps.closed_vm_run assms(2,3) by blast
  then show ?thesis by (auto simp: vm_caps_def [of m'] result_caps_def)
qed

section \<open>The standard natives\<close>

lemma std_native_cases:
  "native_get (std_native_table clock) i = Some f \<Longrightarrow>
   f \<in> {std_print, std_now_ms clock, std_make_msg, std_msg_sender, std_msg_request_id, std_msg_tag,
        std_msg_payload, std_msg_reply_cap}"
  by (auto simp: native_get_def std_native_table_eq split: option.splits dest!: nth_opt_set)

lemmas std_defs = std_print_def std_now_ms_def std_make_msg_def std_msg_sender_def
  std_msg_request_id_def std_msg_tag_def std_msg_payload_def std_msg_reply_cap_def

lemma expect_safe:
  "expect_arg args i fn = Inl e \<Longrightarrow> \<not> verifier_fault e"
  "expect_u64 args i fn = Inl e \<Longrightarrow> \<not> verifier_fault e"
  "expect_message args i fn = Inl e \<Longrightarrow> \<not> verifier_fault e"
  by (auto simp: expect_arg_def expect_u64_def expect_message_def ok_or_def bind_res_Inl_iff Let_def
      split: option.splits val_splits if_splits)

lemma std_natives_safe: "natives_safe (std_native_table clock)"
  by (auto simp: natives_safe_def std_defs bind_res_Inl_iff Let_def dest!: std_native_cases
      dest: expect_safe split: sum.splits if_splits)

lemma expect_message_mem: "expect_message args i fn = Inr msg \<Longrightarrow> VMessage msg \<in> set args"
  by (auto simp: expect_message_def expect_arg_def bind_res_Inr_iff ok_or_Inr_iff as_message_iff
      dest: nth_opt_set)

lemma expect_arg_mem: "expect_arg args i fn = Inr v \<Longrightarrow> v \<in> set args"
  by (auto simp: expect_arg_def ok_or_Inr_iff dest: nth_opt_set)

lemma message_caps: "value_caps (VMessage msg) = insert (m_reply_cap msg) (value_caps (m_payload msg))"
  by (cases msg) simp

lemma std_natives_caps_closed:
  "natives_closed (\<lambda>v. value_caps v \<subseteq> insert CAP_NONE S) (std_native_table clock)"
proof -
  have msg: "insert (m_reply_cap msg) (value_caps (m_payload msg)) \<subseteq> insert CAP_NONE S"
    if "\<forall>a\<in>set args. value_caps a \<subseteq> insert CAP_NONE S" "expect_message args i fn = Inr msg" for args i fn msg
    using that expect_message_mem [OF that(2)] message_caps by metis
  have arg: "value_caps v \<subseteq> insert CAP_NONE S"
    if "\<forall>a\<in>set args. value_caps a \<subseteq> insert CAP_NONE S" "expect_arg args i fn = Inr v" for args i fn v
    using that expect_arg_mem by metis
  show ?thesis
    unfolding natives_closed_def
  proof (intro allI impI)
    fix i f args v
    assume f: "native_get (std_native_table clock) i = Some f"
      and a: "\<forall>a\<in>set args. value_caps a \<subseteq> insert CAP_NONE S" and r: "f args = Inr v"
    show "value_caps v \<subseteq> insert CAP_NONE S"
      using std_native_cases [OF f] r msg [OF a] arg [OF a]
      by (auto simp: std_defs bind_res_Inr_iff Let_def message_new_def split: sum.splits if_splits) blast+
  qed
qed

section \<open>The instruction budget and the native gate\<close>

lemma vm_step_counts: "vm_instructions_executed (fst (vm_step cells m)) = vm_instructions_executed m + 1"
  by (auto simp: vm_step_def Let_def fetch_def count.pop_R count.exec_instr_R split: list.splits option.splits)

lemma vm_run_counts:
  "\<exists>k\<le>budget. vm_instructions_executed (fst (vm_run cells budget m)) = vm_instructions_executed m + of_nat k"
proof (induction budget arbitrary: m)
  case 0
  then show ?case by simp
next
  case (Suc budget)
  obtain m1 c where st: "vm_step cells m = (m1, c)" by fastforce
  have m1: "vm_instructions_executed m1 = vm_instructions_executed m + 1"
    using vm_step_counts [of cells m] st by simp
  show ?case
  proof (cases c)
    case Next
    obtain k where "k \<le> budget"
      "vm_instructions_executed (fst (vm_run cells budget m1)) = vm_instructions_executed m1 + of_nat k"
      using Suc.IH by blast
    then show ?thesis using st Next m1 by (intro exI [of _ "Suc k"]) simp
  next
    case (Stop r)
    then show ?thesis using st m1 by (intro exI [of _ 1]) simp
  qed
qed

section \<open>The life of a flow\<close>

text \<open>
  A scheduler drives a flow by slices of \<open>run\<close>, resuming it with a value after a result that suspends it.
  \<open>flow_reach m0 G m\<close>: such a life leads from \<open>m0\<close> to \<open>m\<close>, and \<open>G\<close> collects the capabilities in the values
  it was resumed with.
\<close>

fun suspends :: "vm_result \<Rightarrow> bool" where
  "suspends (VmComplete _) = False"
| "suspends (VmTrap _) = False"
| "suspends _ = True"

inductive flow_reach :: "vm \<Rightarrow> cap_id set \<Rightarrow> vm \<Rightarrow> bool" for m0 where
  start: "flow_reach m0 {} m0"
| slice: "flow_reach m0 G m \<Longrightarrow> vm_run cells budget m = (m', res) \<Longrightarrow> suspends res \<Longrightarrow> flow_reach m0 G m'"
| resume: "flow_reach m0 G m \<Longrightarrow> resume_with m dest v = (r, m') \<Longrightarrow> flow_reach m0 (G \<union> value_caps v) m'"

lemma flow_static: "flow_reach m0 G m \<Longrightarrow> vm_static m = vm_static m0"
proof (induction rule: flow_reach.induct)
  case (slice G m cells budget m' res)
  then show ?case using static.vm_run_R [of cells budget m] by simp
next
  case (resume G m dest v r m')
  then show ?case using static.set_reg_R by (auto simp: resume_with_def)
qed simp

lemma flow_ok:
  assumes "flow_reach m0 G m" and "vm_ok m0" and "verified trust (vm_chunk m0)"
    and "natives_safe (vm_natives m0)" and "length (ch_code (vm_chunk m0)) < 2 ^ 63"
  shows "vm_ok m"
  using assms(1)
proof (induction rule: flow_reach.induct)
  case (slice G m cells budget m' res)
  have "vm_chunk m = vm_chunk m0" "vm_natives m = vm_natives m0"
    using flow_static [OF slice.hyps(1)] by (simp_all add: vm_static_def)
  then show ?case
    using sound_vm_run [OF slice.IH, of trust cells budget m' res] assms(3-5) slice.hyps by auto
next
  case (resume G m dest v r m')
  then show ?case using set_reg_shapeD vm_ok_shape by (metis resume_with_def)
qed (rule assms(2))

lemma vm_values_caps: "(\<forall>v\<in>vm_values m. value_caps v \<subseteq> S) \<longleftrightarrow> vm_caps m \<subseteq> S"
  by (auto simp: vm_caps_def)

lemma resume_caps: "resume_with m d v = (r, m') \<Longrightarrow> vm_caps m' \<subseteq> insert CAP_NONE (vm_caps m \<union> value_caps v)"
  using caps.set_reg_V [of m "vm_caps m \<union> value_caps v" v d]
  by (auto simp: resume_with_def vm_caps_def)

lemma flow_caps:
  assumes "flow_reach m0 G m" and "verified Untrusted (vm_chunk m0)"
    and "\<And>S. natives_closed (\<lambda>v. value_caps v \<subseteq> insert CAP_NONE S) (vm_natives m0)"
  shows "vm_caps m \<subseteq> insert CAP_NONE (vm_caps m0 \<union> G)"
  using assms(1)
proof (induction rule: flow_reach.induct)
  case (slice G m cells budget m' res)
  have "vm_chunk m = vm_chunk m0" "vm_natives m = vm_natives m0"
    using flow_static [OF slice.hyps(1)] by (simp_all add: vm_static_def)
  then show ?case
    using vm_run_caps [of m cells budget m' res] assms(2,3) slice by auto
next
  case (resume G m dest v r m')
  then show ?case using resume_caps [OF resume.hyps(2)] by auto
qed auto

section \<open>A closed gate makes the host functions irrelevant\<close>

text \<open>The same machine over another native table.\<close>

definition with_natives :: "native_table \<Rightarrow> vm \<Rightarrow> vm" where
  "with_natives t m = m\<lparr>vm_natives := t\<rparr>"

definition gate_closed :: "cell_store \<Rightarrow> native_gate \<Rightarrow> bool" where
  "gate_closed cells g \<longleftrightarrow> \<not> (gate_is_live cells g \<and> g_has_native g \<and> mask_set (g_mask g) \<noteq> {})"

lemma with_natives_reads [simp]:
  "vm_frames (with_natives t m) = vm_frames m" "vm_chunk (with_natives t m) = vm_chunk m"
  "vm_native_gate (with_natives t m) = vm_native_gate m" "vm_quota (with_natives t m) = vm_quota m"
  "vm_natives (with_natives t m) = t" "get_reg (with_natives t m) r = get_reg m r"
  "peek_reg (with_natives t m) r = peek_reg m r"
  "vm_next_request_id (with_natives t m) = vm_next_request_id m"
  "vm_instructions_executed (with_natives t m) = vm_instructions_executed m"
  by (simp_all add: with_natives_def get_reg_def peek_reg_def)

lemma with_natives_updates [simp]:
  "(with_natives t m)\<lparr>vm_frames := f\<rparr> = with_natives t (m\<lparr>vm_frames := f\<rparr>)"
  "(with_natives t m)\<lparr>vm_quota := q\<rparr> = with_natives t (m\<lparr>vm_quota := q\<rparr>)"
  "(with_natives t m)\<lparr>vm_next_request_id := n\<rparr> = with_natives t (m\<lparr>vm_next_request_id := n\<rparr>)"
  "(with_natives t m)\<lparr>vm_instructions_executed := n\<rparr> = with_natives t (m\<lparr>vm_instructions_executed := n\<rparr>)"
  by (simp_all add: with_natives_def)

lemma gather_with_natives [simp]: "gather (with_natives t m) b offs = gather m b offs"
  by (induction offs) simp_all

lemma set_reg_with_natives [simp]:
  "set_reg (with_natives t m) r v = apsnd (with_natives t) (set_reg m r v)"
  by (simp add: set_reg_def charge_register_store_def split: option.split prod.split sum.split list.split)

lemma trap_or_with_natives:
  "(\<And>v. k' v = apfst (with_natives t) (k v)) \<Longrightarrow>
   trap_or (with_natives t m) r k' = apfst (with_natives t) (trap_or m r k)"
  by (simp add: trap_or_def split: sum.split)

lemma trap_unit_with_natives [simp]:
  "trap_unit (apsnd (with_natives t) r) = apfst (with_natives t) (trap_unit r)"
  by (cases r) (simp add: trap_unit_def split: sum.split)

lemma pop_with_natives [simp]:
  "after_pop (pop_frame (with_natives t m) v) = apfst (with_natives t) (after_pop (pop_frame m v))"
  by (auto simp: pop_frame_def after_pop_def Let_def split: list.split option.split prod.split sum.split)

lemma jump_with_natives [simp]: "jump_by imm (with_natives t m) = apfst (with_natives t) (jump_by imm m)"
  by (simp add: jump_by_def Let_def split: list.split)

lemma call_native_with_natives:
  assumes "gate_closed cells (vm_native_gate m)" and "length t = length (vm_natives m)"
  shows "op_call_native cells i (with_natives t m) = apfst (with_natives t) (op_call_native cells i m)"
proof -
  have "check_native_gate cells (vm_native_gate m) (vm_natives m) idx \<noteq> Inr ()" for idx
    using assms(1) by (auto simp: check_native_gate_ok_iff gate_closed_def)
  then obtain err where err: "check_native_gate cells (vm_native_gate m) (vm_natives m) (i_imm i) = Inl err"
    by (metis old.unit.exhaust sum.exhaust)
  have "check_native_gate cells (vm_native_gate m) t (i_imm i) = Inl err"
    using err assms(2) by (simp add: check_native_gate_def)
  moreover have "native_fault t e = native_fault (vm_natives m) e" for e
    using assms(2) by (cases e) (simp_all add: native_fault_def)
  ultimately show ?thesis using err by (simp add: op_call_native_def Let_def)
qed

lemma exec_instr_with_natives:
  assumes "gate_closed cells (vm_native_gate m)" and "length t = length (vm_natives m)"
  shows "exec_instr cells i (with_natives t m) = apfst (with_natives t) (exec_instr cells i m)"
proof (cases "i_op i = CallNative")
  case True
  then show ?thesis using call_native_with_natives [OF assms] by (simp add: exec_instr_def)
next
  case False
  then show ?thesis
    by (cases "i_op i")
      (simp_all add: exec_instr_def op_defs Let_def fresh_request_id_eq trap_or_with_natives
        split: option.split val_split)
qed

lemma vm_step_with_natives:
  assumes "\<And>k. gate_closed (cells k) (vm_native_gate m)" and "length t = length (vm_natives m)"
  shows "vm_step cells (with_natives t m) = apfst (with_natives t) (vm_step cells m)"
  using assms
  by (simp add: vm_step_def Let_def fetch_def exec_instr_with_natives split: list.split option.split)

lemma vm_run_with_natives:
  "(\<And>k. gate_closed (cells k) (vm_native_gate m)) \<Longrightarrow> length t = length (vm_natives m) \<Longrightarrow>
   vm_run cells budget (with_natives t m) = apfst (with_natives t) (vm_run cells budget m)"
proof (induction budget arbitrary: m)
  case 0
  then show ?case by simp
next
  case (Suc budget)
  obtain m1 c where st: "vm_step cells m = (m1, c)" by fastforce
  have "vm_static m1 = vm_static m" using static.vm_step_R [of cells m] st by simp
  then show ?case
    using Suc st vm_step_with_natives [of cells m t] by (cases c) (simp_all add: vm_static_def)
qed

end
