(* ===== verification/BF_Builder.thy ===== *)
theory BF_Builder
  imports BF_Cap BF_Verify
begin

text \<open>
  \<open>bytecode/builder.rs\<close>: the assembler behind the program API. Labels are bound to code positions and pending jumps
  are patched by \<open>finish\<close>. A hash map is a map; \<open>as u32\<close> and \<open>as i32\<close> truncate. The lemmas show that a finished
  chunk jumps to its labels and passes the verifier's jump checks whatever the host emitted.
\<close>

section \<open>The builder\<close>

type_synonym label = u32

record builder =
  b_name :: bytes
  b_constants :: "value list"
  b_code :: "instruction list"
  b_functions :: "function_def list"
  b_next_label :: u32
  b_label_targets :: "label \<rightharpoonup> u32"
  b_pending_jumps :: "(usize \<times> label) list"
  b_fn_starts :: "bytes \<rightharpoonup> u32"

definition builder_new :: "bytes \<Rightarrow> builder" where
  "builder_new nm =
     \<lparr>b_name = nm, b_constants = [], b_code = [], b_functions = [], b_next_label = 0, b_label_targets = Map.empty,
      b_pending_jumps = [], b_fn_starts = Map.empty\<rparr>"

definition const_idx :: "value \<Rightarrow> builder \<Rightarrow> u32 \<times> builder" where
  "const_idx v b =
     (case position (\<lambda>c. value_eq c v) (b_constants b) of
        Some pos \<Rightarrow> (word_of_nat pos, b)
      | None \<Rightarrow> (word_of_nat (length (b_constants b)), b\<lparr>b_constants := b_constants b @ [v]\<rparr>))"

definition new_label :: "builder \<Rightarrow> label \<times> builder" where
  "new_label b = (b_next_label b, b\<lparr>b_next_label := b_next_label b + 1\<rparr>)"

definition bind_label :: "label \<Rightarrow> builder \<Rightarrow> builder" where
  "bind_label l b = b\<lparr>b_label_targets := (b_label_targets b)(l \<mapsto> word_of_nat (length (b_code b)))\<rparr>"

definition emit :: "instruction \<Rightarrow> builder \<Rightarrow> builder" where
  "emit i b = b\<lparr>b_code := b_code b @ [i]\<rparr>"

definition emit_jump :: "label \<Rightarrow> builder \<Rightarrow> builder" where
  "emit_jump target b =
     (emit (instr_only_imm Jump 0) b)\<lparr>b_pending_jumps := b_pending_jumps b @ [(length (b_code b), target)]\<rparr>"

definition emit_branch :: "u8 \<Rightarrow> label \<Rightarrow> builder \<Rightarrow> builder" where
  "emit_branch c target b =
     (emit (instr_a_imm Branch c 0) b)\<lparr>b_pending_jumps := b_pending_jumps b @ [(length (b_code b), target)]\<rparr>"

definition emit_halt :: "builder \<Rightarrow> builder" where
  "emit_halt b = emit (instr_nullary Halt) b"

definition emit_load_const :: "u8 \<Rightarrow> u32 \<Rightarrow> builder \<Rightarrow> builder" where
  "emit_load_const dst konst b = emit (instr_new LoadConst dst 0 0 konst) b"

definition emit_load_imm :: "u8 \<Rightarrow> i32 \<Rightarrow> builder \<Rightarrow> builder" where
  "emit_load_imm dst imm b = emit (instr_a_imm LoadImm dst imm) b"

definition emit_move :: "u8 \<Rightarrow> u8 \<Rightarrow> builder \<Rightarrow> builder" where
  "emit_move dst src b = emit (instr_abc Move dst src 0) b"

definition emit_binop :: "opcode \<Rightarrow> u8 \<Rightarrow> u8 \<Rightarrow> u8 \<Rightarrow> builder \<Rightarrow> builder" where
  "emit_binop bop dst lhs rhs b = emit (instr_abc bop dst lhs rhs) b"

definition emit_neg :: "u8 \<Rightarrow> u8 \<Rightarrow> builder \<Rightarrow> builder" where
  "emit_neg dst src b = emit (instr_abc Neg dst src 0) b"

definition emit_spawn_with_rights :: "u8 \<Rightarrow> u32 \<Rightarrow> u8 \<Rightarrow> cap_rights \<Rightarrow> builder \<Rightarrow> builder" where
  "emit_spawn_with_rights dst function argc rights b = emit (instr_new Spawn dst argc (bits_u8 rights) function) b"

definition emit_delegate :: "u8 \<Rightarrow> u8 \<Rightarrow> cap_rights \<Rightarrow> builder \<Rightarrow> builder" where
  "emit_delegate dst src_cap rights b = emit (instr_new Delegate dst src_cap 255 rights) b"

definition emit_yield :: "builder \<Rightarrow> builder" where
  "emit_yield b = emit (instr_nullary Yield) b"

definition emit_sleep :: "u8 \<Rightarrow> builder \<Rightarrow> builder" where
  "emit_sleep millis_reg b = emit (instr_abc Sleep millis_reg 0 0) b"

definition emit_exit :: "u8 \<Rightarrow> builder \<Rightarrow> builder" where
  "emit_exit reg b = emit (instr_abc Exit reg 0 0) b"

definition emit_self_pid :: "u8 \<Rightarrow> builder \<Rightarrow> builder" where
  "emit_self_pid dst b = emit (instr_abc SelfPid dst 0 0) b"

definition emit_fresh_request_id :: "u8 \<Rightarrow> builder \<Rightarrow> builder" where
  "emit_fresh_request_id dst b = emit (instr_abc FreshRequestId dst 0 0) b"

definition emit_send :: "u8 \<Rightarrow> u8 \<Rightarrow> builder \<Rightarrow> builder" where
  "emit_send target_cap_reg msg_reg b = emit (instr_abc Send target_cap_reg msg_reg 0) b"

definition emit_receive :: "u8 \<Rightarrow> builder \<Rightarrow> builder" where
  "emit_receive dst b = emit (instr_abc Receive dst 0 0) b"

definition emit_receive_timeout :: "u8 \<Rightarrow> u8 \<Rightarrow> builder \<Rightarrow> builder" where
  "emit_receive_timeout dst millis_reg b = emit (instr_abc ReceiveTimeout dst millis_reg 0) b"

definition emit_receive_match :: "u8 \<Rightarrow> u8 \<Rightarrow> builder \<Rightarrow> builder" where
  "emit_receive_match dst tag_reg b = emit (instr_abc ReceiveMatch dst tag_reg 0) b"

definition emit_receive_match_imm :: "u8 \<Rightarrow> u16 \<Rightarrow> builder \<Rightarrow> builder" where
  "emit_receive_match_imm dst tg b = emit (instr_a_imm ReceiveMatchImm dst (ucast tg)) b"

definition emit_receive_match_corr :: "u8 \<Rightarrow> u8 \<Rightarrow> u8 \<Rightarrow> builder \<Rightarrow> builder" where
  "emit_receive_match_corr dst tag_reg id_reg b = emit (instr_abc ReceiveMatchCorr dst tag_reg id_reg) b"

definition emit_receive_match_corr_imm :: "u8 \<Rightarrow> u16 \<Rightarrow> u8 \<Rightarrow> builder \<Rightarrow> builder" where
  "emit_receive_match_corr_imm dst tg id_reg b = emit (instr_new ReceiveMatchCorrImm dst id_reg 0 (ucast tg)) b"

definition emit_ask :: "u8 \<Rightarrow> u8 \<Rightarrow> u8 \<Rightarrow> builder \<Rightarrow> builder" where
  "emit_ask dest target_cap_reg msg_reg b = emit (instr_abc Ask dest target_cap_reg msg_reg) b"

definition emit_ask_timeout :: "u8 \<Rightarrow> u8 \<Rightarrow> u8 \<Rightarrow> u8 \<Rightarrow> builder \<Rightarrow> builder" where
  "emit_ask_timeout dest target_cap_reg msg_reg millis_reg b = emit (instr_new AskTimeout dest target_cap_reg msg_reg (ucast millis_reg)) b"

definition emit_monitor :: "u8 \<Rightarrow> u8 \<Rightarrow> builder \<Rightarrow> builder" where
  "emit_monitor dest target_cap_reg b = emit (instr_abc Monitor dest target_cap_reg 0) b"

definition emit_demonitor :: "u8 \<Rightarrow> builder \<Rightarrow> builder" where
  "emit_demonitor monitor_reg b = emit (instr_abc Demonitor monitor_reg 0 0) b"

definition emit_link :: "u8 \<Rightarrow> u8 \<Rightarrow> builder \<Rightarrow> builder" where
  "emit_link dest target_cap_reg b = emit (instr_abc Link dest target_cap_reg 0) b"

definition emit_unlink :: "u8 \<Rightarrow> builder \<Rightarrow> builder" where
  "emit_unlink link_reg b = emit (instr_abc Unlink link_reg 0 0) b"

definition emit_register_name :: "u8 \<Rightarrow> builder \<Rightarrow> builder" where
  "emit_register_name name_reg b = emit (instr_abc RegisterName name_reg 0 0) b"

definition emit_whereis :: "u8 \<Rightarrow> u8 \<Rightarrow> builder \<Rightarrow> builder" where
  "emit_whereis dst name_reg b = emit (instr_abc Whereis dst name_reg 0) b"

definition emit_trap :: "i32 \<Rightarrow> builder \<Rightarrow> builder" where
  "emit_trap code b = emit (instr_only_imm Trap code) b"

definition emit_call :: "u8 \<Rightarrow> u32 \<Rightarrow> u8 \<Rightarrow> builder \<Rightarrow> builder" where
  "emit_call dst function argc b = emit (instr_new Call dst argc 0 function) b"

definition emit_call_native :: "u8 \<Rightarrow> u32 \<Rightarrow> u8 \<Rightarrow> builder \<Rightarrow> builder" where
  "emit_call_native dst native_index argc b = emit (instr_new CallNative dst argc 0 native_index) b"

definition emit_return :: "u8 \<Rightarrow> builder \<Rightarrow> builder" where
  "emit_return reg b = emit (instr_abc Return reg 0 0) b"

definition emit_spawn :: "u8 \<Rightarrow> u32 \<Rightarrow> u8 \<Rightarrow> builder \<Rightarrow> builder" where
  "emit_spawn dst function argc b = emit_spawn_with_rights dst function argc FLOW b"

definition emit_native1_from :: "u8 \<Rightarrow> u8 \<Rightarrow> u32 \<Rightarrow> builder \<Rightarrow> builder" where
  "emit_native1_from dst src native_index b = emit_call_native dst native_index 1 (emit_move dst src b)"

definition emit_native_n :: "u8 \<Rightarrow> u32 \<Rightarrow> u8 \<Rightarrow> builder \<Rightarrow> builder" where
  "emit_native_n base native_index argc b = emit_call_native base native_index argc b"

definition begin_function :: "bytes \<Rightarrow> u8 \<Rightarrow> u8 \<Rightarrow> builder \<Rightarrow> u32 \<times> builder" where
  "begin_function nm arity num_registers b =
     (let idx = word_of_nat (length (b_functions b)) in
      (idx,
       b\<lparr>b_functions := b_functions b @ [\<lparr>f_name = nm, f_entry = word_of_nat (length (b_code b)), f_arity = arity,
           f_num_registers = num_registers\<rparr>],
         b_fn_starts := (b_fn_starts b)(nm \<mapsto> idx)\<rparr>))"

definition function_index :: "bytes \<Rightarrow> builder \<Rightarrow> u32 option" where
  "function_index nm b = b_fn_starts b nm"

definition set_num_registers :: "u32 \<Rightarrow> u8 \<Rightarrow> builder \<Rightarrow> builder" where
  "set_num_registers fi n b =
     (if unat fi < length (b_functions b)
      then b\<lparr>b_functions := (b_functions b)[unat fi := (b_functions b ! unat fi)\<lparr>f_num_registers := n\<rparr>]\<rparr>
      else b)"

text \<open>The offset of a jump at \<open>idx\<close>: relative to the next instruction, truncated to 32 bits; 0 if the label is unbound.\<close>

definition jump_offset :: "(label \<rightharpoonup> u32) \<Rightarrow> usize \<Rightarrow> label \<Rightarrow> i32" where
  "jump_offset targets idx l =
     (case targets l of
        Some target \<Rightarrow> word_of_int (int (unat target) - (int idx + 1))
      | None \<Rightarrow> 0)"

definition patch_jump :: "(label \<rightharpoonup> u32) \<Rightarrow> instruction list \<Rightarrow> usize \<times> label \<Rightarrow> instruction list" where
  "patch_jump targets code j = (case j of (idx, l) \<Rightarrow> code[idx := (code ! idx)\<lparr>i_imm := jump_offset targets idx l\<rparr>])"

definition finish :: "builder \<Rightarrow> chunk" where
  "finish b =
     \<lparr>ch_name = b_name b, ch_constants = b_constants b,
      ch_code = foldl (patch_jump (b_label_targets b)) (b_code b) (b_pending_jumps b),
      ch_functions = b_functions b\<rparr>"

section \<open>What an assembly session builds\<close>

text \<open>A host's calls in any order; every emit method but the two jumps appends one instruction that is no jump.\<close>

inductive builds :: "bytes \<Rightarrow> builder \<Rightarrow> bool" for nm where
  build_new: "builds nm (builder_new nm)"
| build_const: "builds nm b \<Longrightarrow> const_idx v b = (k, b') \<Longrightarrow> builds nm b'"
| build_label: "builds nm b \<Longrightarrow> new_label b = (l, b') \<Longrightarrow> builds nm b'"
| build_bind: "builds nm b \<Longrightarrow> builds nm (bind_label l b)"
| build_emit: "builds nm b \<Longrightarrow> i_op i \<noteq> Jump \<Longrightarrow> i_op i \<noteq> Branch \<Longrightarrow> builds nm (emit i b)"
| build_jump: "builds nm b \<Longrightarrow> builds nm (emit_jump l b)"
| build_branch: "builds nm b \<Longrightarrow> builds nm (emit_branch c l b)"
| build_function: "builds nm b \<Longrightarrow> begin_function f ar nr b = (k, b') \<Longrightarrow> builds nm b'"
| build_registers: "builds nm b \<Longrightarrow> builds nm (set_num_registers fi n b)"

text \<open>The jumps of the code are exactly the pending ones, each once, and a label is bound within the code emitted so far.\<close>

definition builder_ok :: "builder \<Rightarrow> bool" where
  "builder_ok b \<longleftrightarrow>
     distinct (map fst (b_pending_jumps b)) \<and>
     (\<forall>j\<in>set (b_pending_jumps b). fst j < length (b_code b)) \<and>
     (\<forall>k<length (b_code b). i_op (b_code b ! k) \<in> {Jump, Branch} \<longleftrightarrow> k \<in> fst ` set (b_pending_jumps b)) \<and>
     (\<forall>l t. b_label_targets b l = Some t \<longrightarrow> unat t \<le> length (b_code b))"

lemma builder_ok_emit:
  assumes ok: "builder_ok b" and op: "i_op i \<noteq> Jump" "i_op i \<noteq> Branch"
  shows "builder_ok (emit i b)"
  using assms unfolding builder_ok_def emit_def
  by (auto simp: nth_append less_Suc_eq intro: le_SucI)

lemma builder_ok_jump:
  assumes ok: "builder_ok b" and op: "i_op i = Jump \<or> i_op i = Branch"
  shows "builder_ok ((emit i b)\<lparr>b_pending_jumps := b_pending_jumps b @ [(length (b_code b), l)]\<rparr>)"
  using assms unfolding builder_ok_def emit_def
  by (auto simp: nth_append less_Suc_eq intro: le_SucI)

lemma unat_of_nat_le: "unat (word_of_nat n :: 'a::len word) \<le> n"
  by (simp add: unat_of_nat)

lemmas build_simps = builder_new_def const_idx_def new_label_def begin_function_def set_num_registers_def

lemma builds_ok: "builds nm b \<Longrightarrow> builder_ok b"
proof (induction rule: builds.induct)
  case (build_bind b l)
  then show ?case by (auto simp: builder_ok_def bind_label_def unat_of_nat_le)
next
  case (build_emit b i)
  then show ?case by (simp add: builder_ok_emit)
next
  case (build_jump b l)
  then show ?case by (simp add: emit_jump_def builder_ok_jump instr_defs)
next
  case (build_branch b c l)
  then show ?case by (simp add: emit_branch_def builder_ok_jump instr_defs)
qed (auto simp: builder_ok_def build_simps Let_def split: option.splits)

section \<open>Patching\<close>

definition patched :: "(label \<rightharpoonup> u32) \<Rightarrow> (usize \<times> label) list \<Rightarrow> usize \<Rightarrow> instruction \<Rightarrow> instruction" where
  "patched targets js k i = (case map_of js k of Some l \<Rightarrow> i\<lparr>i_imm := jump_offset targets k l\<rparr> | None \<Rightarrow> i)"

lemma length_patch_jump [simp]: "length (patch_jump targets code j) = length code"
  by (simp add: patch_jump_def split: prod.split)

lemma length_patch_jumps [simp]: "length (foldl (patch_jump targets) code js) = length code"
  by (induction js arbitrary: code) simp_all

lemma nth_patch_jumps:
  "distinct (map fst js) \<Longrightarrow> k < length code \<Longrightarrow>
   foldl (patch_jump targets) code js ! k = patched targets js k (code ! k)"
proof (induction js arbitrary: code)
  case Nil
  then show ?case by (simp add: patched_def)
next
  case (Cons j js)
  obtain idx l where j: "j = (idx, l)" by fastforce
  have "map_of js idx = None" using Cons.prems(1) by (auto simp: j map_of_eq_None_iff)
  with Cons show ?case
    by (cases "k = idx") (auto simp: j patched_def patch_jump_def nth_list_update cong: option.case_cong)
qed

lemma i_op_patched [simp]: "i_op (patched targets js k i) = i_op i"
  by (simp add: patched_def split: option.split)

lemma length_finish [simp]: "length (ch_code (finish b)) = length (b_code b)"
  by (simp add: finish_def)

lemma nth_finish:
  "builder_ok b \<Longrightarrow> k < length (b_code b) \<Longrightarrow>
   ch_code (finish b) ! k = patched (b_label_targets b) (b_pending_jumps b) k (b_code b ! k)"
  by (simp add: finish_def nth_patch_jumps builder_ok_def)

lemma finish_fields [simp]:
  "ch_name (finish b) = b_name b" "ch_constants (finish b) = b_constants b" "ch_functions (finish b) = b_functions b"
  by (simp_all add: finish_def)

text \<open>A position of at most \<open>2 ^ 31 - 1\<close> is reached exactly by the 32-bit offset.\<close>

lemma sint_offset:
  assumes "t \<le> n" "idx < n" "n < 2147483648"
  shows "sint (word_of_int (int t - (int idx + 1)) :: i32) = int t - (int idx + 1)"
proof -
  have "signed_take_bit 31 (int t - (int idx + 1)) = int t - (int idx + 1)"
    using assms by (intro signed_take_bit_int_eq_self) simp_all
  then show ?thesis by (simp add: sint_uint uint_word_of_int_eq signed_take_bit_take_bit del: of_int_diff of_int_add)
qed

lemma jump_offset_exact:
  assumes "targets l = Some t" "unat t \<le> n" "idx < n" "n < 2 ^ 31"
  shows "int idx + 1 + sint (jump_offset targets idx l) = int (unat t)"
  using assms sint_offset [of "unat t" n idx] by (simp add: jump_offset_def del: of_nat_unat)

lemma finish_jump_in_range:
  assumes ok: "builder_ok b" and k: "k < length (b_code b)" and op: "i_op (b_code b ! k) \<in> {Jump, Branch}"
    and len: "length (b_code b) < 2 ^ 31"
  shows "jump_in_range (finish b) k (i_imm (ch_code (finish b) ! k))"
proof -
  from ok k op have "k \<in> fst ` set (b_pending_jumps b)" by (simp add: builder_ok_def)
  then obtain l where l: "map_of (b_pending_jumps b) k = Some l"
    by (metis map_of_eq_None_iff not_Some_eq)
  then have imm: "i_imm (ch_code (finish b) ! k) = jump_offset (b_label_targets b) k l"
    using ok k by (simp add: nth_finish patched_def)
  show ?thesis
  proof (cases "b_label_targets b l")
    case None
    with k show ?thesis by (simp add: jump_in_range_def imm jump_offset_def)
  next
    case (Some t)
    with ok have t: "unat t \<le> length (b_code b)" by (auto simp: builder_ok_def)
    with jump_offset_exact [where targets = "b_label_targets b", OF Some t k len] show ?thesis
      by (simp add: jump_in_range_def imm del: of_nat_unat)
  qed
qed

text \<open>An operand other than a jump is the host's business: a constant or function index it took from the builder.\<close>

definition operand_ok :: "builder \<Rightarrow> instruction \<Rightarrow> bool" where
  "operand_ok b i \<longleftrightarrow>
     (i_op i = LoadConst \<longrightarrow> unat (i_imm i) < length (b_constants b)) \<and>
     (i_op i \<in> {Spawn, Call} \<longrightarrow> unat (i_imm i) < length (b_functions b))"

lemma finish_instruction_ok:
  assumes ok: "builder_ok b" and k: "k < length (b_code b)" and len: "length (b_code b) < 2 ^ 31"
  shows "instruction_ok (finish b) k (ch_code (finish b) ! k) \<longleftrightarrow> operand_ok b (b_code b ! k)"
proof (cases "i_op (b_code b ! k) \<in> {Jump, Branch}")
  case True
  with finish_jump_in_range [OF ok k True len] show ?thesis
    by (auto simp: instruction_ok_def operand_ok_def nth_finish [OF ok k])
next
  case False
  with ok k have "map_of (b_pending_jumps b) k = None"
    by (auto simp: builder_ok_def map_of_eq_None_iff)
  with False show ?thesis
    by (auto simp: instruction_ok_def operand_ok_def nth_finish [OF ok k] patched_def)
qed

section \<open>The constant pool\<close>

lemma const_idx_cases:
  assumes "const_idx v b = (k, b')" "length (b_constants b) < 2 ^ 32"
  obtains (reused) "b' = b" "unat k < length (b_constants b)" "value_eq (b_constants b ! unat k) v"
  | (pushed) "b_constants b' = b_constants b @ [v]" "unat k = length (b_constants b)"
      "\<forall>c\<in>set (b_constants b). \<not> value_eq c v"
proof (cases "position (\<lambda>c. value_eq c v) (b_constants b)")
  case None
  with assms pushed show ?thesis
    by (auto simp: const_idx_def position_None_iff unat_of_nat take_bit_nat_eq_self)
next
  case (Some pos)
  with position_Some [OF Some] assms reused show ?thesis
    by (auto simp: const_idx_def unat_of_nat take_bit_nat_eq_self)
qed

section \<open>Properties\<close>

text \<open>C39: a label resolves to its position: in the chunk an assembly session finishes, every jump or branch to a
  bound label carries an offset that lands exactly on the instruction the label was bound to, for every code of
  fewer than \<open>2 ^ 31\<close> instructions, and patching changes no opcode.\<close>
theorem finish_resolves_labels:
  assumes "builds nm b" "length (b_code b) < 2 ^ 31" "(idx, l) \<in> set (b_pending_jumps b)"
    "b_label_targets b l = Some t"
  shows "int idx + 1 + sint (i_imm (ch_code (finish b) ! idx)) = int (unat t) \<and>
     i_op (ch_code (finish b) ! idx) = i_op (b_code b ! idx)"
proof -
  from assms(1) have ok: "builder_ok b" by (rule builds_ok)
  with assms have idx: "idx < length (b_code b)" and t: "unat t \<le> length (b_code b)"
    and l: "map_of (b_pending_jumps b) idx = Some l"
    by (auto simp: builder_ok_def)
  from jump_offset_exact [where targets = "b_label_targets b", OF assms(4) t idx assms(2)] show ?thesis
    by (simp add: nth_finish [OF ok idx] patched_def l del: of_nat_unat)
qed

text \<open>C40: the assembler never produces a jump the verifier rejects: a finished chunk of fewer than \<open>2 ^ 31\<close>
  instructions is accepted exactly when it has a function, its constants are allowed, its functions fit and its
  constant and function operands are in range; labels left unbound are accepted as well (they fall through).\<close>
theorem finished_chunk_verifies_iff:
  assumes "builds nm b" "length (b_code b) < 2 ^ 31"
  shows "verify_with (finish b) config = Inr () \<longleftrightarrow>
     b_functions b \<noteq> [] \<and> constants_ok (vc_trust config) (b_constants b) \<and>
     (\<forall>def\<in>set (b_functions b). function_ok (length (b_code b)) def) \<and>
     (\<forall>i\<in>set (b_code b). operand_ok b i)"
proof -
  have "(\<forall>k<length (b_code b). instruction_ok (finish b) k (ch_code (finish b) ! k)) \<longleftrightarrow>
      (\<forall>i\<in>set (b_code b). operand_ok b i)"
    using finish_instruction_ok [OF builds_ok [OF assms(1)] _ assms(2)] by (simp add: all_set_conv_all_nth)
  then show ?thesis by (simp add: verify_with_iff verified_def)
qed

text \<open>The constant pool keeps what it was given: the index returned for a constant is in range, earlier indices
  keep their constants, and the entry is the constant itself or one \<open>PartialEq\<close> equates with it (\<open>0.0\<close> and
  \<open>-0.0\<close> share an entry, a NaN never does).\<close>
theorem constant_index_holds:
  assumes "const_idx v b = (k, b')" "length (b_constants b) < 2 ^ 32"
  shows "unat k < length (b_constants b') \<and> take (length (b_constants b)) (b_constants b') = b_constants b \<and>
    (b_constants b' ! unat k = v \<or> value_eq (b_constants b' ! unat k) v)"
  using assms by (cases rule: const_idx_cases) auto

definition loop_builder :: builder where
  "loop_builder =
     emit_halt (emit_jump 0 (emit_branch 0 1 (bind_label 1 (emit_load_imm 0 3 (bind_label 0
       (snd (begin_function [109] 0 1 (snd (new_label (snd (new_label (builder_new []))))))))))))"

lemma builds_loop_builder: "builds [] loop_builder"
proof -
  have "builds [] (snd (const_idx v b))" "builds [] (snd (new_label b))" "builds [] (snd (begin_function f ar nr b))"
    if "builds [] b" for b v f ar nr
    using that builds.intros by (metis prod.collapse)+
  then show ?thesis
    unfolding loop_builder_def emit_halt_def emit_load_imm_def
    by (intro build_emit build_jump build_branch build_bind) (simp_all add: instr_defs build_new)
qed

lemmas loop_builder_simps = loop_builder_def emit_halt_def emit_load_imm_def emit_jump_def emit_branch_def
  bind_label_def emit_def build_simps Let_def instr_defs

theorem finish_resolves_labels_witness:
  "int 2 + 1 + sint (i_imm (ch_code (finish loop_builder) ! 2)) = int (unat (0 :: u32)) \<and>
   i_op (ch_code (finish loop_builder) ! 2) = Jump"
proof -
  have "int 2 + 1 + sint (i_imm (ch_code (finish loop_builder) ! 2)) = int (unat (0 :: u32)) \<and>
     i_op (ch_code (finish loop_builder) ! 2) = i_op (b_code loop_builder ! 2)"
    by (rule finish_resolves_labels [OF builds_loop_builder, of 2 0 0]) (simp_all add: loop_builder_simps)
  moreover have "i_op (b_code loop_builder ! 2) = Jump" by (simp add: loop_builder_simps)
  ultimately show ?thesis by simp
qed

theorem finished_chunk_verifies_iff_witness: "verify_with (finish loop_builder) verify_config_default = Inr ()"
proof -
  have "length (b_code loop_builder) < 2 ^ 31" by (simp add: loop_builder_simps)
  from finished_chunk_verifies_iff [OF builds_loop_builder this] show ?thesis
    by (simp add: loop_builder_simps constants_ok_def function_ok_def operand_ok_def)
qed

theorem constant_index_holds_witness:
  "value_eq (VFloat 0x8000000000000000) (VFloat 0) \<and>
   unat (fst (const_idx (VFloat 0) ((builder_new [])\<lparr>b_constants := [VFloat 0x8000000000000000]\<rparr>))) < 1"
proof -
  let ?b = "(builder_new [])\<lparr>b_constants := [VFloat 0x8000000000000000]\<rparr>"
  have eq: "value_eq (VFloat 0x8000000000000000) (VFloat 0)"
    by (simp add: f64_eq_def f64_is_nan_def f64_key_def f64_sign_def f64_mag_def)
  then have "const_idx (VFloat 0) ?b = (0, ?b)" by (simp add: const_idx_def)
  from constant_index_holds [OF this] this eq show ?thesis by (simp add: builder_new_def)
qed

end
