(* ===== verification/BF_Process.thy ===== *)
theory BF_Process
  imports BF_Machine
begin

text \<open>
  \<open>scheduler/process.rs\<close> and \<open>scheduler/error.rs\<close>: flow identities, the flow record the scheduler moves
  between deques, mailboxes and the timer, and the error values of the scheduler. Shared objects behind an
  \<open>Arc\<close> (mailbox, completion channel, revocation cell, supervisor, quota) are named by their identity.
\<close>

section \<open>Errors\<close>

datatype runtime_error =
    PoisonedLock string
  | Abandoned string
  | AlreadyCollected string
  | EntropyFailed
  | CapIdCollision
  | CannotFinalizeHostFlow

type_synonym flow_id = u64

datatype lifecycle_error =
    NoSuchFlow flow_id
  | InvalidCapability
  | InvalidMonitor
  | InvalidLink
  | NotOwner
  | AlreadyRegistered
  | AlreadyLinked
  | EmptyName
  | SelfRelation
  | Unavailable

fun runtime_error_string :: "runtime_error \<Rightarrow> string" where
  "runtime_error_string (PoisonedLock loc) = ''runtime mutex poisoned at '' @ loc"
| "runtime_error_string (Abandoned loc) = loc @ '': flow was destroyed before producing an outcome''"
| "runtime_error_string (AlreadyCollected loc) = loc @ '': outcome was already collected''"
| "runtime_error_string EntropyFailed = ''capability CSPRNG unavailable''"
| "runtime_error_string CapIdCollision = ''could not allocate a unique capability id''"
| "runtime_error_string CannotFinalizeHostFlow = ''cannot finalize reserved host flow''"

definition flow_id_string :: "flow_id \<Rightarrow> string" where
  "flow_id_string fid = ''flow#'' @ dec_digits (unat fid)"

fun lifecycle_error_string :: "lifecycle_error \<Rightarrow> string" where
  "lifecycle_error_string (NoSuchFlow fid) = ''no live flow '' @ flow_id_string fid"
| "lifecycle_error_string InvalidCapability = ''unknown or revoked capability''"
| "lifecycle_error_string InvalidMonitor = ''unknown monitor''"
| "lifecycle_error_string InvalidLink = ''unknown link''"
| "lifecycle_error_string NotOwner = ''caller does not own this relation''"
| "lifecycle_error_string AlreadyRegistered = ''registry name already taken''"
| "lifecycle_error_string AlreadyLinked = ''flows are already linked''"
| "lifecycle_error_string EmptyName = ''registry name must be non-empty''"
| "lifecycle_error_string SelfRelation = ''cannot link or monitor a flow to itself''"
| "lifecycle_error_string Unavailable = ''runtime table unavailable (poisoned lock)''"

section \<open>Flows\<close>

definition HOST :: flow_id where
  "HOST = 0"

definition is_host :: "flow_id \<Rightarrow> bool" where
  "is_host fid = (fid = 0)"

text \<open>The global counter starts at 1; \<open>fetch_add\<close> returns the old value and wraps.\<close>

definition next_flow_id :: "u64 \<Rightarrow> flow_id \<times> u64" where
  "next_flow_id counter = (counter, counter + 1)"

datatype restart_policy = Always | OnFailure | Never

record flow_metrics =
  fm_instructions :: u64
  fm_messages_sent :: u64
  fm_messages_received :: u64
  fm_reschedules :: u64

datatype pending_send =
    FireAndForget
  | PendingAsk u8 u64 u64 "u64 option"

datatype flow_outcome = Completed "value" | Failed string

record flow =
  fl_id :: flow_id
  fl_vm :: vm
  fl_mailbox :: nat
  fl_metrics :: flow_metrics
  fl_restart_policy :: restart_policy
  fl_completion :: nat
  fl_pending_message :: "value option"
  fl_last_receive_dest :: "u8 option"
  fl_pending_send :: "pending_send option"
  fl_supervisor :: "nat option"
  fl_authority :: cap
  fl_cell :: cell_id
  fl_quota :: nat

definition flow_new :: "flow_id \<Rightarrow> vm \<Rightarrow> nat \<Rightarrow> restart_policy \<Rightarrow> nat \<Rightarrow> cell_id \<Rightarrow> nat \<Rightarrow> flow" where
  "flow_new fid m mailbox policy completion cell quota =
     \<lparr>fl_id = fid, fl_vm = m, fl_mailbox = mailbox,
      fl_metrics = \<lparr>fm_instructions = 0, fm_messages_sent = 0, fm_messages_received = 0, fm_reschedules = 0\<rparr>,
      fl_restart_policy = policy, fl_completion = completion, fl_pending_message = None,
      fl_last_receive_dest = None, fl_pending_send = None, fl_supervisor = None,
      fl_authority = cap_root (TFlow fid) NONE None cell_new, fl_cell = cell,
      fl_quota = quota\<rparr>"

lemma next_flow_id_unique:
  assumes "i < j" and "j < 2 ^ 64"
  shows "((snd \<circ> next_flow_id) ^^ i) c \<noteq> ((snd \<circ> next_flow_id) ^^ j) c"
proof -
  have iter: "((snd \<circ> next_flow_id) ^^ n) c = c + word_of_nat n" for n
    by (induction n) (simp_all add: next_flow_id_def algebra_simps)
  have "(word_of_nat i :: u64) \<noteq> word_of_nat j"
    using assms by (simp add: word_of_nat_eq_iff take_bit_nat_eq_self)
  then show ?thesis by (simp add: iter)
qed

end
