(* ===== verification/BF_Mailbox_Queue.thy ===== *)
theory BF_Mailbox_Queue
  imports BF_Process
begin

text \<open>
  \<open>scheduler/mailbox/{capacity,policy,queue,metrics}.rs\<close> and the wait filters of \<open>mailbox/mod.rs\<close>: the
  bounded hop queue of an inbox. A \<open>VecDeque\<close> is its elements and its allocated capacity; the growth of the
  capacity is the amortised doubling of the standard library.
\<close>

section \<open>Configuration\<close>

definition CAPACITY_MIN :: u32 where "CAPACITY_MIN = 1"
definition CAPACITY_MAX :: u32 where "CAPACITY_MAX = 1048576"
definition CAPACITY_DEFAULT :: u32 where "CAPACITY_DEFAULT = 256"

definition capacity_new :: "u32 \<Rightarrow> u32 option" where
  "capacity_new n = (if n < CAPACITY_MIN \<or> CAPACITY_MAX < n then None else Some n)"

definition BYTES_MIN :: usize where "BYTES_MIN = 1024"
definition BYTES_MAX :: usize where "BYTES_MAX = 1073741824"
definition BYTES_DEFAULT :: usize where "BYTES_DEFAULT = 4194304"

definition bytes_new :: "usize \<Rightarrow> usize option" where
  "bytes_new n = (if n < BYTES_MIN \<or> BYTES_MAX < n then None else Some n)"

datatype overflow_policy = Reject | DropNewest | DropOldest

record mailbox_config =
  mc_capacity :: u32
  mc_bytes :: usize
  mc_overflow :: overflow_policy

definition config_new :: "u32 \<Rightarrow> overflow_policy \<Rightarrow> mailbox_config" where
  "config_new capacity overflow =
     \<lparr>mc_capacity = capacity, mc_bytes = BYTES_DEFAULT, mc_overflow = overflow\<rparr>"

definition config_default :: mailbox_config where
  "config_default = \<lparr>mc_capacity = CAPACITY_DEFAULT, mc_bytes = BYTES_DEFAULT, mc_overflow = Reject\<rparr>"

definition config_with_bytes :: "mailbox_config \<Rightarrow> usize \<Rightarrow> mailbox_config" where
  "config_with_bytes cfg n = cfg\<lparr>mc_bytes := n\<rparr>"

text \<open>Capacities and budgets are private and only built by their checked constructors.\<close>

definition config_ok :: "mailbox_config \<Rightarrow> bool" where
  "config_ok cfg \<longleftrightarrow> capacity_new (mc_capacity cfg) = Some (mc_capacity cfg)
     \<and> bytes_new (mc_bytes cfg) = Some (mc_bytes cfg)"

section \<open>Wait filters\<close>

datatype wait_filter =
    FAny
  | FTag u16
  | FCorrelation u64 "u64 option"
  | FTaggedCorrelation u16 u64

fun matches :: "wait_filter \<Rightarrow> value \<Rightarrow> bool" where
  "matches FAny v = True"
| "matches (FTag tg) v = (case as_message v of Some m \<Rightarrow> m_tag m = tg | None \<Rightarrow> False)"
| "matches (FCorrelation rid sender) v =
     (case as_message v of
        Some m \<Rightarrow> m_request_id m = rid \<and> (case sender of Some s \<Rightarrow> m_sender m = s | None \<Rightarrow> True)
      | None \<Rightarrow> False)"
| "matches (FTaggedCorrelation tg rid) v =
     (case as_message v of Some m \<Rightarrow> m_tag m = tg \<and> m_request_id m = rid | None \<Rightarrow> False)"

section \<open>The queue\<close>

record mailbox_queue =
  q_inner :: "value list"
  q_alloc :: usize
  q_limit :: usize
  q_bytes :: usize
  q_byte_limit :: usize

definition queue_new :: "usize \<Rightarrow> usize \<Rightarrow> mailbox_queue" where
  "queue_new limit byte_limit =
     \<lparr>q_inner = [], q_alloc = 0, q_limit = limit, q_bytes = 0, q_byte_limit = byte_limit\<rparr>"

definition is_full :: "mailbox_queue \<Rightarrow> bool" where
  "is_full q = (q_limit q \<le> length (q_inner q))"

definition would_exceed_bytes :: "mailbox_queue \<Rightarrow> usize \<Rightarrow> bool" where
  "would_exceed_bytes q cost = (q_byte_limit q < usize_sat_add (q_bytes q) cost)"

text \<open>\<open>VecDeque::reserve\<close> and the growth inside \<open>push_back\<close>.\<close>

definition vecdeque_reserve :: "usize \<Rightarrow> usize \<Rightarrow> usize \<Rightarrow> usize" where
  "vecdeque_reserve cap len additional =
     (if len + additional \<le> cap then cap else max (max (2 * cap) (len + additional)) 4)"

definition push_back :: "mailbox_queue \<Rightarrow> value \<Rightarrow> mailbox_queue" where
  "push_back q v =
     q\<lparr>q_inner := q_inner q @ [v], q_alloc := vecdeque_reserve (q_alloc q) (length (q_inner q)) 1\<rparr>"

definition reserve_for_push :: "mailbox_queue \<Rightarrow> usize \<Rightarrow> bool \<times> mailbox_queue" where
  "reserve_for_push q capacity =
     (if length (q_inner q) < q_alloc q then (True, q)
      else
        let current = q_alloc q;
            nxt = min (usize_sat_mul (max current 1) 2) capacity
        in if nxt \<le> current then (length (q_inner q) < capacity, q)
           else (True, q\<lparr>q_alloc := vecdeque_reserve current (length (q_inner q)) (nxt - current)\<rparr>))"

definition queue_take :: "mailbox_queue \<Rightarrow> wait_filter \<Rightarrow> value option \<times> mailbox_queue" where
  "queue_take q filt =
     (case (case filt of
              FAny \<Rightarrow> (case q_inner q of [] \<Rightarrow> None | v # vs \<Rightarrow> Some (v, vs))
            | other \<Rightarrow> (case position (matches other) (q_inner q) of
                 None \<Rightarrow> None
               | Some idx \<Rightarrow> Some (q_inner q ! idx, remove_nth idx (q_inner q)))) of
        None \<Rightarrow> (None, q)
      | Some (v, vs) \<Rightarrow> (Some v, q\<lparr>q_inner := vs, q_bytes := usize_sat_sub (q_bytes q) (memory_size v)\<rparr>))"

datatype enqueue_effect = Enqueued | DroppedNewestEff | DroppedOldestEff

datatype mailbox_full_reason = MessageLimit | ByteLimit

text \<open>The eviction loop of \<open>DropOldest\<close>.\<close>

function evict :: "mailbox_queue \<Rightarrow> usize \<Rightarrow> bool \<Rightarrow> mailbox_queue \<times> bool" where
  "evict q cost dropped =
     (case q_inner q of
        [] \<Rightarrow> (q, dropped)
      | old # vs \<Rightarrow>
          if is_full q \<or> would_exceed_bytes q cost
          then evict (q\<lparr>q_inner := vs, q_bytes := usize_sat_sub (q_bytes q) (memory_size old)\<rparr>) cost True
          else (q, dropped))"
  by pat_completeness auto
termination
  by (relation "measure (\<lambda>(q, _, _). length (q_inner q))") auto

declare evict.simps [simp del]

definition queue_enqueue ::
  "mailbox_queue \<Rightarrow> value \<Rightarrow> overflow_policy \<Rightarrow> (mailbox_full_reason + enqueue_effect) \<times> mailbox_queue" where
  "queue_enqueue q v policy =
     (let cost = memory_size v in
      if \<not> is_full q \<and> \<not> would_exceed_bytes q cost
      then case reserve_for_push q (q_limit q) of
          (False, q1) \<Rightarrow> (Inl MessageLimit, q1)
        | (True, q1) \<Rightarrow> (Inr Enqueued, push_back (q1\<lparr>q_bytes := usize_sat_add (q_bytes q1) cost\<rparr>) v)
      else
        let reason = (if is_full q then MessageLimit else ByteLimit) in
        case policy of
          Reject \<Rightarrow> (Inl reason, q)
        | DropNewest \<Rightarrow> (Inr DroppedNewestEff, q)
        | DropOldest \<Rightarrow>
            (case evict q cost False of
               (q1, dropped) \<Rightarrow>
                 if would_exceed_bytes q1 cost then (Inl ByteLimit, q1)
                 else (Inr (if dropped then DroppedOldestEff else Enqueued),
                       push_back (q1\<lparr>q_bytes := usize_sat_add (q_bytes q1) cost\<rparr>) v)))"

definition force_push :: "mailbox_queue \<Rightarrow> value \<Rightarrow> mailbox_queue" where
  "force_push q v =
     (let cost = memory_size v;
          cap = max (q_limit q) (usize_sat_add (length (q_inner q)) 1);
          q1 = snd (reserve_for_push q cap)
      in push_back (q1\<lparr>q_bytes := usize_sat_add (q_bytes q1) cost\<rparr>) v)"

section \<open>Accounting\<close>

definition hop_bytes :: "value list \<Rightarrow> nat" where
  "hop_bytes vs = sum_list (map memory_size vs)"

text \<open>The byte counter is exactly the cost of the queued hops, and the allocation holds them.\<close>

definition queue_ok :: "mailbox_queue \<Rightarrow> bool" where
  "queue_ok q \<longleftrightarrow> q_bytes q = hop_bytes (q_inner q) \<and> length (q_inner q) \<le> q_alloc q \<and>
     1 \<le> q_limit q \<and> q_limit q \<le> usize_max \<and> q_byte_limit q < usize_max"

definition queue_bounded :: "mailbox_queue \<Rightarrow> bool" where
  "queue_bounded q \<longleftrightarrow> length (q_inner q) \<le> q_limit q \<and> q_bytes q \<le> q_byte_limit q"

lemma hop_bytes_simps [simp]:
  "hop_bytes [] = 0" "hop_bytes (v # vs) = memory_size v + hop_bytes vs"
  "hop_bytes (vs @ ws) = hop_bytes vs + hop_bytes ws"
  by (simp_all add: hop_bytes_def)

lemma hop_bytes_remove_nth: "i < length vs \<Longrightarrow> hop_bytes (remove_nth i vs) + memory_size (vs ! i) = hop_bytes vs"
  using sum_list_remove_nth [of i vs memory_size] by (simp add: hop_bytes_def)

lemma vecdeque_reserve_ge: "len + additional \<le> vecdeque_reserve cap len additional" "cap \<le> vecdeque_reserve cap len additional"
  by (auto simp: vecdeque_reserve_def)

lemma reserve_for_push_frame:
  "reserve_for_push q c = (b, q') \<Longrightarrow>
     q_inner q' = q_inner q \<and> q_limit q' = q_limit q \<and> q_bytes q' = q_bytes q \<and>
     q_byte_limit q' = q_byte_limit q \<and> q_alloc q \<le> q_alloc q'"
  by (auto simp: reserve_for_push_def Let_def vecdeque_reserve_ge split: if_splits)

lemma reserve_for_push_ok: "length (q_inner q) < c \<Longrightarrow> fst (reserve_for_push q c)"
  by (simp add: reserve_for_push_def Let_def)

lemma push_back_simps [simp]:
  "q_inner (push_back q v) = q_inner q @ [v]" "q_limit (push_back q v) = q_limit q"
  "q_bytes (push_back q v) = q_bytes q" "q_byte_limit (push_back q v) = q_byte_limit q"
  "length (q_inner q) < q_alloc (push_back q v)"
  using vecdeque_reserve_ge(1) [of "length (q_inner q)" 1 "q_alloc q"] by (simp_all add: push_back_def)

lemma queue_new_ok: "1 \<le> l \<Longrightarrow> l \<le> usize_max \<Longrightarrow> b < usize_max \<Longrightarrow> queue_ok (queue_new l b)"
  by (simp add: queue_ok_def queue_new_def)

lemma would_exceed_iff:
  "q_byte_limit q < usize_max \<Longrightarrow> would_exceed_bytes q cost \<longleftrightarrow> q_byte_limit q < q_bytes q + cost"
  by (auto simp: would_exceed_bytes_def usize_sat_add_def)

lemma not_exceed_exact:
  "q_byte_limit q < usize_max \<Longrightarrow> \<not> would_exceed_bytes q cost \<Longrightarrow>
     usize_sat_add (q_bytes q) cost = q_bytes q + cost \<and> q_bytes q + cost \<le> q_byte_limit q"
  by (auto simp: would_exceed_bytes_def usize_sat_add_def split: if_splits)

section \<open>Taking a hop\<close>

lemma queue_take_position:
  "queue_take q filt =
     (case position (matches filt) (q_inner q) of
        None \<Rightarrow> (None, q)
      | Some i \<Rightarrow> (Some (q_inner q ! i), q\<lparr>q_inner := remove_nth i (q_inner q),
           q_bytes := usize_sat_sub (q_bytes q) (memory_size (q_inner q ! i))\<rparr>))"
  by (cases filt; cases "q_inner q") (auto simp: queue_take_def remove_nth_def split: option.splits)

lemma queue_take_Some:
  assumes "queue_take q filt = (Some v, q')"
  shows "\<exists>xs ys. q_inner q = xs @ v # ys \<and> q_inner q' = xs @ ys \<and> matches filt v \<and> (\<forall>x\<in>set xs. \<not> matches filt x)
           \<and> q' = q\<lparr>q_inner := xs @ ys, q_bytes := usize_sat_sub (q_bytes q) (memory_size v)\<rparr>"
proof -
  obtain i where pos: "position (matches filt) (q_inner q) = Some i"
    and v: "v = q_inner q ! i"
    and q': "q' = q\<lparr>q_inner := remove_nth i (q_inner q), q_bytes := usize_sat_sub (q_bytes q) (memory_size v)\<rparr>"
    using assms by (auto simp: queue_take_position split: option.splits)
  have i: "i < length (q_inner q)" "matches filt (q_inner q ! i)" "\<forall>j<i. \<not> matches filt (q_inner q ! j)"
    using position_Some [OF pos] by auto
  have "\<forall>x\<in>set (take i (q_inner q)). \<not> matches filt x"
    using i by (auto simp: in_set_conv_nth)
  then show ?thesis
    using i v q' remove_nth_split [OF i(1)]
    by (intro exI [of _ "take i (q_inner q)"] exI [of _ "drop (Suc i) (q_inner q)"])
      (simp add: remove_nth_def)
qed

lemma queue_take_None:
  "queue_take q filt = (None, q') \<longleftrightarrow> q' = q \<and> (\<forall>v\<in>set (q_inner q). \<not> matches filt v)"
  by (auto simp: queue_take_position split: option.splits simp flip: position_None_iff)

lemma queue_take_ok:
  assumes "queue_ok q" and "queue_take q filt = (r, q')"
  shows "queue_ok q'" and "queue_bounded q \<Longrightarrow> queue_bounded q'"
proof -
  have "queue_ok q' \<and> (queue_bounded q \<longrightarrow> queue_bounded q')"
  proof (cases r)
    case None
    then show ?thesis using assms queue_take_None by auto
  next
    case (Some v)
    then obtain xs ys where "q_inner q = xs @ v # ys"
      "q' = q\<lparr>q_inner := xs @ ys, q_bytes := usize_sat_sub (q_bytes q) (memory_size v)\<rparr>"
      using queue_take_Some assms(2) by blast
    then show ?thesis using assms(1) by (auto simp: queue_ok_def queue_bounded_def usize_sat_sub_def)
  qed
  then show "queue_ok q'" "queue_bounded q \<Longrightarrow> queue_bounded q'" by auto
qed

section \<open>Accepting a hop\<close>

lemma evict_spec:
  assumes "queue_ok q" and "evict q cost d = (q', d')"
  shows "queue_ok q'" and "\<exists>xs. q_inner q = xs @ q_inner q' \<and> (d' \<longleftrightarrow> d \<or> xs \<noteq> [])"
    and "\<not> is_full q'" and "would_exceed_bytes q' cost \<longrightarrow> q_inner q' = []"
    and "q_limit q' = q_limit q" and "q_byte_limit q' = q_byte_limit q"
proof -
  have "queue_ok q' \<and> (\<exists>xs. q_inner q = xs @ q_inner q' \<and> (d' \<longleftrightarrow> d \<or> xs \<noteq> [])) \<and> \<not> is_full q'
      \<and> (would_exceed_bytes q' cost \<longrightarrow> q_inner q' = []) \<and> q_limit q' = q_limit q \<and> q_byte_limit q' = q_byte_limit q"
    using assms
  proof (induction q cost d arbitrary: q' d' rule: evict.induct)
    case (1 q cost dropped)
    show ?case
    proof (cases "q_inner q")
      case Nil
      then show ?thesis using "1.prems" by (simp add: evict.simps queue_ok_def is_full_def)
    next
      case (Cons old vs)
      let ?q1 = "q\<lparr>q_inner := vs, q_bytes := usize_sat_sub (q_bytes q) (memory_size old)\<rparr>"
      show ?thesis
      proof (cases "is_full q \<or> would_exceed_bytes q cost")
        case True
        have ok1: "queue_ok ?q1" using "1.prems"(1) Cons by (auto simp: queue_ok_def usize_sat_sub_def)
        have "evict ?q1 cost True = (q', d')"
          using "1.prems"(2) Cons True by (subst (asm) evict.simps) simp
        note ih = "1.IH" [OF Cons True ok1 this]
        then obtain xs where "vs = xs @ q_inner q'" "d'" by auto
        then have "\<exists>xs. q_inner q = xs @ q_inner q' \<and> (d' \<longleftrightarrow> dropped \<or> xs \<noteq> [])"
          using Cons by (intro exI [of _ "old # xs"]) simp
        with ih show ?thesis by simp
      next
        case False
        then show ?thesis using "1.prems" Cons by (subst (asm) evict.simps) (auto simp: queue_ok_def)
      qed
    qed
  qed
  then show "queue_ok q'" "\<exists>xs. q_inner q = xs @ q_inner q' \<and> (d' \<longleftrightarrow> d \<or> xs \<noteq> [])" "\<not> is_full q'"
    "would_exceed_bytes q' cost \<longrightarrow> q_inner q' = []" "q_limit q' = q_limit q" "q_byte_limit q' = q_byte_limit q"
    by auto
qed

definition fits :: "mailbox_queue \<Rightarrow> value \<Rightarrow> bool" where
  "fits q v \<longleftrightarrow> length (q_inner q) < q_limit q \<and> q_bytes q + memory_size v \<le> q_byte_limit q"

lemma fits_iff: "queue_ok q \<Longrightarrow> fits q v \<longleftrightarrow> \<not> is_full q \<and> \<not> would_exceed_bytes q (memory_size v)"
  by (auto simp: fits_def is_full_def would_exceed_iff queue_ok_def)

lemma queue_push_ok:
  assumes "queue_ok q" and "reserve_for_push q c = (b, q1) \<or> q1 = q" and "q_bytes q + memory_size v \<le> usize_max"
  defines "q' \<equiv> push_back (q1\<lparr>q_bytes := usize_sat_add (q_bytes q1) (memory_size v)\<rparr>) v"
  shows "queue_ok q'" and "q_inner q' = q_inner q @ [v]" and "q_bytes q' = q_bytes q + memory_size v"
    and "q_limit q' = q_limit q" and "q_byte_limit q' = q_byte_limit q"
proof -
  have fr: "q_inner q1 = q_inner q" "q_limit q1 = q_limit q" "q_bytes q1 = q_bytes q" "q_byte_limit q1 = q_byte_limit q"
    using assms(2) reserve_for_push_frame [of q c b q1] by auto
  have len: "length (q_inner q1) < q_alloc (push_back (q1\<lparr>q_bytes := n\<rparr>) v)" for n
    using push_back_simps(5) [of "q1\<lparr>q_bytes := n\<rparr>" v] by simp
  show "queue_ok q'" "q_inner q' = q_inner q @ [v]" "q_bytes q' = q_bytes q + memory_size v"
    "q_limit q' = q_limit q" "q_byte_limit q' = q_byte_limit q"
    using assms(1,3) fr len
    by (auto simp: q'_def queue_ok_def usize_sat_add_exact Suc_le_eq simp del: push_back_simps(5))
qed

lemma enqueue_fits:
  assumes "queue_ok q" and "fits q v"
  shows "\<exists>q'. queue_enqueue q v policy = (Inr Enqueued, q') \<and> queue_ok q' \<and> queue_bounded q' \<and>
     q_inner q' = q_inner q @ [v] \<and> q_limit q' = q_limit q \<and> q_byte_limit q' = q_byte_limit q"
proof -
  obtain b q1 where r: "reserve_for_push q (q_limit q) = (b, q1)" by fastforce
  have b using reserve_for_push_ok [of q "q_limit q"] assms(2) r by (simp add: fits_def)
  moreover have "q_bytes q + memory_size v \<le> usize_max" using assms by (simp add: fits_def queue_ok_def)
  note push = queue_push_ok [OF assms(1) disjI1 [OF r] this]
  ultimately show ?thesis
    using assms r push fits_iff [OF assms(1), of v]
    by (simp add: queue_enqueue_def Let_def queue_bounded_def fits_def)
qed

lemma enqueue_refused:
  assumes "queue_ok q" and "\<not> fits q v"
  shows "queue_enqueue q v Reject = (Inl (if is_full q then MessageLimit else ByteLimit), q)"
    and "queue_enqueue q v DropNewest = (Inr DroppedNewestEff, q)"
  using assms fits_iff [OF assms(1), of v] by (auto simp: queue_enqueue_def Let_def)

text \<open>Under \<open>DropOldest\<close> a hop that does not fit evicts a prefix; one larger than the whole budget evicts everything.\<close>

lemma enqueue_drop_oldest:
  assumes "queue_ok q" and "\<not> fits q v"
  shows "memory_size v \<le> q_byte_limit q \<Longrightarrow>
      \<exists>xs ys q'. queue_enqueue q v DropOldest = (Inr DroppedOldestEff, q') \<and> queue_ok q' \<and> queue_bounded q' \<and>
        q_inner q = xs @ ys \<and> xs \<noteq> [] \<and> q_inner q' = ys @ [v] \<and> q_limit q' = q_limit q \<and> q_byte_limit q' = q_byte_limit q"
    and "q_byte_limit q < memory_size v \<Longrightarrow>
      \<exists>q'. queue_enqueue q v DropOldest = (Inl ByteLimit, q') \<and> queue_ok q' \<and> q_inner q' = [] \<and>
        q_limit q' = q_limit q \<and> q_byte_limit q' = q_byte_limit q"
proof -
  obtain q1 d where ev: "evict q (memory_size v) False = (q1, d)" by fastforce
  note spec = evict_spec [OF assms(1) ev]
  obtain xs where xs: "q_inner q = xs @ q_inner q1" "d \<longleftrightarrow> xs \<noteq> []" using spec(2) by auto
  have eq: "queue_enqueue q v DropOldest =
      (if would_exceed_bytes q1 (memory_size v) then (Inl ByteLimit, q1)
       else (Inr (if d then DroppedOldestEff else Enqueued),
             push_back (q1\<lparr>q_bytes := usize_sat_add (q_bytes q1) (memory_size v)\<rparr>) v))"
    using assms fits_iff [OF assms(1), of v] ev by (auto simp: queue_enqueue_def Let_def)
  have lim: "q_byte_limit q1 < usize_max" using spec(1) by (simp add: queue_ok_def)
  have exc: "would_exceed_bytes q1 (memory_size v) \<longleftrightarrow> q_byte_limit q < memory_size v"
    using spec(1,4,6) lim by (auto simp: would_exceed_iff queue_ok_def)
  show "\<exists>q'. queue_enqueue q v DropOldest = (Inl ByteLimit, q') \<and> queue_ok q' \<and> q_inner q' = [] \<and>
        q_limit q' = q_limit q \<and> q_byte_limit q' = q_byte_limit q" if "q_byte_limit q < memory_size v"
    using that eq exc spec by simp
  show "\<exists>xs ys q'. queue_enqueue q v DropOldest = (Inr DroppedOldestEff, q') \<and> queue_ok q' \<and> queue_bounded q' \<and>
        q_inner q = xs @ ys \<and> xs \<noteq> [] \<and> q_inner q' = ys @ [v] \<and> q_limit q' = q_limit q \<and> q_byte_limit q' = q_byte_limit q"
    if small: "memory_size v \<le> q_byte_limit q"
  proof -
    have ne: "\<not> would_exceed_bytes q1 (memory_size v)" using exc small by simp
    then have le: "q_bytes q1 + memory_size v \<le> q_byte_limit q1" using lim by (simp add: would_exceed_iff)
    then have "q_bytes q1 + memory_size v \<le> usize_max" using lim by simp
    note push = queue_push_ok [OF spec(1) disjI2 [OF refl] this]
    have "xs \<noteq> []"
    proof
      assume "xs = []"
      then have "q_inner q = q_inner q1" using xs by simp
      moreover have "q_bytes q = hop_bytes (q_inner q)" "q_bytes q1 = hop_bytes (q_inner q1)"
        using assms(1) spec(1) by (simp_all add: queue_ok_def)
      ultimately have "fits q v" using spec(3,5,6) le by (simp add: fits_def is_full_def)
      with assms(2) show False by simp
    qed
    moreover have "length (q_inner q1) < q_limit q1" using spec(3) by (simp add: is_full_def)
    ultimately show ?thesis using eq ne push xs spec(5,6) le
      by (intro exI [of _ xs] exI [of _ "q_inner q1"]) (simp add: queue_bounded_def)
  qed
qed

lemma enqueue_ok:
  assumes "queue_ok q" and "queue_enqueue q v policy = (r, q')"
  shows "queue_ok q'" and "q_limit q' = q_limit q" and "q_byte_limit q' = q_byte_limit q"
    and "queue_bounded q \<Longrightarrow> queue_bounded q'"
    and "r = Inr Enqueued \<or> r = Inr DroppedOldestEff \<Longrightarrow> queue_bounded q'"
proof -
  have emp: "queue_ok p \<Longrightarrow> q_inner p = [] \<Longrightarrow> queue_bounded p" for p
    by (simp add: queue_ok_def queue_bounded_def)
  have "queue_ok q' \<and> q_limit q' = q_limit q \<and> q_byte_limit q' = q_byte_limit q \<and>
      (queue_bounded q \<longrightarrow> queue_bounded q') \<and> (r = Inr Enqueued \<or> r = Inr DroppedOldestEff \<longrightarrow> queue_bounded q')"
  proof (cases "fits q v")
    case True
    then show ?thesis using enqueue_fits [OF assms(1) True, of policy] assms(2) by auto
  next
    case False
    note lost = enqueue_refused [OF assms(1) False] and drop = enqueue_drop_oldest [OF assms(1) False]
    show ?thesis
    proof (cases policy)
      case DropOldest
      then show ?thesis using drop assms(2) emp by (cases "memory_size v \<le> q_byte_limit q") (auto simp: not_le)
    qed (use lost assms in auto)
  qed
  then show "queue_ok q'" "q_limit q' = q_limit q" "q_byte_limit q' = q_byte_limit q"
    "queue_bounded q \<Longrightarrow> queue_bounded q'" "r = Inr Enqueued \<or> r = Inr DroppedOldestEff \<Longrightarrow> queue_bounded q'"
    by auto
qed

lemma force_push_ok:
  assumes "queue_ok q" and "q_bytes q + memory_size v \<le> usize_max"
  shows "queue_ok (force_push q v)" and "q_inner (force_push q v) = q_inner q @ [v]"
    and "q_limit (force_push q v) = q_limit q" and "q_byte_limit (force_push q v) = q_byte_limit q"
    and "q_bytes (force_push q v) = q_bytes q + memory_size v"
proof -
  let ?c = "max (q_limit q) (usize_sat_add (length (q_inner q)) 1)"
  obtain b q1 where r: "reserve_for_push q ?c = (b, q1)" by fastforce
  note push = queue_push_ok [OF assms(1) disjI1 [OF r] assms(2)]
  show "queue_ok (force_push q v)" "q_inner (force_push q v) = q_inner q @ [v]"
    "q_limit (force_push q v) = q_limit q" "q_byte_limit (force_push q v) = q_byte_limit q"
    "q_bytes (force_push q v) = q_bytes q + memory_size v"
    using push r by (simp_all add: force_push_def Let_def)
qed

section \<open>The contract of a selective FIFO store\<close>

text \<open>
  A trace of puts and selective gets on a store, with the values accepted and the values handed out in
  the order they were. A refused put leaves the store as it was.
\<close>

datatype ('v, 'f) hop_op = Put 'v | Get 'f

fun hop_trace ::
  "('q \<Rightarrow> 'v \<Rightarrow> 'q option) \<Rightarrow> ('f \<Rightarrow> 'q \<Rightarrow> ('v \<times> 'q) option) \<Rightarrow> 'q \<Rightarrow> ('v, 'f) hop_op list \<Rightarrow>
     'q \<times> 'v list \<times> 'v list" where
  "hop_trace put get q [] = (q, [], [])"
| "hop_trace put get q (Put v # ops) =
     (case put q v of
        None \<Rightarrow> hop_trace put get q ops
      | Some q1 \<Rightarrow> (case hop_trace put get q1 ops of (q', acc, out) \<Rightarrow> (q', v # acc, out)))"
| "hop_trace put get q (Get f # ops) =
     (case get f q of
        None \<Rightarrow> hop_trace put get q ops
      | Some (v, q1) \<Rightarrow> (case hop_trace put get q1 ops of (q', acc, out) \<Rightarrow> (q', acc, v # out)))"

locale hop_store =
  fixes ok :: "'q \<Rightarrow> bool"
    and items :: "'q \<Rightarrow> 'v list"
    and sel :: "'f \<Rightarrow> 'v \<Rightarrow> bool"
    and put :: "'q \<Rightarrow> 'v \<Rightarrow> 'q option"
    and get :: "'f \<Rightarrow> 'q \<Rightarrow> ('v \<times> 'q) option"
  assumes put_ok: "ok q \<Longrightarrow> put q v = Some q' \<Longrightarrow> ok q'"
    and put_items: "ok q \<Longrightarrow> put q v = Some q' \<Longrightarrow> items q' = items q @ [v]"
    and get_ok: "ok q \<Longrightarrow> get f q = Some (v, q') \<Longrightarrow> ok q'"
    and get_first: "ok q \<Longrightarrow> get f q = Some (v, q') \<Longrightarrow>
          \<exists>xs ys. items q = xs @ v # ys \<and> items q' = xs @ ys \<and> sel f v \<and> (\<forall>x\<in>set xs. \<not> sel f x)"
    and get_none: "ok q \<Longrightarrow> get f q = None \<longleftrightarrow> (\<forall>v\<in>set (items q). \<not> sel f v)"
begin

text \<open>A class of hops \<open>P\<close> is respected by a get that either can take any of it or none of it.\<close>

definition fair_for :: "('v \<Rightarrow> bool) \<Rightarrow> ('v, 'f) hop_op \<Rightarrow> bool" where
  "fair_for P h = (case h of Put _ \<Rightarrow> True
     | Get f \<Rightarrow> (\<forall>v. P v \<longrightarrow> sel f v) \<or> (\<forall>v. P v \<longrightarrow> \<not> sel f v))"

lemma get_filtered:
  assumes "ok q" and "get f q = Some (v, q')" and "fair_for P (Get f)"
  shows "filter P (items q) = (if P v then [v] else []) @ filter P (items q')"
proof -
  obtain xs ys where xy: "items q = xs @ v # ys" "items q' = xs @ ys" "sel f v" "\<forall>x\<in>set xs. \<not> sel f x"
    using get_first [OF assms(1,2)] by blast
  have "filter P xs = []" if "P v"
    using that xy assms(3) by (auto simp: fair_for_def filter_empty_conv)
  then show ?thesis using xy by auto
qed

theorem trace_fifo:
  "ok q \<Longrightarrow> \<forall>h\<in>set ops. fair_for P h \<Longrightarrow> hop_trace put get q ops = (q', acc, out) \<Longrightarrow>
   ok q' \<and> filter P (items q) @ filter P acc = filter P out @ filter P (items q')"
proof (induction ops arbitrary: q q' acc out)
  case Nil
  then show ?case by simp
next
  case (Cons h ops)
  show ?case
  proof (cases h)
    case (Put v)
    show ?thesis
    proof (cases "put q v")
      case None
      then show ?thesis using Cons Put by simp
    next
      case (Some q1)
      obtain q2 a o' where t: "hop_trace put get q1 ops = (q2, a, o')" by (metis prod_cases3)
      have "ok q1" and "items q1 = items q @ [v]"
        using put_ok [OF Cons.prems(1) Some] put_items [OF Cons.prems(1) Some] by simp_all
      with Cons.IH [OF \<open>ok q1\<close> _ t] Cons.prems Put Some t show ?thesis by auto
    qed
  next
    case (Get f)
    show ?thesis
    proof (cases "get f q")
      case None
      then show ?thesis using Cons Get by simp
    next
      case (Some vq)
      obtain v q1 where vq: "vq = (v, q1)" by fastforce
      obtain q2 a o' where t: "hop_trace put get q1 ops = (q2, a, o')" by (metis prod_cases3)
      have "ok q1" using get_ok [OF Cons.prems(1)] Some vq by simp
      moreover have "filter P (items q) = (if P v then [v] else []) @ filter P (items q1)"
        using get_filtered [OF Cons.prems(1)] Some vq Cons.prems(2) Get by simp
      ultimately show ?thesis using Cons.IH [OF \<open>ok q1\<close> _ t] Cons.prems Get Some vq t by auto
    qed
  qed
qed

end

definition queue_put :: "mailbox_queue \<Rightarrow> value \<Rightarrow> mailbox_queue option" where
  "queue_put q v = (case queue_enqueue q v Reject of (Inr Enqueued, q') \<Rightarrow> Some q' | _ \<Rightarrow> None)"

definition queue_get :: "wait_filter \<Rightarrow> mailbox_queue \<Rightarrow> (value \<times> mailbox_queue) option" where
  "queue_get f q = (case queue_take q f of (Some v, q') \<Rightarrow> Some (v, q') | (None, _) \<Rightarrow> None)"

lemma queue_put_iff: "queue_ok q \<Longrightarrow> queue_put q v = Some q' \<longleftrightarrow> fits q v \<and> queue_enqueue q v Reject = (Inr Enqueued, q')"
  using enqueue_fits [of q v Reject] enqueue_refused(1) [of q v] by (cases "fits q v") (auto simp: queue_put_def)

interpretation hops: hop_store queue_ok q_inner matches queue_put queue_get
proof unfold_locales
  fix q v q'
  assume ok: "queue_ok q" and put: "queue_put q v = Some q'"
  then have "fits q v" "queue_enqueue q v Reject = (Inr Enqueued, q')" by (simp_all add: queue_put_iff)
  then show "queue_ok q'" "q_inner q' = q_inner q @ [v]" using enqueue_fits [OF ok, of v Reject] by auto
next
  fix q f v q'
  assume ok: "queue_ok q" and get: "queue_get f q = Some (v, q')"
  then have t: "queue_take q f = (Some v, q')" by (auto simp: queue_get_def split: prod.splits option.splits)
  show "queue_ok q'" by (rule queue_take_ok(1) [OF ok t])
  show "\<exists>xs ys. q_inner q = xs @ v # ys \<and> q_inner q' = xs @ ys \<and> matches f v \<and> (\<forall>x\<in>set xs. \<not> matches f x)"
    using queue_take_Some [OF t] by blast
next
  fix q f
  show "queue_get f q = None \<longleftrightarrow> (\<forall>v\<in>set (q_inner q). \<not> matches f v)"
    using queue_take_None [of q f q] by (auto simp: queue_get_def queue_take_position split: option.splits prod.splits)
qed

lemma enqueue_shrinks:
  assumes "queue_ok q" and "queue_enqueue q v policy = (r, q')" and "r \<noteq> Inr Enqueued" and "r \<noteq> Inr DroppedOldestEff"
  shows "length (q_inner q') \<le> length (q_inner q)" and "q_bytes q' \<le> q_bytes q"
    and "policy \<noteq> DropOldest \<Longrightarrow> q' = q"
proof -
  have f: "\<not> fits q v" using enqueue_fits [OF assms(1), of v policy] assms(2,3) by auto
  note lost = enqueue_refused [OF assms(1) f] and drop = enqueue_drop_oldest [OF assms(1) f]
  have "q' = q \<or> policy = DropOldest \<and> queue_ok q' \<and> q_inner q' = []"
  proof (cases policy)
    case DropOldest
    then show ?thesis using drop assms by (cases "memory_size v \<le> q_byte_limit q") (auto simp: not_le)
  qed (use lost assms in auto)
  then show "length (q_inner q') \<le> length (q_inner q)" "q_bytes q' \<le> q_bytes q" "policy \<noteq> DropOldest \<Longrightarrow> q' = q"
    by (auto simp: queue_ok_def)
qed

section \<open>The abstract queue\<close>

text \<open>What a sender and a receiver see: the hops in order, without counters and allocation.\<close>

definition has_room :: "usize \<Rightarrow> usize \<Rightarrow> value \<Rightarrow> value list \<Rightarrow> bool" where
  "has_room limit budget v vs \<longleftrightarrow> length vs < limit \<and> hop_bytes vs + memory_size v \<le> budget"

fun survivors :: "usize \<Rightarrow> usize \<Rightarrow> value \<Rightarrow> value list \<Rightarrow> value list" where
  "survivors limit budget v [] = []"
| "survivors limit budget v (x # xs) =
     (if has_room limit budget v (x # xs) then x # xs else survivors limit budget v xs)"

definition abs_enqueue ::
  "usize \<Rightarrow> usize \<Rightarrow> overflow_policy \<Rightarrow> value list \<Rightarrow> value \<Rightarrow> (mailbox_full_reason + enqueue_effect) \<times> value list" where
  "abs_enqueue limit budget policy vs v =
     (if has_room limit budget v vs then (Inr Enqueued, vs @ [v])
      else case policy of
        Reject \<Rightarrow> (Inl (if limit \<le> length vs then MessageLimit else ByteLimit), vs)
      | DropNewest \<Rightarrow> (Inr DroppedNewestEff, vs)
      | DropOldest \<Rightarrow>
          if memory_size v \<le> budget then (Inr DroppedOldestEff, survivors limit budget v vs @ [v])
          else (Inl ByteLimit, []))"

lemma fits_has_room: "queue_ok q \<Longrightarrow> fits q v \<longleftrightarrow> has_room (q_limit q) (q_byte_limit q) v (q_inner q)"
  by (simp add: fits_def has_room_def queue_ok_def)

lemma evict_survivors:
  "queue_ok q \<Longrightarrow> q_inner (fst (evict q (memory_size v) d)) = survivors (q_limit q) (q_byte_limit q) v (q_inner q)"
proof (induction q "memory_size v" d rule: evict.induct)
  case (1 q dropped)
  show ?case
  proof (cases "q_inner q")
    case Nil
    then show ?thesis by (simp add: evict.simps)
  next
    case (Cons old vs)
    have room: "has_room (q_limit q) (q_byte_limit q) v (q_inner q) \<longleftrightarrow>
        \<not> (is_full q \<or> would_exceed_bytes q (memory_size v))"
      using fits_iff [OF "1.prems", of v] fits_has_room [OF "1.prems", of v] by simp
    show ?thesis
    proof (cases "is_full q \<or> would_exceed_bytes q (memory_size v)")
      case True
      let ?q1 = "q\<lparr>q_inner := vs, q_bytes := usize_sat_sub (q_bytes q) (memory_size old)\<rparr>"
      have "queue_ok ?q1" using "1.prems" Cons by (auto simp: queue_ok_def usize_sat_sub_def)
      from "1.hyps" [OF Cons True this] show ?thesis
        using True room Cons by (subst evict.simps) simp
    next
      case False
      then show ?thesis using room Cons by (subst evict.simps) simp
    qed
  qed
qed

lemma queue_enqueue_abs:
  assumes ok: "queue_ok q"
  shows "map_prod id q_inner (queue_enqueue q v policy)
           = abs_enqueue (q_limit q) (q_byte_limit q) policy (q_inner q) v"
proof (cases "fits q v")
  case True
  then show ?thesis
    using enqueue_fits [OF ok True, of policy] fits_has_room [OF ok, of v] by (auto simp: abs_enqueue_def)
next
  case False
  note lost = enqueue_refused [OF ok False] and drop = enqueue_drop_oldest [OF ok False]
  have room: "\<not> has_room (q_limit q) (q_byte_limit q) v (q_inner q)" using False fits_has_room [OF ok] by simp
  show ?thesis
  proof (cases policy)
    case DropOldest
    show ?thesis
    proof (cases "memory_size v \<le> q_byte_limit q")
      case True
      obtain q1 d where ev: "evict q (memory_size v) False = (q1, d)" by fastforce
      obtain q' where q': "queue_enqueue q v DropOldest = (Inr DroppedOldestEff, q')" using drop(1) [OF True] by blast
      have "q_inner q' = q_inner q1 @ [v]"
        using q' ev False fits_iff [OF ok, of v] by (auto simp: queue_enqueue_def Let_def split: if_splits)
      moreover have "q_inner q1 = survivors (q_limit q) (q_byte_limit q) v (q_inner q)"
        using evict_survivors [OF ok, of v False] ev by simp
      ultimately show ?thesis using DropOldest True room q' by (simp add: abs_enqueue_def)
    next
      case False
      then have "q_byte_limit q < memory_size v" by simp
      from drop(2) [OF this] show ?thesis using DropOldest False room by (auto simp: abs_enqueue_def)
    qed
  qed (use lost room in \<open>auto simp: abs_enqueue_def is_full_def\<close>)
qed

section \<open>Properties\<close>

text \<open>C23: the queue refines the abstract bounded list: an accepted hop goes to the end; under \<open>Reject\<close> and \<open>DropNewest\<close> a hop
  without room leaves the queue alone (and the reason names the bound that is reached); under \<open>DropOldest\<close> exactly
  the oldest hops that stand in the way are evicted, and a hop larger than the whole budget is refused after the inbox
  has been emptied.\<close>

theorem queue_enqueue_refines:
  "queue_ok q \<Longrightarrow>
     map_prod id q_inner (queue_enqueue q v policy) = abs_enqueue (q_limit q) (q_byte_limit q) policy (q_inner q) v"
  by (rule queue_enqueue_abs)

theorem queue_enqueue_refines_witness:
  "map_prod id q_inner (queue_enqueue (queue_new 2 1024) (VInt 5) Reject) = (Inr Enqueued, [VInt 5])"
  using queue_enqueue_refines [OF queue_new_ok [of 2 1024], of "VInt 5" Reject]
  by (simp add: usize_max_def abs_enqueue_def has_room_def memory_size_def VALUE_SIZE_def queue_new_def)

text \<open>C18: selective receive is first-in first-out. Along any sequence of accepted sends and selective takes, for every class of
  hops that each take either may take as a whole or cannot take at all (all hops, the hops of a tag taken by tag, the
  reply to a request), the hops of the class handed out so far followed by those still queued are exactly those first
  queued followed by those accepted, in order: none is lost, duplicated or overtaken.\<close>

theorem selective_receive_is_fifo:
  assumes "queue_ok q"
    and "\<And>f. Get f \<in> set ops \<Longrightarrow> (\<forall>v. P v \<longrightarrow> matches f v) \<or> (\<forall>v. P v \<longrightarrow> \<not> matches f v)"
    and "hop_trace queue_put queue_get q ops = (q', accepted, taken)"
  shows "filter P (q_inner q) @ filter P accepted = filter P taken @ filter P (q_inner q')"
proof -
  have "\<forall>h\<in>set ops. hops.fair_for P h"
    using assms(2) by (auto simp: hops.fair_for_def split: hop_op.split)
  then show ?thesis using hops.trace_fifo [OF assms(1) _ assms(3)] by blast
qed

theorem selective_receive_is_fifo_witness:
  "filter (\<lambda>_. True) [VInt 1, VInt 2] = filter (\<lambda>_. True) [VInt 1] @ filter (\<lambda>_. True) [VInt 2 :: value]"
proof -
  let ?t = "hop_trace queue_put queue_get (queue_new 2 1024) [Put (VInt 1), Put (VInt 2), Get FAny]"
  have t: "map_prod q_inner id ?t = ([VInt 2], [VInt 1, VInt 2], [VInt 1])"
    by (simp add: queue_put_def queue_get_def queue_enqueue_def queue_new_def is_full_def would_exceed_bytes_def
        memory_size_def VALUE_SIZE_def reserve_for_push_def vecdeque_reserve_def push_back_def queue_take_def
        usize_sat_add_def usize_sat_mul_def usize_max_def)
  obtain q' acc tk where q': "?t = (q', acc, tk)" by (metis prod_cases3)
  have "filter (\<lambda>_. True) (q_inner (queue_new 2 1024)) @ filter (\<lambda>_. True) acc
      = filter (\<lambda>_. True) tk @ filter (\<lambda>_. True) (q_inner q')"
    by (rule selective_receive_is_fifo [OF queue_new_ok _ q']) (auto simp: usize_max_def)
  then show ?thesis using t q' by (simp add: queue_new_def)
qed

end
