(* ===== verification/BF_Mailbox.thy ===== *)
theory BF_Mailbox
  imports BF_Mailbox_Queue
begin

text \<open>
  \<open>scheduler/mailbox/mod.rs\<close>: a flow's inbox with its parked receiver, its waiting senders and its counters.
  Every method takes the one mutex of the mailbox, so a method is one atomic step on the record below;
  a poisoned mutex refuses it and changes nothing. \<open>mailbox_step\<close> interleaves the methods the way the
  scheduler calls them.
\<close>

section \<open>State\<close>

record mailbox_stats =
  st_enqueued :: u64
  st_dequeued :: u64
  st_rejected :: u64
  st_rejected_byte_limit :: u64
  st_dropped_newest :: u64
  st_dropped_oldest :: u64
  st_queued_messages :: usize
  st_queued_bytes :: usize

definition stats_default :: mailbox_stats where
  "stats_default = \<lparr>st_enqueued = 0, st_dequeued = 0, st_rejected = 0, st_rejected_byte_limit = 0,
     st_dropped_newest = 0, st_dropped_oldest = 0, st_queued_messages = 0, st_queued_bytes = 0\<rparr>"

record waiting_sender =
  ws_flow :: flow
  ws_message :: "value"

record mailbox =
  mb_queue :: mailbox_queue
  mb_parked :: "flow option"
  mb_parked_filter :: wait_filter
  mb_wait_epoch :: u64
  mb_stats :: mailbox_stats
  mb_waiting_senders :: "waiting_sender list"
  mb_closed :: bool
  mb_config :: mailbox_config
  mb_poisoned :: bool

type_synonym wait_epoch = u64

datatype delivery = Queued | QueuedDropOldest | DroppedNewest | Handoff flow

datatype park_sender_result = Parked | Closed flow

text \<open>\<open>sync_lock::lock(&self.inner, place)?\<close>\<close>

definition with_lock ::
  "string \<Rightarrow> mailbox \<Rightarrow> (mailbox \<Rightarrow> 'a \<times> mailbox) \<Rightarrow> (runtime_error + 'a) \<times> mailbox" where
  "with_lock place mb body =
     (if mb_poisoned mb then (Inl (PoisonedLock place), mb)
      else case body mb of (r, mb') \<Rightarrow> (Inr r, mb'))"

section \<open>Operations\<close>

definition mailbox_with_config :: "mailbox_config \<Rightarrow> mailbox" where
  "mailbox_with_config cfg =
     \<lparr>mb_queue = queue_new (unat (mc_capacity cfg)) (mc_bytes cfg), mb_parked = None, mb_parked_filter = FAny,
      mb_wait_epoch = 0, mb_stats = stats_default, mb_waiting_senders = [], mb_closed = False,
      mb_config = cfg, mb_poisoned = False\<rparr>"

definition mailbox_new :: mailbox where
  "mailbox_new = mailbox_with_config config_default"

definition mailbox_get_stats :: "mailbox \<Rightarrow> runtime_error + mailbox_stats" where
  "mailbox_get_stats mb =
     fst (with_lock ''Mailbox::stats'' mb (\<lambda>mb.
       ((mb_stats mb)\<lparr>st_queued_messages := length (q_inner (mb_queue mb)), st_queued_bytes := q_bytes (mb_queue mb)\<rparr>, mb)))"

definition inc :: "u64 \<Rightarrow> u64" where
  "inc n = u64_sat_add n 1"

definition count_dequeued :: "mailbox \<Rightarrow> mailbox" where
  "count_dequeued mb = mb\<lparr>mb_stats := (mb_stats mb)\<lparr>st_dequeued := inc (st_dequeued (mb_stats mb))\<rparr>\<rparr>"

definition count_enqueued :: "mailbox \<Rightarrow> mailbox" where
  "count_enqueued mb = mb\<lparr>mb_stats := (mb_stats mb)\<lparr>st_enqueued := inc (st_enqueued (mb_stats mb))\<rparr>\<rparr>"

definition count_rejected :: "mailbox \<Rightarrow> mailbox" where
  "count_rejected mb = mb\<lparr>mb_stats := (mb_stats mb)\<lparr>st_rejected := inc (st_rejected (mb_stats mb))\<rparr>\<rparr>"

definition enqueue_locked ::
  "mailbox \<Rightarrow> value \<Rightarrow> overflow_policy \<Rightarrow> (mailbox_full_reason + delivery) \<times> mailbox" where
  "enqueue_locked mb v policy =
     (case queue_enqueue (mb_queue mb) v policy of
        (r, q) \<Rightarrow>
          let mb1 = mb\<lparr>mb_queue := q\<rparr>; st = mb_stats mb in
          (case r of
             Inr Enqueued \<Rightarrow> (Inr Queued, count_enqueued mb1)
           | Inr DroppedOldestEff \<Rightarrow>
               (Inr QueuedDropOldest,
                count_enqueued (mb1\<lparr>mb_stats := st\<lparr>st_dropped_oldest := inc (st_dropped_oldest st)\<rparr>\<rparr>))
           | Inr DroppedNewestEff \<Rightarrow>
               (Inr DroppedNewest, mb1\<lparr>mb_stats := st\<lparr>st_dropped_newest := inc (st_dropped_newest st)\<rparr>\<rparr>)
           | Inl reason \<Rightarrow>
               let mb2 = count_rejected mb1 in
               (Inl reason,
                if reason = ByteLimit
                then mb2\<lparr>mb_stats := (mb_stats mb2)\<lparr>st_rejected_byte_limit := inc (st_rejected_byte_limit st)\<rparr>\<rparr>
                else mb2)))"

definition mailbox_push ::
  "mailbox \<Rightarrow> value \<Rightarrow> (runtime_error + (mailbox_full_reason + delivery)) \<times> mailbox" where
  "mailbox_push mb v =
     with_lock ''Mailbox::push'' mb (\<lambda>mb.
       case mb_parked mb of
         Some fl \<Rightarrow>
           if matches (mb_parked_filter mb) v
           then (Inr (Handoff fl),
                 count_enqueued (count_dequeued (mb\<lparr>mb_parked := None, mb_parked_filter := FAny\<rparr>)))
           else enqueue_locked mb v (mc_overflow (mb_config mb))
       | None \<Rightarrow> enqueue_locked mb v (mc_overflow (mb_config mb)))"

definition try_pop_filter :: "mailbox \<Rightarrow> wait_filter \<Rightarrow> (runtime_error + value option) \<times> mailbox" where
  "try_pop_filter mb filt =
     with_lock ''Mailbox::try_pop_filter'' mb (\<lambda>mb.
       case queue_take (mb_queue mb) filt of
         (got, q) \<Rightarrow>
           let mb1 = mb\<lparr>mb_queue := q\<rparr>
           in (got, if got \<noteq> None then count_dequeued mb1 else mb1))"

definition try_pop :: "mailbox \<Rightarrow> (runtime_error + value option) \<times> mailbox" where
  "try_pop mb = try_pop_filter mb FAny"

definition try_pop_match :: "mailbox \<Rightarrow> u16 \<Rightarrow> (runtime_error + value option) \<times> mailbox" where
  "try_pop_match mb tg = try_pop_filter mb (FTag tg)"

definition with_pending :: "flow \<Rightarrow> value \<Rightarrow> flow" where
  "with_pending fl v = fl\<lparr>fl_pending_message := Some v\<rparr>"

definition park_filter ::
  "mailbox \<Rightarrow> flow \<Rightarrow> wait_filter \<Rightarrow> (runtime_error + (flow + wait_epoch)) \<times> mailbox" where
  "park_filter mb fl filt =
     with_lock ''Mailbox::park_filter'' mb (\<lambda>mb.
       case queue_take (mb_queue mb) filt of
         (Some v, q) \<Rightarrow> (Inl (with_pending fl v), count_dequeued (mb\<lparr>mb_queue := q\<rparr>))
       | (None, q) \<Rightarrow>
           let epoch = mb_wait_epoch mb + 1
           in (Inr epoch, mb\<lparr>mb_queue := q, mb_wait_epoch := epoch, mb_parked_filter := filt, mb_parked := Some fl\<rparr>))"

definition park :: "mailbox \<Rightarrow> flow \<Rightarrow> (runtime_error + (flow + wait_epoch)) \<times> mailbox" where
  "park mb fl = park_filter mb fl FAny"

definition park_match :: "mailbox \<Rightarrow> flow \<Rightarrow> u16 \<Rightarrow> (runtime_error + (flow + wait_epoch)) \<times> mailbox" where
  "park_match mb fl tg = park_filter mb fl (FTag tg)"

definition take_parked_at :: "mailbox \<Rightarrow> wait_epoch \<Rightarrow> (runtime_error + flow option) \<times> mailbox" where
  "take_parked_at mb epoch =
     with_lock ''Mailbox::take_parked_at'' mb (\<lambda>mb.
       if mb_wait_epoch mb \<noteq> epoch then (None, mb)
       else case mb_parked mb of
         Some fl \<Rightarrow> (Some fl, mb\<lparr>mb_parked := None, mb_parked_filter := FAny\<rparr>)
       | None \<Rightarrow> (None, mb))"

definition take_parked :: "mailbox \<Rightarrow> (runtime_error + flow option) \<times> mailbox" where
  "take_parked mb =
     with_lock ''Mailbox::take_parked'' mb (\<lambda>mb.
       (mb_parked mb, mb\<lparr>mb_parked := None, mb_parked_filter := FAny\<rparr>))"

definition push_system :: "mailbox \<Rightarrow> value \<Rightarrow> (runtime_error + delivery) \<times> mailbox" where
  "push_system mb v =
     with_lock ''Mailbox::push_system'' mb (\<lambda>mb.
       case (case mb_parked mb of Some fl \<Rightarrow> if matches (mb_parked_filter mb) v then Some fl else None | None \<Rightarrow> None) of
         Some fl \<Rightarrow>
           (Handoff fl, count_enqueued (count_dequeued (mb\<lparr>mb_parked := None, mb_parked_filter := FAny\<rparr>)))
       | None \<Rightarrow> (Queued, count_enqueued (mb\<lparr>mb_queue := force_push (mb_queue mb) v\<rparr>)))"

definition mailbox_close :: "mailbox \<Rightarrow> (runtime_error + flow list) \<times> mailbox" where
  "mailbox_close mb =
     with_lock ''Mailbox::close'' mb (\<lambda>mb.
       (map ws_flow (mb_waiting_senders mb), mb\<lparr>mb_closed := True, mb_waiting_senders := []\<rparr>))"

text \<open>\<open>park_sender\<close> reports a poisoned lock and gives the flow back.\<close>

definition park_sender :: "mailbox \<Rightarrow> flow \<Rightarrow> value \<Rightarrow> park_sender_result \<times> mailbox" where
  "park_sender mb fl v =
     (case with_lock ''Mailbox::park_sender'' mb (\<lambda>mb.
         if mb_closed mb then (Closed fl, mb)
         else (Parked, mb\<lparr>mb_waiting_senders := mb_waiting_senders mb @ [\<lparr>ws_flow = fl, ws_message = v\<rparr>]\<rparr>)) of
        (Inr r, mb') \<Rightarrow> (r, mb')
      | (Inl _, mb') \<Rightarrow> (Closed fl, mb'))"

definition admit_waiting_sender :: "mailbox \<Rightarrow> (runtime_error + flow option) \<times> mailbox" where
  "admit_waiting_sender mb =
     with_lock ''Mailbox::admit_waiting_sender'' mb (\<lambda>mb.
       if mb_closed mb then (None, mb)
       else case mb_waiting_senders mb of
         [] \<Rightarrow> (None, mb)
       | w # ws \<Rightarrow>
           (case enqueue_locked (mb\<lparr>mb_waiting_senders := ws\<rparr>) (ws_message w) Reject of
              (Inr _, mb1) \<Rightarrow> (Some (ws_flow w), mb1)
            | (Inl _, mb1) \<Rightarrow> (None, mb1\<lparr>mb_waiting_senders := w # mb_waiting_senders mb1\<rparr>)))"

definition take_waiting_sender :: "mailbox \<Rightarrow> flow_id \<Rightarrow> (runtime_error + flow option) \<times> mailbox" where
  "take_waiting_sender mb sender =
     with_lock ''Mailbox::take_waiting_sender'' mb (\<lambda>mb.
       case position (\<lambda>w. fl_id (ws_flow w) = sender) (mb_waiting_senders mb) of
         Some pos \<Rightarrow>
           (Some (ws_flow (mb_waiting_senders mb ! pos)),
            mb\<lparr>mb_waiting_senders := remove_nth pos (mb_waiting_senders mb)\<rparr>)
       | None \<Rightarrow> (None, mb))"

section \<open>Interleavings\<close>

text \<open>
  One method call. The receiver's own worker parks it and admits senders, so those calls find nobody parked; system
  hops fit the address space. The labels count the parks installed and collect the system hops pushed.
\<close>

inductive mailbox_step :: "nat \<Rightarrow> value list \<Rightarrow> mailbox \<Rightarrow> mailbox \<Rightarrow> bool" where
  step_push: "mailbox_push mb v = (r, mb') \<Longrightarrow> mailbox_step 0 [] mb mb'"
| step_pop: "try_pop_filter mb filt = (r, mb') \<Longrightarrow> mailbox_step 0 [] mb mb'"
| step_park: "mb_parked mb = None \<Longrightarrow> park_filter mb fl filt = (r, mb') \<Longrightarrow>
     mailbox_step (case r of Inr (Inr _) \<Rightarrow> 1 | _ \<Rightarrow> 0) [] mb mb'"
| step_timeout: "take_parked_at mb epoch = (r, mb') \<Longrightarrow> mailbox_step 0 [] mb mb'"
| step_kill: "take_parked mb = (r, mb') \<Longrightarrow> mailbox_step 0 [] mb mb'"
| step_system: "q_bytes (mb_queue mb) + memory_size v \<le> usize_max \<Longrightarrow> push_system mb v = (r, mb') \<Longrightarrow>
     mailbox_step 0 [v] mb mb'"
| step_close: "mailbox_close mb = (r, mb') \<Longrightarrow> mailbox_step 0 [] mb mb'"
| step_park_sender: "park_sender mb fl v = (r', mb') \<Longrightarrow> mailbox_step 0 [] mb mb'"
| step_admit: "mb_parked mb = None \<Longrightarrow> admit_waiting_sender mb = (r, mb') \<Longrightarrow> mailbox_step 0 [] mb mb'"
| step_take_sender: "take_waiting_sender mb sender = (r, mb') \<Longrightarrow> mailbox_step 0 [] mb mb'"

inductive mailbox_run :: "mailbox \<Rightarrow> nat \<Rightarrow> value list \<Rightarrow> mailbox \<Rightarrow> bool" for mb0 where
  run_start: "mailbox_run mb0 0 [] mb0"
| run_step: "mailbox_run mb0 parks sys mb \<Longrightarrow> mailbox_step p s mb mb' \<Longrightarrow> mailbox_run mb0 (parks + p) (sys @ s) mb'"

definition no_lost_wakeup :: "mailbox \<Rightarrow> bool" where
  "no_lost_wakeup mb \<longleftrightarrow>
     (mb_parked mb \<noteq> None \<longrightarrow> (\<forall>v\<in>set (q_inner (mb_queue mb)). \<not> matches (mb_parked_filter mb) v))"

definition mailbox_ok :: "mailbox \<Rightarrow> bool" where
  "mailbox_ok mb \<longleftrightarrow>
     queue_ok (mb_queue mb) \<and> q_limit (mb_queue mb) = unat (mc_capacity (mb_config mb)) \<and>
     q_byte_limit (mb_queue mb) = mc_bytes (mb_config mb) \<and> no_lost_wakeup mb \<and>
     (mb_closed mb \<longrightarrow> mb_waiting_senders mb = [])"

text \<open>Occupancy: the configured bounds hold but for the system hops, which are never refused.\<close>

definition occupancy_ok :: "value list \<Rightarrow> mailbox \<Rightarrow> bool" where
  "occupancy_ok sys mb \<longleftrightarrow>
     length (q_inner (mb_queue mb)) \<le> q_limit (mb_queue mb) + length sys \<and>
     q_bytes (mb_queue mb) \<le> q_byte_limit (mb_queue mb) + hop_bytes sys"

lemma counts_frame [simp]:
  "mb_queue (count_dequeued mb) = mb_queue mb" "mb_queue (count_enqueued mb) = mb_queue mb"
  "mb_queue (count_rejected mb) = mb_queue mb" "mb_parked (count_dequeued mb) = mb_parked mb"
  "mb_parked (count_enqueued mb) = mb_parked mb" "mb_parked (count_rejected mb) = mb_parked mb"
  "mb_parked_filter (count_dequeued mb) = mb_parked_filter mb" "mb_parked_filter (count_enqueued mb) = mb_parked_filter mb"
  "mb_parked_filter (count_rejected mb) = mb_parked_filter mb" "mb_config (count_dequeued mb) = mb_config mb"
  "mb_config (count_enqueued mb) = mb_config mb" "mb_config (count_rejected mb) = mb_config mb"
  "mb_closed (count_dequeued mb) = mb_closed mb" "mb_closed (count_enqueued mb) = mb_closed mb"
  "mb_closed (count_rejected mb) = mb_closed mb" "mb_waiting_senders (count_dequeued mb) = mb_waiting_senders mb"
  "mb_waiting_senders (count_enqueued mb) = mb_waiting_senders mb"
  "mb_waiting_senders (count_rejected mb) = mb_waiting_senders mb"
  "mb_wait_epoch (count_dequeued mb) = mb_wait_epoch mb" "mb_wait_epoch (count_enqueued mb) = mb_wait_epoch mb"
  "mb_wait_epoch (count_rejected mb) = mb_wait_epoch mb" "mb_poisoned (count_dequeued mb) = mb_poisoned mb"
  "mb_poisoned (count_enqueued mb) = mb_poisoned mb" "mb_poisoned (count_rejected mb) = mb_poisoned mb"
  by (simp_all add: count_dequeued_def count_enqueued_def count_rejected_def)

text \<open>The part of the inbox a queue operation leaves alone.\<close>

definition same_waiters :: "mailbox \<Rightarrow> mailbox \<Rightarrow> bool" where
  "same_waiters mb mb' \<longleftrightarrow>
     mb_parked mb' = mb_parked mb \<and> mb_parked_filter mb' = mb_parked_filter mb \<and> mb_wait_epoch mb' = mb_wait_epoch mb \<and>
     mb_waiting_senders mb' = mb_waiting_senders mb \<and> mb_closed mb' = mb_closed mb \<and> mb_config mb' = mb_config mb \<and>
     mb_poisoned mb' = mb_poisoned mb"

lemma enqueue_locked_queue:
  assumes "enqueue_locked mb v policy = (r, mb')"
  shows "same_waiters mb mb'"
    and "\<exists>e. queue_enqueue (mb_queue mb) v policy = (e, mb_queue mb') \<and> (is_ok r \<longleftrightarrow> is_ok e) \<and>
         (r = Inr Queued \<longleftrightarrow> e = Inr Enqueued) \<and> (r = Inr QueuedDropOldest \<longleftrightarrow> e = Inr DroppedOldestEff)"
  using assms
  by (auto simp: enqueue_locked_def same_waiters_def Let_def split: prod.splits sum.splits enqueue_effect.splits if_splits)

lemma queue_enqueue_mem:
  assumes "queue_ok q" and "queue_enqueue q v policy = (r, q')" and "x \<in> set (q_inner q')"
  shows "x \<in> set (q_inner q) \<or> x = v"
proof (cases "fits q v")
  case True
  then show ?thesis using enqueue_fits [OF assms(1) True, of policy] assms by auto
next
  case False
  note lost = enqueue_refused [OF assms(1) False] and drop = enqueue_drop_oldest [OF assms(1) False]
  show ?thesis
  proof (cases policy)
    case DropOldest
    show ?thesis
    proof (cases "memory_size v \<le> q_byte_limit q")
      case True
      from drop(1) [OF True] show ?thesis using assms DropOldest by fastforce
    next
      case False
      then have "q_byte_limit q < memory_size v" by simp
      from drop(2) [OF this] show ?thesis using assms DropOldest by fastforce
    qed
  qed (use lost assms in auto)
qed

lemma enqueue_locked_ok:
  assumes "mailbox_ok mb" and "enqueue_locked mb v policy = (r, mb')"
    and "mb_parked mb \<noteq> None \<Longrightarrow> \<not> matches (mb_parked_filter mb) v"
  shows "mailbox_ok mb'"
proof -
  obtain e where e: "queue_enqueue (mb_queue mb) v policy = (e, mb_queue mb')"
    using enqueue_locked_queue(2) [OF assms(2)] by blast
  have ok: "queue_ok (mb_queue mb)" using assms(1) by (simp add: mailbox_ok_def)
  note same = enqueue_locked_queue(1) [OF assms(2)] and q = enqueue_ok [OF ok e] and mem = queue_enqueue_mem [OF ok e]
  have "no_lost_wakeup mb'"
    using assms(1,3) same mem by (auto simp: mailbox_ok_def no_lost_wakeup_def same_waiters_def)
  then show ?thesis using assms(1) same q by (auto simp: mailbox_ok_def same_waiters_def)
qed

lemma enqueue_locked_occupancy:
  assumes "mailbox_ok mb" and "occupancy_ok sys mb" and "enqueue_locked mb v policy = (r, mb')"
  shows "occupancy_ok sys mb'"
proof -
  obtain e where e: "queue_enqueue (mb_queue mb) v policy = (e, mb_queue mb')"
    using enqueue_locked_queue(2) [OF assms(3)] by blast
  have ok: "queue_ok (mb_queue mb)" using assms(1) by (simp add: mailbox_ok_def)
  note q = enqueue_ok [OF ok e]
  show ?thesis
  proof (cases "e = Inr Enqueued \<or> e = Inr DroppedOldestEff")
    case True
    then show ?thesis using q(2,3,5) by (auto simp: occupancy_ok_def queue_bounded_def)
  next
    case False
    then show ?thesis using q(2,3) enqueue_shrinks [OF ok e] assms(2) by (auto simp: occupancy_ok_def)
  qed
qed

section \<open>Every method keeps the invariant\<close>

lemma with_lock_cases:
  assumes "with_lock place mb body = (r, mb')"
  obtains "mb_poisoned mb" "mb' = mb" "r = Inl (PoisonedLock place)"
    | x where "\<not> mb_poisoned mb" "body mb = (x, mb')" "r = Inr x"
  using assms by (auto simp: with_lock_def split: if_splits prod.splits)

lemma mailbox_ok_unpark: "mailbox_ok mb \<Longrightarrow> mailbox_ok (mb\<lparr>mb_parked := None, mb_parked_filter := f\<rparr>)"
  by (simp add: mailbox_ok_def no_lost_wakeup_def)

lemma mailbox_ok_counts [simp]:
  "mailbox_ok (count_dequeued mb) = mailbox_ok mb" "mailbox_ok (count_enqueued mb) = mailbox_ok mb"
  by (simp_all add: mailbox_ok_def no_lost_wakeup_def)

lemma take_queue_ok:
  assumes "mailbox_ok mb" and "queue_take (mb_queue mb) filt = (got, q)"
  shows "mailbox_ok (mb\<lparr>mb_queue := q\<rparr>)"
proof -
  have ok: "queue_ok (mb_queue mb)" using assms(1) by (simp add: mailbox_ok_def)
  have sub: "set (q_inner q) \<subseteq> set (q_inner (mb_queue mb))"
    and lim: "q_limit q = q_limit (mb_queue mb)" "q_byte_limit q = q_byte_limit (mb_queue mb)"
    using assms(2) by (auto simp: queue_take_position split: option.splits dest: set_remove_nth_subset [THEN subsetD])
  show ?thesis
    using assms(1) sub lim queue_take_ok(1) [OF ok assms(2)] by (auto simp: mailbox_ok_def no_lost_wakeup_def)
qed

lemma push_keeps: "mailbox_ok mb \<Longrightarrow> mailbox_push mb v = (r, mb') \<Longrightarrow> mailbox_ok mb'"
  unfolding mailbox_push_def
  by (erule with_lock_cases)
    (auto dest: enqueue_locked_ok simp: mailbox_ok_unpark split: option.splits if_splits)

lemma pop_keeps: "mailbox_ok mb \<Longrightarrow> try_pop_filter mb f = (r, mb') \<Longrightarrow> mailbox_ok mb'"
  unfolding try_pop_filter_def
  by (erule with_lock_cases) (auto simp: Let_def dest: take_queue_ok split: prod.splits if_splits)

lemma park_keeps:
  assumes ok: "mailbox_ok mb" and park: "park_filter mb fl f = (r, mb')"
  shows "mailbox_ok mb'"
  using park unfolding park_filter_def
proof (rule with_lock_cases)
  fix x
  assume body: "(case queue_take (mb_queue mb) f of
         (Some v, q) \<Rightarrow> (Inl (with_pending fl v), count_dequeued (mb\<lparr>mb_queue := q\<rparr>))
       | (None, q) \<Rightarrow>
           let epoch = mb_wait_epoch mb + 1
           in (Inr epoch, mb\<lparr>mb_queue := q, mb_wait_epoch := epoch, mb_parked_filter := f, mb_parked := Some fl\<rparr>)) = (x, mb')"
  obtain got q where t: "queue_take (mb_queue mb) f = (got, q)" by fastforce
  show ?thesis
  proof (cases got)
    case None
    then have "q = mb_queue mb" "\<forall>v\<in>set (q_inner (mb_queue mb)). \<not> matches f v"
      using t queue_take_None [of "mb_queue mb" f q] by simp_all
    then show ?thesis using body t None ok by (auto simp: Let_def mailbox_ok_def no_lost_wakeup_def)
  next
    case (Some v)
    then show ?thesis using body t take_queue_ok [OF ok t] by auto
  qed
qed (use ok in auto)

lemma timeout_keeps: "mailbox_ok mb \<Longrightarrow> take_parked_at mb e = (r, mb') \<Longrightarrow> mailbox_ok mb'"
  unfolding take_parked_at_def
  by (erule with_lock_cases) (auto simp: mailbox_ok_unpark split: if_splits option.splits)

lemma kill_keeps: "mailbox_ok mb \<Longrightarrow> take_parked mb = (r, mb') \<Longrightarrow> mailbox_ok mb'"
  unfolding take_parked_def by (erule with_lock_cases) (auto simp: mailbox_ok_unpark)

lemma system_keeps:
  assumes ok: "mailbox_ok mb" and fit: "q_bytes (mb_queue mb) + memory_size v \<le> usize_max"
    and push: "push_system mb v = (r, mb')"
  shows "mailbox_ok mb'"
proof -
  have "queue_ok (mb_queue mb)" using ok by (simp add: mailbox_ok_def)
  note q = force_push_ok [OF this fit]
  show ?thesis
    using push unfolding push_system_def
    by (rule with_lock_cases)
      (use ok q in \<open>auto simp: mailbox_ok_unpark split: option.splits if_splits\<close>,
       auto simp: mailbox_ok_def no_lost_wakeup_def)
qed

lemma close_keeps: "mailbox_ok mb \<Longrightarrow> mailbox_close mb = (r, mb') \<Longrightarrow> mailbox_ok mb'"
  unfolding mailbox_close_def
  by (erule with_lock_cases) (auto simp: mailbox_ok_def no_lost_wakeup_def)

lemma park_sender_keeps: "mailbox_ok mb \<Longrightarrow> park_sender mb fl v = (r, mb') \<Longrightarrow> mailbox_ok mb'"
  by (auto simp: park_sender_def with_lock_def mailbox_ok_def no_lost_wakeup_def split: if_splits)

lemma admit_keeps:
  assumes ok: "mailbox_ok mb" and free: "mb_parked mb = None" and admit: "admit_waiting_sender mb = (r, mb')"
  shows "mailbox_ok mb'"
  using admit unfolding admit_waiting_sender_def
proof (rule with_lock_cases)
  fix x
  assume body: "(if mb_closed mb then (None, mb)
       else case mb_waiting_senders mb of
         [] \<Rightarrow> (None, mb)
       | w # ws \<Rightarrow>
           (case enqueue_locked (mb\<lparr>mb_waiting_senders := ws\<rparr>) (ws_message w) Reject of
              (Inr _, mb1) \<Rightarrow> (Some (ws_flow w), mb1)
            | (Inl _, mb1) \<Rightarrow> (None, mb1\<lparr>mb_waiting_senders := w # mb_waiting_senders mb1\<rparr>))) = (x, mb')"
  show ?thesis
  proof (cases "mb_closed mb \<or> mb_waiting_senders mb = []")
    case True
    then show ?thesis using body ok by (auto split: list.splits)
  next
    case False
    then obtain w ws where ws: "mb_waiting_senders mb = w # ws" "\<not> mb_closed mb" by (cases "mb_waiting_senders mb") auto
    let ?mb = "mb\<lparr>mb_waiting_senders := ws\<rparr>"
    obtain d mb1 where e: "enqueue_locked ?mb (ws_message w) Reject = (d, mb1)" by fastforce
    have "mailbox_ok ?mb" using ok ws by (simp add: mailbox_ok_def no_lost_wakeup_def)
    then have ok1: "mailbox_ok mb1" using enqueue_locked_ok [OF _ e] free by simp
    have "\<not> mb_closed mb1" using enqueue_locked_queue(1) [OF e] ws by (simp add: same_waiters_def)
    with ok1 have "mailbox_ok (mb1\<lparr>mb_waiting_senders := xs\<rparr>)" for xs by (simp add: mailbox_ok_def no_lost_wakeup_def)
    then show ?thesis using body ws e ok1 by (cases d) auto
  qed
qed (use ok in auto)

lemma take_sender_keeps: "mailbox_ok mb \<Longrightarrow> take_waiting_sender mb fid = (r, mb') \<Longrightarrow> mailbox_ok mb'"
  unfolding take_waiting_sender_def
  by (erule with_lock_cases)
    (auto simp: mailbox_ok_def no_lost_wakeup_def remove_nth_def split: option.splits)

lemmas method_keeps = push_keeps pop_keeps park_keeps timeout_keeps kill_keeps system_keeps close_keeps
  park_sender_keeps admit_keeps take_sender_keeps

lemma mailbox_step_ok: "mailbox_step p s mb mb' \<Longrightarrow> mailbox_ok mb \<Longrightarrow> mailbox_ok mb'"
  by (erule mailbox_step.cases) (auto intro: method_keeps)

lemma mailbox_run_ok: "mailbox_run mb0 p s mb \<Longrightarrow> mailbox_ok mb0 \<Longrightarrow> mailbox_ok mb"
  by (induction rule: mailbox_run.induct) (auto intro: mailbox_step_ok)

lemma mailbox_with_config_ok: "config_ok cfg \<Longrightarrow> mailbox_ok (mailbox_with_config cfg)"
proof -
  assume "config_ok cfg"
  then have c: "mc_capacity cfg \<noteq> 0" "mc_capacity cfg \<le> CAPACITY_MAX" "mc_bytes cfg \<le> BYTES_MAX"
    by (auto simp: config_ok_def capacity_new_def bytes_new_def CAPACITY_MIN_def split: if_splits)
  have "1 \<le> unat (mc_capacity cfg)" using c(1) by (simp add: Suc_le_eq unat_gt_0)
  moreover have "unat (mc_capacity cfg) \<le> usize_max"
    using unsigned_less [of "mc_capacity cfg", where ?'a = nat] by (simp add: usize_max_def)
  ultimately show ?thesis
    using c(3) by (simp add: mailbox_ok_def mailbox_with_config_def no_lost_wakeup_def queue_new_def queue_ok_def
        BYTES_MAX_def usize_max_def)
qed

section \<open>Occupancy and epochs\<close>

lemma occupancy_shrink:
  "occupancy_ok sys mb \<Longrightarrow> queue_take (mb_queue mb) f = (got, q) \<Longrightarrow> queue_ok (mb_queue mb) \<Longrightarrow>
   occupancy_ok sys (mb\<lparr>mb_queue := q\<rparr>)"
  by (cases got) (auto simp: occupancy_ok_def queue_take_None usize_sat_sub_def dest!: queue_take_Some)

lemma occupancy_same_queue: "mb_queue mb' = mb_queue mb \<Longrightarrow> occupancy_ok sys mb \<Longrightarrow> occupancy_ok sys mb'"
  by (simp add: occupancy_ok_def)

lemma admit_queue:
  assumes "admit_waiting_sender mb = (r, mb')"
  shows "mb_queue mb' = mb_queue mb \<or>
     (\<exists>w ws d mb1. mb_waiting_senders mb = w # ws \<and> enqueue_locked (mb\<lparr>mb_waiting_senders := ws\<rparr>) (ws_message w) Reject = (d, mb1)
        \<and> mb_queue mb' = mb_queue mb1)"
  using assms unfolding admit_waiting_sender_def
  by (rule with_lock_cases) (auto split: if_splits list.splits prod.splits sum.splits)

lemma push_queue:
  assumes "mailbox_push mb v = (r, mb')"
  shows "mb_queue mb' = mb_queue mb \<or> (\<exists>d. enqueue_locked mb v (mc_overflow (mb_config mb)) = (d, mb'))"
  using assms unfolding mailbox_push_def
  by (rule with_lock_cases) (auto split: if_splits option.splits)

lemma step_occupancy:
  assumes "mailbox_step p s mb mb'" and "mailbox_ok mb" and "occupancy_ok sys mb"
  shows "occupancy_ok (sys @ s) mb'"
  using assms(1)
proof cases
  case (step_push v r)
  then show ?thesis using push_queue [OF step_push(3)] assms(2,3) occupancy_same_queue enqueue_locked_occupancy
    by (metis append_Nil2)
next
  case (step_pop f r)
  have "mailbox_ok mb \<Longrightarrow> queue_ok (mb_queue mb)" by (simp add: mailbox_ok_def)
  with step_pop assms(2,3) show ?thesis
    unfolding try_pop_filter_def
    by (elim with_lock_cases)
      (auto simp: Let_def split: prod.splits if_splits intro: occupancy_same_queue [rotated] occupancy_shrink)
next
  case (step_park fl f r)
  have "mailbox_ok mb \<Longrightarrow> queue_ok (mb_queue mb)" by (simp add: mailbox_ok_def)
  with step_park assms(2,3) show ?thesis
    unfolding park_filter_def
    by (elim with_lock_cases)
      (auto simp: Let_def queue_take_None split: prod.splits option.splits
        intro: occupancy_same_queue [rotated] occupancy_shrink)
next
  case (step_system v r)
  have "mailbox_ok mb \<Longrightarrow> queue_ok (mb_queue mb)" by (simp add: mailbox_ok_def)
  with step_system assms(2,3) force_push_ok [OF _ step_system(3)] show ?thesis
    unfolding push_system_def
    by (elim with_lock_cases) (auto simp: occupancy_ok_def split: option.splits if_splits)
next
  case (step_admit r)
  from admit_queue [OF step_admit(4)] show ?thesis
  proof (elim disjE exE conjE)
    assume "mb_queue mb' = mb_queue mb"
    then show ?thesis using assms(3) step_admit by (simp add: occupancy_ok_def)
  next
    fix w ws d mb1
    let ?mb = "mb\<lparr>mb_waiting_senders := ws\<rparr>"
    assume ws: "mb_waiting_senders mb = w # ws" and e: "enqueue_locked ?mb (ws_message w) Reject = (d, mb1)"
      and q: "mb_queue mb' = mb_queue mb1"
    have "mailbox_ok ?mb" using assms(2) ws by (auto simp: mailbox_ok_def no_lost_wakeup_def)
    moreover have "occupancy_ok sys ?mb" using assms(3) by (simp add: occupancy_ok_def)
    ultimately show ?thesis using enqueue_locked_occupancy [OF _ _ e] q step_admit occupancy_same_queue by simp
  qed
qed (use assms(3) in \<open>auto simp: occupancy_ok_def take_parked_at_def take_parked_def mailbox_close_def park_sender_def
      take_waiting_sender_def with_lock_def split: if_splits option.splits prod.splits sum.splits\<close>)

lemma run_occupancy: "mailbox_run mb0 p s mb \<Longrightarrow> mailbox_ok mb0 \<Longrightarrow> occupancy_ok [] mb0 \<Longrightarrow> occupancy_ok s mb"
  by (induction rule: mailbox_run.induct) (auto intro: step_occupancy mailbox_run_ok)

text \<open>The wait epoch counts the parks installed; the parked flow only changes by them.\<close>

lemma step_epoch:
  assumes "mailbox_step p s mb mb'"
  shows "mb_wait_epoch mb' = mb_wait_epoch mb + word_of_nat p \<and> mb_poisoned mb' = mb_poisoned mb \<and>
    (p = 0 \<longrightarrow> mb_parked mb' = mb_parked mb \<or> mb_parked mb' = None)"
  using assms
proof cases
  case (step_push v r)
  from step_push(3) show ?thesis unfolding mailbox_push_def using step_push(1)
    by (elim with_lock_cases)
      (auto dest!: enqueue_locked_queue(1) simp: same_waiters_def split: option.splits if_splits)
next
  case (step_admit r)
  from step_admit(4) show ?thesis unfolding admit_waiting_sender_def using step_admit(1,3)
    by (elim with_lock_cases)
      (auto dest!: enqueue_locked_queue(1) simp: same_waiters_def split: list.splits prod.splits sum.splits if_splits)
qed (auto simp: try_pop_filter_def park_filter_def take_parked_at_def take_parked_def push_system_def mailbox_close_def
      park_sender_def take_waiting_sender_def with_lock_def Let_def
      split: if_splits option.splits prod.splits sum.splits)

lemma run_epoch:
  "mailbox_run mb0 p s mb \<Longrightarrow>
     mb_wait_epoch mb = mb_wait_epoch mb0 + word_of_nat p \<and> mb_poisoned mb = mb_poisoned mb0 \<and>
     (p = 0 \<longrightarrow> mb_parked mb = mb_parked mb0 \<or> mb_parked mb = None)"
proof (induction rule: mailbox_run.induct)
  case (run_step parks sys mb p s mb')
  then show ?case using step_epoch [OF run_step.hyps(2)] by (auto simp: algebra_simps)
qed simp

section \<open>Properties\<close>

lemma initial_occupancy: "occupancy_ok [] (mailbox_with_config cfg)"
  by (simp add: occupancy_ok_def mailbox_with_config_def queue_new_def)

definition tiny_config :: mailbox_config where
  "tiny_config = config_new 1 Reject"

lemma tiny_config_ok: "config_ok tiny_config"
  by (simp add: config_ok_def tiny_config_def config_new_def capacity_new_def bytes_new_def CAPACITY_MIN_def
      CAPACITY_MAX_def BYTES_MIN_def BYTES_MAX_def BYTES_DEFAULT_def)

text \<open>A flow with nothing to run, and the inbox it has parked in twice.\<close>

definition idle_flow :: "flow_id \<Rightarrow> flow" where
  "idle_flow fid = flow_new fid
     \<lparr>vm_chunk = \<lparr>ch_name = [], ch_constants = [], ch_code = [], ch_functions = []\<rparr>, vm_natives = [],
      vm_native_gate = gate_deny 0 0 0, vm_frames = [], vm_instructions_executed = 0, vm_next_request_id = 1,
      vm_quota = None\<rparr> 0 Never 0 0 0"

definition reparked_inbox :: mailbox where
  "reparked_inbox =
     (let mb1 = snd (park_filter (mailbox_with_config tiny_config) (idle_flow 1) FAny);
          mb2 = snd (mailbox_push mb1 (VInt 3))
      in snd (park_filter mb2 (idle_flow 1) (FTag 7)))"

lemmas mailbox_eval = mailbox_push_def with_lock_def enqueue_locked_def queue_enqueue_def queue_new_def is_full_def
  would_exceed_bytes_def memory_size_def VALUE_SIZE_def reserve_for_push_def vecdeque_reserve_def push_back_def
  usize_sat_add_def usize_sat_mul_def usize_sat_sub_def usize_max_def mailbox_with_config_def tiny_config_def config_new_def
  BYTES_DEFAULT_def try_pop_filter_def queue_take_def admit_waiting_sender_def park_filter_def park_sender_def
  count_enqueued_def count_dequeued_def count_rejected_def



text \<open>C17: an inbox is bounded in hops and in bytes. Whatever happens to it, the byte counter is exactly the cost of the queued
  hops, and hops and bytes stay within the configured capacity and budget plus the system hops pushed.\<close>

theorem inbox_is_bounded:
  assumes "config_ok cfg" and "mailbox_run (mailbox_with_config cfg) parks sys mb"
  shows "q_bytes (mb_queue mb) = hop_bytes (q_inner (mb_queue mb)) \<and>
    length (q_inner (mb_queue mb)) \<le> unat (mc_capacity (mb_config mb)) + length sys \<and>
    hop_bytes (q_inner (mb_queue mb)) \<le> mc_bytes (mb_config mb) + hop_bytes sys"
  using mailbox_run_ok [OF assms(2) mailbox_with_config_ok [OF assms(1)]]
    run_occupancy [OF assms(2) mailbox_with_config_ok [OF assms(1)] initial_occupancy]
  by (simp add: mailbox_ok_def queue_ok_def occupancy_ok_def)

theorem inbox_is_bounded_witness:
  "length (q_inner (mb_queue (snd (mailbox_push (mailbox_with_config tiny_config) (VInt 3))))) \<le> 1"
proof -
  let ?r = "mailbox_push (mailbox_with_config tiny_config) (VInt 3)"
  have "mailbox_step 0 [] (mailbox_with_config tiny_config) (snd ?r)"
    by (rule mailbox_step.step_push [where r = "fst ?r"]) simp
  then have "mailbox_run (mailbox_with_config tiny_config) 0 [] (snd ?r)"
    using mailbox_run.run_step [OF mailbox_run.run_start] by fastforce
  from inbox_is_bounded [OF tiny_config_ok this] show ?thesis by (simp add: mailbox_eval)
qed

text \<open>C22: a receive deadline only ever ends the wait it was armed for. If the flow has parked again since, the deadline finds
  nothing and changes nothing (short of 2^64 parks on one inbox); if it has not, the deadline yields that very flow or
  nobody.\<close>

theorem stale_deadline_is_harmless:
  assumes "park_filter mb fl filt = (Inr (Inr epoch), mb1)" and "mailbox_run mb1 parks sys mb2"
  shows "(0 < parks \<and> parks < 2 ^ 64 \<longrightarrow> take_parked_at mb2 epoch = (Inr None, mb2)) \<and>
    (parks = 0 \<longrightarrow> fst (take_parked_at mb2 epoch) \<in> {Inr None, Inr (Some fl)})"
proof -
  have p: "mb_wait_epoch mb1 = epoch" "\<not> mb_poisoned mb1" "mb_parked mb1 = Some fl"
    using assms(1) by (auto simp: park_filter_def with_lock_def Let_def split: if_splits prod.splits option.splits)
  note run = run_epoch [OF assms(2)]
  have "epoch + word_of_nat parks \<noteq> epoch" if "0 < parks" "parks < 2 ^ 64"
  proof -
    have "(word_of_nat parks :: u64) \<noteq> 0"
      using that nat_dvd_not_less by (auto simp: word_of_nat_eq_0_iff)
    then show ?thesis by simp
  qed
  then show ?thesis using run p by (auto simp: take_parked_at_def with_lock_def)
qed

theorem stale_deadline_is_harmless_witness:
  "take_parked_at reparked_inbox 1 = (Inr None, reparked_inbox)"
proof -
  let ?mb = "mailbox_with_config tiny_config"
  let ?m1 = "snd (park_filter ?mb (idle_flow 1) FAny)"
  let ?m2 = "snd (mailbox_push ?m1 (VInt 3))"
  have park: "park_filter ?mb (idle_flow 1) FAny = (Inr (Inr 1), ?m1)" by (simp add: mailbox_eval)
  have "mailbox_step 0 [] ?m1 ?m2" by (rule mailbox_step.step_push [where r = "fst (mailbox_push ?m1 (VInt 3))"]) simp
  then have r2: "mailbox_run ?m1 0 [] ?m2" using mailbox_run.run_step [OF mailbox_run.run_start] by fastforce
  have "mb_parked ?m2 = None" by (simp add: mailbox_eval)
  moreover have "park_filter ?m2 (idle_flow 1) (FTag 7) = (Inr (Inr 2), reparked_inbox)"
    by (simp add: reparked_inbox_def mailbox_eval)
  ultimately have "mailbox_step 1 [] ?m2 reparked_inbox"
    using mailbox_step.step_park [of ?m2 "idle_flow 1" "FTag 7" "Inr (Inr 2)" reparked_inbox] by simp
  from mailbox_run.run_step [OF r2 this] have "mailbox_run ?m1 1 [] reparked_inbox" by simp
  from stale_deadline_is_harmless [OF park this] show ?thesis by simp
qed


end
