(* ===== verification/BF_CapTable.thy ===== *)
theory BF_CapTable
  imports BF_Process
begin

text \<open>
  \<open>scheduler/capability.rs\<close>: the runtime's table from capability ids to capabilities. The hash map of entries is an
  association list with distinct keys; revocation cells are shared with the flows, so the table names them and
  \<open>ct_cells\<close> is the store of their epochs. Entropy is a parameter: \<open>getrandom\<close> on the generator state \<open>ct_rng\<close>.
  Each critical section of the one mutex is one step; \<open>cap_attenuate_in\<close> and \<open>reissue_for\<close> are several.
\<close>

section \<open>State\<close>

definition MINT_ATTEMPTS :: nat where "MINT_ATTEMPTS = 32"

record capability =
  cy_holder :: flow_id
  cy_cap :: cap

definition capability_target :: "capability \<Rightarrow> flow_id option" where
  "capability_target e = target_flow_id (c_target (cy_cap e))"

datatype cap_error =
    CapUnknown
  | NotHolder
  | InsufficientRights
  | WrongTarget
  | CapUnavailable
  | DuplicateRequestId

fun cap_error_string :: "cap_error \<Rightarrow> string" where
  "cap_error_string CapUnknown = ''unknown or revoked capability''"
| "cap_error_string NotHolder = ''calling flow does not hold this capability''"
| "cap_error_string InsufficientRights = ''capability lacks required rights''"
| "cap_error_string WrongTarget = ''capability target is not a flow''"
| "cap_error_string CapUnavailable = ''capability table unavailable (poisoned lock)''"
| "cap_error_string DuplicateRequestId = ''duplicate in-flight request_id''"

record 'g cap_table =
  ct_entries :: "(cap_id \<times> capability) list"
  ct_flow_cells :: "flow_id \<rightharpoonup> cell_id"
  ct_reply_index :: "flow_id \<times> flow_id \<rightharpoonup> cap_id"
  ct_native_cell :: cell_id
  ct_scheduler_cell :: cell_id
  ct_cells :: cell_store
  ct_next_cell :: cell_id
  ct_rng :: 'g
  ct_poisoned :: bool

type_synonym 'g getrandom = "'g \<Rightarrow> bytes option \<times> 'g"
type_synonym ('g, 'e, 'a) ct_res = "('e + 'a) \<times> 'g cap_table"

definition cap_table_new :: "'g \<Rightarrow> 'g cap_table" where
  "cap_table_new g =
     \<lparr>ct_entries = [], ct_flow_cells = Map.empty, ct_reply_index = Map.empty, ct_native_cell = 0,
      ct_scheduler_cell = 1, ct_cells = (\<lambda>_. cell_new), ct_next_cell = 2, ct_rng = g, ct_poisoned = False\<rparr>"

definition ct_get :: "'g cap_table \<Rightarrow> cap_id \<Rightarrow> capability option" where
  "ct_get t cid = map_of (ct_entries t) cid"

section \<open>Operations\<close>

text \<open>\<open>flow_cells.entry(flow).or_insert_with(RevocationCell::new)\<close>\<close>

definition get_or_create_cell :: "flow_id \<Rightarrow> 'g cap_table \<Rightarrow> cell_id \<times> 'g cap_table" where
  "get_or_create_cell fid t =
     (case ct_flow_cells t fid of
        Some c \<Rightarrow> (c, t)
      | None \<Rightarrow>
          (ct_next_cell t,
           t\<lparr>ct_flow_cells := (ct_flow_cells t)(fid \<mapsto> ct_next_cell t),
             ct_cells := (ct_cells t)(ct_next_cell t := cell_new), ct_next_cell := Suc (ct_next_cell t)\<rparr>))"

definition bind_flow :: "flow_id \<Rightarrow> 'g cap_table \<Rightarrow> ('g, runtime_error, cell_id) ct_res" where
  "bind_flow fid t =
     (if ct_poisoned t then (Inl (PoisonedLock ''CapTable::bind_flow''), t)
      else case get_or_create_cell fid t of (c, t') \<Rightarrow> (Inr c, t'))"

definition flow_cell :: "flow_id \<Rightarrow> 'g cap_table \<Rightarrow> runtime_error + cell_id option" where
  "flow_cell fid t =
     (if ct_poisoned t then Inl (PoisonedLock ''CapTable::flow_cell'') else Inr (ct_flow_cells t fid))"

fun insert_fresh_loop :: "nat \<Rightarrow> 'g getrandom \<Rightarrow> capability \<Rightarrow> 'g cap_table \<Rightarrow> ('g, runtime_error, cap_id) ct_res" where
  "insert_fresh_loop 0 getrandom entry t = (Inl CapIdCollision, t)"
| "insert_fresh_loop (Suc n) getrandom entry t =
     (case cap_id_random getrandom (ct_rng t) of
        (None, g) \<Rightarrow> (Inl EntropyFailed, t\<lparr>ct_rng := g\<rparr>)
      | (Some cid, g) \<Rightarrow>
          if cap_id_is_none cid \<or> ct_get t cid \<noteq> None
          then insert_fresh_loop n getrandom entry (t\<lparr>ct_rng := g\<rparr>)
          else (Inr cid, t\<lparr>ct_rng := g, ct_entries := (cid, entry) # ct_entries t\<rparr>))"

definition insert_fresh :: "'g getrandom \<Rightarrow> capability \<Rightarrow> 'g cap_table \<Rightarrow> ('g, runtime_error, cap_id) ct_res" where
  "insert_fresh getrandom entry t = insert_fresh_loop MINT_ATTEMPTS getrandom entry t"

definition ct_insert :: "'g getrandom \<Rightarrow> flow_id \<Rightarrow> cap \<Rightarrow> 'g cap_table \<Rightarrow> ('g, runtime_error, cap_id) ct_res" where
  "ct_insert getrandom holder c t =
     (if ct_poisoned t then (Inl (PoisonedLock ''CapTable::insert''), t)
      else insert_fresh getrandom \<lparr>cy_holder = holder, cy_cap = c\<rparr> t)"

definition grant :: "'g getrandom \<Rightarrow> flow_id \<Rightarrow> cap \<Rightarrow> 'g cap_table \<Rightarrow> ('g, runtime_error, cap_id) ct_res" where
  "grant getrandom holder c t = ct_insert getrandom holder c t"

definition mint :: "'g getrandom \<Rightarrow> flow_id \<Rightarrow> flow_id \<Rightarrow> cap_rights \<Rightarrow> 'g cap_table \<Rightarrow> ('g, runtime_error, cap_id) ct_res" where
  "mint getrandom holder target rights t =
     (case bind_flow target t of
        (Inl e, t1) \<Rightarrow> (Inl e, t1)
      | (Inr cell, t1) \<Rightarrow> grant getrandom holder (cap_root (TFlow target) rights None (ct_cells t1 cell)) t1)"

definition reply_cap_is_live :: "'g cap_table \<Rightarrow> cap_id \<Rightarrow> flow_id \<Rightarrow> flow_id \<Rightarrow> cap_rights \<Rightarrow> bool" where
  "reply_cap_is_live t cid holder target rights =
     (case ct_get t cid of
        None \<Rightarrow> False
      | Some e \<Rightarrow>
          if cy_holder e \<noteq> holder then False
          else if c_target (cy_cap e) \<noteq> TFlow target then False
          else if \<not> contains (c_rights (cy_cap e)) rights then False
          else case ct_flow_cells t target of
            Some cell \<Rightarrow> cap_is_valid (cy_cap e) (ct_cells t cell)
          | None \<Rightarrow> False)"

definition mint_or_reuse ::
  "'g getrandom \<Rightarrow> flow_id \<Rightarrow> flow_id \<Rightarrow> cap_rights \<Rightarrow> 'g cap_table \<Rightarrow> ('g, runtime_error, cap_id) ct_res" where
  "mint_or_reuse getrandom holder target rights t =
     (if ct_poisoned t then (Inl (PoisonedLock ''CapTable::mint_or_reuse''), t)
      else
        let live = (case ct_reply_index t (holder, target) of
                Some cid \<Rightarrow> if reply_cap_is_live t cid holder target rights then Some cid else None
              | None \<Rightarrow> None) in
        case live of
          Some cid \<Rightarrow> (Inr cid, t)
        | None \<Rightarrow>
            let t0 = t\<lparr>ct_reply_index := (ct_reply_index t)((holder, target) := None)\<rparr> in
            (case get_or_create_cell target t0 of
               (cell, t1) \<Rightarrow>
                 (case insert_fresh getrandom
                     \<lparr>cy_holder = holder, cy_cap = cap_root (TFlow target) rights None (ct_cells t1 cell)\<rparr> t1 of
                    (Inl e, t2) \<Rightarrow> (Inl e, t2)
                  | (Inr cid, t2) \<Rightarrow>
                      (Inr cid, t2\<lparr>ct_reply_index := (ct_reply_index t2)((holder, target) \<mapsto> cid)\<rparr>))))"

definition ct_lookup :: "cap_id \<Rightarrow> 'g cap_table \<Rightarrow> runtime_error + capability option" where
  "ct_lookup cid t =
     (if cap_id_is_none cid then Inr None
      else if ct_poisoned t then Inl (PoisonedLock ''CapTable::lookup'')
      else Inr (ct_get t cid))"

definition entry_valid :: "'g cap_table \<Rightarrow> cap \<Rightarrow> bool" where
  "entry_valid t c =
     (case c_target c of
        TFlow fid \<Rightarrow>
          (case ct_flow_cells t fid of Some cell \<Rightarrow> cap_is_valid c (ct_cells t cell) | None \<Rightarrow> False)
      | TNativeTable \<Rightarrow> cap_is_valid c (ct_cells t (ct_native_cell t))
      | TScheduler \<Rightarrow> cap_is_valid c (ct_cells t (ct_scheduler_cell t)))"

definition resolve :: "cap_id \<Rightarrow> flow_id \<Rightarrow> cap_rights \<Rightarrow> 'g cap_table \<Rightarrow> cap_error + capability" where
  "resolve cid holder required t =
     (if cap_id_is_none cid then Inl CapUnknown
      else if ct_poisoned t then Inl CapUnavailable
      else case ct_get t cid of
        None \<Rightarrow> Inl CapUnknown
      | Some e \<Rightarrow>
          if cy_holder e \<noteq> holder then Inl NotHolder
          else if \<not> contains (c_rights (cy_cap e)) required then Inl InsufficientRights
          else if \<not> entry_valid t (cy_cap e) then Inl CapUnknown
          else Inr e)"

definition from_runtime :: "('g, runtime_error, 'a) ct_res \<Rightarrow> ('g, cap_error, 'a) ct_res" where
  "from_runtime r = (case r of (Inl _, t) \<Rightarrow> (Inl CapUnavailable, t) | (Inr x, t) \<Rightarrow> (Inr x, t))"

definition cap_attenuate_in ::
  "'g getrandom \<Rightarrow> cap_id \<Rightarrow> flow_id \<Rightarrow> flow_id \<Rightarrow> cap_rights \<Rightarrow> native_mask option \<Rightarrow> 'g cap_table \<Rightarrow>
     ('g, cap_error, cap_id) ct_res" where
  "cap_attenuate_in getrandom cid from_holder to_holder want_rights want_native t =
     (case resolve cid from_holder NONE t of
        Inl e \<Rightarrow> (Inl e, t)
      | Inr src \<Rightarrow>
          (case c_target (cy_cap src) of
             TFlow fid \<Rightarrow>
               (case ct_flow_cells t fid of
                  None \<Rightarrow> (Inl CapUnknown, t)
                | Some cell \<Rightarrow>
                    (case exec_delegate (cy_cap src) (ct_cells t cell) want_rights want_native of
                       Inl SourceRevoked \<Rightarrow> (Inl CapUnknown, t)
                     | Inl SourceLacksNative \<Rightarrow> (Inl InsufficientRights, t)
                     | Inr narrowed \<Rightarrow>
                         if \<not> cap_is_valid narrowed (ct_cells t cell) then (Inl CapUnknown, t)
                         else from_runtime (ct_insert getrandom to_holder narrowed t)))
           | _ \<Rightarrow> (Inl WrongTarget, t)))"

definition cap_delegate_in ::
  "'g getrandom \<Rightarrow> cap_id \<Rightarrow> flow_id \<Rightarrow> flow_id \<Rightarrow> 'g cap_table \<Rightarrow> ('g, cap_error, cap_id) ct_res" where
  "cap_delegate_in getrandom cid from_holder to_holder t =
     (case resolve cid from_holder NONE t of
        Inl e \<Rightarrow> (Inl e, t)
      | Inr src \<Rightarrow>
          cap_attenuate_in getrandom cid from_holder to_holder (c_rights (cy_cap src)) (c_native_mask (cy_cap src)) t)"

definition reissue_for :: "'g getrandom \<Rightarrow> cap_id \<Rightarrow> flow_id \<Rightarrow> 'g cap_table \<Rightarrow> ('g, cap_error, cap_id) ct_res" where
  "reissue_for getrandom cid new_holder t =
     (case ct_lookup cid t of
        Inl _ \<Rightarrow> (Inl CapUnavailable, t)
      | Inr None \<Rightarrow> (Inl CapUnknown, t)
      | Inr (Some e) \<Rightarrow>
          from_runtime (ct_insert getrandom new_holder
            (cap_attenuate (cy_cap e) (c_rights (cy_cap e)) (c_native_mask (cy_cap e))) t))"

definition revoke_flow :: "flow_id \<Rightarrow> 'g cap_table \<Rightarrow> ('g, runtime_error, usize) ct_res" where
  "revoke_flow fid t =
     (if ct_poisoned t then (Inl (PoisonedLock ''CapTable::revoke_flow''), t)
      else
        let cells = (case ct_flow_cells t fid of
                Some c \<Rightarrow> (ct_cells t)(c := cell_revoke (ct_cells t c)) | None \<Rightarrow> ct_cells t);
            before = length (ct_entries t);
            kept = filter (\<lambda>(_, e). cy_holder e \<noteq> fid \<and> c_target (cy_cap e) \<noteq> TFlow fid) (ct_entries t)
        in (Inr (before - length kept),
            t\<lparr>ct_cells := cells, ct_flow_cells := (ct_flow_cells t)(fid := None), ct_entries := kept,
              ct_reply_index := (\<lambda>(h, tg). if h \<noteq> fid \<and> tg \<noteq> fid then ct_reply_index t (h, tg) else None)\<rparr>))"

section \<open>Invariant\<close>

text \<open>
  Ids are distinct and never null, distinct flows have distinct cells (none of them the native or the scheduler cell),
  and the reply index points at live entries of its pair.
\<close>

definition cells_ok :: "'g cap_table \<Rightarrow> bool" where
  "cells_ok t \<longleftrightarrow>
     (\<forall>f g c. ct_flow_cells t f = Some c \<longrightarrow> ct_flow_cells t g = Some c \<longrightarrow> f = g) \<and>
     (\<forall>f c. ct_flow_cells t f = Some c \<longrightarrow> c < ct_next_cell t \<and> c \<noteq> ct_native_cell t \<and> c \<noteq> ct_scheduler_cell t) \<and>
     ct_native_cell t < ct_next_cell t \<and> ct_scheduler_cell t < ct_next_cell t"

definition index_ok :: "'g cap_table \<Rightarrow> bool" where
  "index_ok t \<longleftrightarrow>
     (\<forall>h tg cid. ct_reply_index t (h, tg) = Some cid \<longrightarrow>
        (\<exists>e. ct_get t cid = Some e \<and> cy_holder e = h \<and> c_target (cy_cap e) = TFlow tg))"

definition table_ok :: "'g cap_table \<Rightarrow> bool" where
  "table_ok t \<longleftrightarrow>
     distinct (map fst (ct_entries t)) \<and> CAP_NONE \<notin> fst ` set (ct_entries t) \<and> cells_ok t \<and> index_ok t"

lemma cap_table_new_ok: "table_ok (cap_table_new g)"
  by (simp add: table_ok_def cells_ok_def index_ok_def cap_table_new_def)

lemma get_or_create_cell_spec:
  assumes "get_or_create_cell fid t = (c, t')"
  shows "ct_flow_cells t' fid = Some c" and "ct_entries t' = ct_entries t" and "ct_reply_index t' = ct_reply_index t"
    and "ct_rng t' = ct_rng t" and "ct_poisoned t' = ct_poisoned t"
    and "cells_ok t \<Longrightarrow> cells_ok t'"
    and "cells_ok t \<Longrightarrow> ct_flow_cells t f = Some c' \<Longrightarrow> ct_flow_cells t' f = Some c' \<and> ct_cells t' c' = ct_cells t c'"
    and "cells_ok t \<Longrightarrow> ct_cells t' (ct_native_cell t') = ct_cells t (ct_native_cell t)
           \<and> ct_cells t' (ct_scheduler_cell t') = ct_cells t (ct_scheduler_cell t)"
proof -
  show "ct_flow_cells t' fid = Some c" "ct_entries t' = ct_entries t" "ct_reply_index t' = ct_reply_index t"
    "ct_rng t' = ct_rng t" "ct_poisoned t' = ct_poisoned t"
    using assms by (auto simp: get_or_create_cell_def split: option.splits)
  assume ok: "cells_ok t"
  have fresh: "c' \<noteq> ct_next_cell t" if "ct_flow_cells t f = Some c'" for f c'
    using ok that by (auto simp: cells_ok_def)
  have low: "ct_native_cell t \<noteq> ct_next_cell t" "ct_scheduler_cell t \<noteq> ct_next_cell t"
    using ok by (auto simp: cells_ok_def)
  show "cells_ok t'"
  proof (cases "ct_flow_cells t fid")
    case None
    then have t': "t' = t\<lparr>ct_flow_cells := (ct_flow_cells t)(fid \<mapsto> ct_next_cell t),
        ct_cells := (ct_cells t)(ct_next_cell t := cell_new), ct_next_cell := Suc (ct_next_cell t)\<rparr>"
      using assms by (auto simp: get_or_create_cell_def)
    show ?thesis using ok fresh low by (auto simp: cells_ok_def t' less_Suc_eq)
  next
    case (Some a)
    then show ?thesis using assms ok by (simp add: get_or_create_cell_def)
  qed
  show "ct_flow_cells t f = Some c' \<Longrightarrow> ct_flow_cells t' f = Some c' \<and> ct_cells t' c' = ct_cells t c'"
    using assms fresh [of f c'] by (auto simp: get_or_create_cell_def split: option.splits)
  show "ct_cells t' (ct_native_cell t') = ct_cells t (ct_native_cell t)
      \<and> ct_cells t' (ct_scheduler_cell t') = ct_cells t (ct_scheduler_cell t)"
    using assms low by (auto simp: get_or_create_cell_def split: option.splits)
qed

lemma ct_get_cong: "ct_entries t' = ct_entries t \<Longrightarrow> ct_get t' = ct_get t"
  by (rule ext) (simp add: ct_get_def)

lemma ct_get_updates [simp]:
  "ct_get (t\<lparr>ct_rng := g\<rparr>) = ct_get t" "ct_get (t\<lparr>ct_reply_index := ix\<rparr>) = ct_get t"
  "ct_get (t\<lparr>ct_rng := g, ct_entries := (k, e) # es\<rparr>) = (ct_get (t\<lparr>ct_entries := es\<rparr>))(k \<mapsto> e)"
  "ct_get (t\<lparr>ct_entries := ct_entries t\<rparr>) = ct_get t"
  by (auto simp: ct_get_def)

text \<open>A fresh insertion: a new, non-null id for the entry; the generator aside, nothing else changes.\<close>

lemma insert_fresh_spec:
  assumes "insert_fresh getrandom entry t = (r, t')"
  shows "r = Inr cid \<Longrightarrow> cid \<noteq> CAP_NONE \<and> ct_get t cid = None \<and>
      (\<exists>g. t' = t\<lparr>ct_rng := g, ct_entries := (cid, entry) # ct_entries t\<rparr>)"
    and "r = Inl e \<Longrightarrow> (\<exists>g. t' = t\<lparr>ct_rng := g\<rparr>)"
proof -
  have "(\<forall>cid. r = Inr cid \<longrightarrow> cid \<noteq> CAP_NONE \<and> ct_get t cid = None \<and>
        (\<exists>g. t' = t\<lparr>ct_rng := g, ct_entries := (cid, entry) # ct_entries t\<rparr>)) \<and>
      (\<forall>e. r = Inl e \<longrightarrow> (\<exists>g. t' = t\<lparr>ct_rng := g\<rparr>))"
    if "insert_fresh_loop n getrandom entry t = (r, t')" for n
    using that
  proof (induction n arbitrary: t)
    case 0
    then show ?case by (auto intro: exI [of _ "ct_rng t"])
  next
    case (Suc n)
    obtain o' g where d: "cap_id_random getrandom (ct_rng t) = (o', g)" by fastforce
    show ?case
    proof (cases o')
      case None
      then show ?thesis using Suc.prems d by auto
    next
      case (Some cid)
      have nn: "cid \<noteq> CAP_NONE"
        using cap_id_random_not_none [of getrandom "ct_rng t" cid g] d Some
        by (simp add: cap_id_is_none_def CAP_NONE_def)
      show ?thesis
      proof (cases "cap_id_is_none cid \<or> ct_get t cid \<noteq> None")
        case True
        then have "insert_fresh_loop n getrandom entry (t\<lparr>ct_rng := g\<rparr>) = (r, t')" using Suc.prems d Some by auto
        from Suc.IH [OF this] show ?thesis by fastforce
      next
        case False
        then show ?thesis using Suc.prems d Some nn by auto
      qed
    qed
  qed
  then show "r = Inr cid \<Longrightarrow> cid \<noteq> CAP_NONE \<and> ct_get t cid = None \<and>
      (\<exists>g. t' = t\<lparr>ct_rng := g, ct_entries := (cid, entry) # ct_entries t\<rparr>)"
    "r = Inl e \<Longrightarrow> (\<exists>g. t' = t\<lparr>ct_rng := g\<rparr>)"
    using assms unfolding insert_fresh_def by blast+
qed

lemma ct_get_None_iff: "ct_get t cid = None \<longleftrightarrow> cid \<notin> fst ` set (ct_entries t)"
  by (simp add: ct_get_def map_of_eq_None_iff)

lemma insert_fresh_ok:
  assumes "table_ok t" and "insert_fresh getrandom entry t = (r, t')"
  shows "table_ok t'"
proof (cases r)
  case (Inl e)
  then obtain g where "t' = t\<lparr>ct_rng := g\<rparr>" using insert_fresh_spec(2) [OF assms(2)] by blast
  then show ?thesis using assms(1) by (simp add: table_ok_def cells_ok_def index_ok_def)
next
  case (Inr cid)
  then obtain g where t': "t' = t\<lparr>ct_rng := g, ct_entries := (cid, entry) # ct_entries t\<rparr>"
    and new: "cid \<noteq> CAP_NONE" "ct_get t cid = None" using insert_fresh_spec(1) [OF assms(2)] by blast
  have "index_ok t'" unfolding index_ok_def
  proof (intro allI impI)
    fix h tg c
    assume "ct_reply_index t' (h, tg) = Some c"
    then have "ct_reply_index t (h, tg) = Some c" using t' by simp
    then obtain e where "ct_get t c = Some e" "cy_holder e = h" "c_target (cy_cap e) = TFlow tg"
      using assms(1) unfolding table_ok_def index_ok_def by blast
    then show "\<exists>e. ct_get t' c = Some e \<and> cy_holder e = h \<and> c_target (cy_cap e) = TFlow tg"
      using t' new by auto
  qed
  then show ?thesis using assms(1) t' new by (auto simp: table_ok_def cells_ok_def ct_get_None_iff)
qed

lemma ct_insert_ok: "table_ok t \<Longrightarrow> ct_insert getrandom h c t = (r, t') \<Longrightarrow> table_ok t'"
  by (auto simp: ct_insert_def dest: insert_fresh_ok split: if_splits)

lemma mint_ok:
  assumes "table_ok t" and "mint getrandom h tg rights t = (r, t')"
  shows "table_ok t'"
proof (cases "ct_poisoned t")
  case True
  then show ?thesis using assms by (simp add: mint_def bind_flow_def)
next
  case False
  obtain c t1 where g: "get_or_create_cell tg t = (c, t1)" by fastforce
  note s = get_or_create_cell_spec [OF g]
  have "table_ok t1" using assms(1) s(2,3,6) ct_get_cong [OF s(2)] by (simp add: table_ok_def index_ok_def)
  then show ?thesis using assms(2) g False by (auto simp: mint_def bind_flow_def grant_def dest: ct_insert_ok)
qed

lemma mint_or_reuse_ok:
  assumes ok: "table_ok t" and m: "mint_or_reuse getrandom h tg rights t = (r, t')"
  shows "table_ok t'"
proof (cases "ct_poisoned t \<or> (\<exists>cid. ct_reply_index t (h, tg) = Some cid \<and> reply_cap_is_live t cid h tg rights)")
  case True
  then have "t' = t" using m by (auto simp: mint_or_reuse_def split: if_splits)
  then show ?thesis using ok by simp
next
  case False
  let ?t0 = "t\<lparr>ct_reply_index := (ct_reply_index t)((h, tg) := None)\<rparr>"
  obtain c t1 where g: "get_or_create_cell tg ?t0 = (c, t1)" by fastforce
  let ?e = "\<lparr>cy_holder = h, cy_cap = cap_root (TFlow tg) rights None (ct_cells t1 c)\<rparr>"
  obtain r2 t2 where i: "insert_fresh getrandom ?e t1 = (r2, t2)" by fastforce
  have eq: "(r, t') = (case r2 of Inl e \<Rightarrow> (Inl e, t2)
      | Inr cid \<Rightarrow> (Inr cid, t2\<lparr>ct_reply_index := (ct_reply_index t2)((h, tg) \<mapsto> cid)\<rparr>))"
    using m False g i by (auto simp: mint_or_reuse_def Let_def split: option.splits sum.splits)
  have ok0: "table_ok ?t0" using ok by (auto simp: table_ok_def cells_ok_def index_ok_def)
  then have ok1: "table_ok t1"
    using get_or_create_cell_spec(2,3,6) [OF g] ct_get_cong [of t1 ?t0] by (simp add: table_ok_def index_ok_def)
  have ok2: "table_ok t2" by (rule insert_fresh_ok [OF ok1 i])
  show ?thesis
  proof (cases r2)
    case (Inl e)
    then show ?thesis using eq ok2 by simp
  next
    case (Inr cid)
    then have "ct_get t2 cid = Some ?e" using insert_fresh_spec(1) [OF i] by fastforce
    then show ?thesis
      using eq ok2 Inr by (auto simp: table_ok_def cells_ok_def index_ok_def cap_root_def)
  qed
qed

lemma ct_get_retain:
  "distinct (map fst xs) \<Longrightarrow> map_of (filter (\<lambda>(_, e). P e) xs) k =
     (case map_of xs k of Some e \<Rightarrow> if P e then Some e else None | None \<Rightarrow> None)"
  by (induction xs) (auto simp: map_of_eq_None_iff split: option.splits)

lemma revoke_flow_get:
  assumes "table_ok t" and "revoke_flow fid t = (Inr n, t')"
  shows "ct_get t' cid = (case ct_get t cid of
      Some e \<Rightarrow> if cy_holder e \<noteq> fid \<and> c_target (cy_cap e) \<noteq> TFlow fid then Some e else None | None \<Rightarrow> None)"
  using assms ct_get_retain [of "ct_entries t" "\<lambda>e. cy_holder e \<noteq> fid \<and> c_target (cy_cap e) \<noteq> TFlow fid" cid]
  by (auto simp: revoke_flow_def Let_def ct_get_def table_ok_def split: if_splits)

lemma revoke_flow_ok:
  assumes ok: "table_ok t" and r: "revoke_flow fid t = (r, t')"
  shows "table_ok t'"
proof (cases r)
  case (Inl e)
  then show ?thesis using assms by (auto simp: revoke_flow_def Let_def split: if_splits)
next
  case (Inr n)
  note get = revoke_flow_get [OF ok r [unfolded Inr]]
  have t': "ct_entries t' = filter (\<lambda>(_, e). cy_holder e \<noteq> fid \<and> c_target (cy_cap e) \<noteq> TFlow fid) (ct_entries t)"
    "ct_flow_cells t' = (ct_flow_cells t)(fid := None)" "ct_next_cell t' = ct_next_cell t"
    "ct_native_cell t' = ct_native_cell t" "ct_scheduler_cell t' = ct_scheduler_cell t"
    "ct_reply_index t' = (\<lambda>(h, tg). if h \<noteq> fid \<and> tg \<noteq> fid then ct_reply_index t (h, tg) else None)"
    using r Inr by (auto simp: revoke_flow_def Let_def split: if_splits)
  have "index_ok t'" unfolding index_ok_def
  proof (intro allI impI)
    fix h tg c
    assume a: "ct_reply_index t' (h, tg) = Some c"
    then have "h \<noteq> fid" "tg \<noteq> fid" "ct_reply_index t (h, tg) = Some c" using t'(6) by (auto split: if_splits)
    then show "\<exists>e. ct_get t' c = Some e \<and> cy_holder e = h \<and> c_target (cy_cap e) = TFlow tg"
      using ok get [of c] by (fastforce simp: table_ok_def index_ok_def)
  qed
  moreover have "cells_ok t'" using ok t' by (auto simp: table_ok_def cells_ok_def)
  moreover have "distinct (map fst (ct_entries t'))" "CAP_NONE \<notin> fst ` set (ct_entries t')"
    using ok t'(1) by (auto simp: table_ok_def intro!: distinct_map_filter)
  ultimately show ?thesis by (simp add: table_ok_def)
qed

section \<open>Derivation\<close>

text \<open>
  A table all of whose later entries are below earlier ones: what a step adds is derived. The contract composes along
  runs.
\<close>

locale derivation =
  fixes le :: "'a \<Rightarrow> 'a \<Rightarrow> bool"
    and entries_of :: "'s \<Rightarrow> 'a set"
    and step :: "'s \<Rightarrow> 's \<Rightarrow> bool"
  assumes le_refl: "le a a"
    and le_trans: "le a b \<Longrightarrow> le b c \<Longrightarrow> le a c"
    and step_derives: "step s s' \<Longrightarrow> a \<in> entries_of s' \<Longrightarrow> \<exists>b\<in>entries_of s. le a b"
begin

lemma run_derives: "step\<^sup>*\<^sup>* s s' \<Longrightarrow> a \<in> entries_of s' \<Longrightarrow> \<exists>b\<in>entries_of s. le a b"
proof (induction arbitrary: a rule: rtranclp_induct)
  case base
  then show ?case using le_refl by blast
next
  case (step y z)
  then show ?case using step_derives le_trans by blast
qed

end

text \<open>The operations flows and hosts derive capabilities by; minting is the runtime's own.\<close>

inductive derive_step :: "'g getrandom \<Rightarrow> 'g cap_table \<Rightarrow> 'g cap_table \<Rightarrow> bool" for getrandom where
  d_attenuate: "cap_attenuate_in getrandom cid from_h to_h rights nm t = (r, t') \<Longrightarrow> derive_step getrandom t t'"
| d_delegate: "cap_delegate_in getrandom cid from_h to_h t = (r, t') \<Longrightarrow> derive_step getrandom t t'"
| d_reissue: "reissue_for getrandom cid new_h t = (r, t') \<Longrightarrow> derive_step getrandom t t'"
| d_revoke: "revoke_flow fid t = (r', t') \<Longrightarrow> derive_step getrandom t t'"

definition ct_caps :: "'g cap_table \<Rightarrow> cap set" where
  "ct_caps t = (\<lambda>(_, e). cy_cap e) ` set (ct_entries t)"

lemma ct_caps_get: "ct_get t cid = Some e \<Longrightarrow> cy_cap e \<in> ct_caps t"
  by (force simp: ct_caps_def ct_get_def dest: map_of_SomeD)

lemma ct_insert_entries:
  assumes "ct_insert getrandom h c t = (r, t')"
  shows "ct_entries t' = ct_entries t \<or> (\<exists>cid. ct_entries t' = (cid, \<lparr>cy_holder = h, cy_cap = c\<rparr>) # ct_entries t)"
proof (cases "ct_poisoned t")
  case False
  then have i: "insert_fresh getrandom \<lparr>cy_holder = h, cy_cap = c\<rparr> t = (r, t')" using assms by (simp add: ct_insert_def)
  show ?thesis using insert_fresh_spec [OF i] by (cases r) auto
qed (use assms in \<open>simp add: ct_insert_def\<close>)

lemma ct_insert_caps: "ct_insert getrandom h c t = (r, t') \<Longrightarrow> ct_caps t' \<subseteq> insert c (ct_caps t)"
  by (drule ct_insert_entries) (auto simp: ct_caps_def)

lemma from_runtime_snd [simp]: "snd (from_runtime r) = snd r"
  by (auto simp: from_runtime_def split: prod.splits sum.splits)

lemma resolve_get: "resolve cid h req t = Inr e \<Longrightarrow> ct_get t cid = Some e"
  by (auto simp: resolve_def split: if_splits option.splits)

lemma attenuate_in_caps:
  assumes "cap_attenuate_in getrandom cid h h' rights nm t = (r, t')" and "c \<in> ct_caps t'"
  shows "\<exists>d\<in>ct_caps t. cap_le c d"
proof (cases "c \<in> ct_caps t")
  case True
  then show ?thesis using cap_att.le_refl by blast
next
  case False
  then have ne: "t' \<noteq> t" using assms(2) by auto
  then obtain src fid cell nw where res: "resolve cid h NONE t = Inr src"
    and ex: "exec_delegate (cy_cap src) (ct_cells t cell) rights nm = Inr nw"
    and ins: "(r, t') = from_runtime (ct_insert getrandom h' nw t)"
    using assms(1)
    by (auto simp: cap_attenuate_in_def split: sum.splits cap_target.splits option.splits delegate_error.splits if_splits)
  obtain r2 where "ct_insert getrandom h' nw t = (r2, t')"
    using arg_cong [OF ins, of snd] by (metis from_runtime_snd prod.collapse snd_conv)
  then have "c = nw" using ct_insert_caps assms(2) False by blast
  then show ?thesis using exec_delegate_le [OF ex] ct_caps_get [OF resolve_get [OF res]] by blast
qed

lemma derive_step_caps:
  assumes "derive_step getrandom t t'" and c: "c \<in> ct_caps t'"
  shows "\<exists>d\<in>ct_caps t. cap_le c d"
  using assms(1)
proof cases
  case (d_attenuate cid from_h to_h rights nm r)
  then show ?thesis using attenuate_in_caps c by blast
next
  case (d_delegate cid from_h to_h r)
  have "t' = t \<or> (\<exists>rights nm. cap_attenuate_in getrandom cid from_h to_h rights nm t = (r, t'))"
    using d_delegate by (auto simp: cap_delegate_in_def split: sum.splits)
  then show ?thesis using attenuate_in_caps c cap_att.le_refl by blast
next
  case (d_reissue cid new_h r)
  show ?thesis
  proof (cases "c \<in> ct_caps t")
    case True
    then show ?thesis using cap_att.le_refl by blast
  next
    case False
    then obtain e where e: "ct_lookup cid t = Inr (Some e)"
      and ins: "(r, t') = from_runtime (ct_insert getrandom new_h
            (cap_attenuate (cy_cap e) (c_rights (cy_cap e)) (c_native_mask (cy_cap e))) t)" (is "_ = from_runtime ?i")
      using d_reissue c by (auto simp: reissue_for_def split: sum.splits option.splits)
    have "ct_caps t' \<subseteq> insert (cap_attenuate (cy_cap e) (c_rights (cy_cap e)) (c_native_mask (cy_cap e))) (ct_caps t)"
      using ct_insert_caps [of getrandom new_h _ t "fst ?i" "snd ?i"] arg_cong [OF ins, of snd] by simp
    moreover have "cy_cap e \<in> ct_caps t" using e ct_caps_get by (auto simp: ct_lookup_def split: if_splits)
    ultimately show ?thesis using cap_attenuate_le c False by blast
  qed
next
  case (d_revoke fid r')
  then have "ct_caps t' \<subseteq> ct_caps t" by (auto simp: revoke_flow_def ct_caps_def Let_def split: if_splits)
  then show ?thesis using c cap_att.le_refl by blast
qed

interpretation derive: derivation cap_le ct_caps "derive_step getrandom" for getrandom
  by unfold_locales (use cap_att.le_refl cap_att.le_trans derive_step_caps in blast)+

section \<open>Resolution\<close>

lemma resolve_iff:
  "resolve cid h req t = Inr e \<longleftrightarrow>
     \<not> cap_id_is_none cid \<and> \<not> ct_poisoned t \<and> ct_get t cid = Some e \<and> cy_holder e = h \<and>
     contains (c_rights (cy_cap e)) req \<and> entry_valid t (cy_cap e)"
  by (auto simp: resolve_def split: option.splits)

lemma revoke_flow_valid:
  assumes "table_ok t" and "revoke_flow fid t = (Inr n, t')" and "c_target c \<noteq> TFlow fid"
  shows "entry_valid t' c = entry_valid t c"
proof -
  have t': "ct_flow_cells t' = (ct_flow_cells t)(fid := None)" "ct_native_cell t' = ct_native_cell t"
    "ct_scheduler_cell t' = ct_scheduler_cell t"
    "ct_cells t' = (case ct_flow_cells t fid of Some c \<Rightarrow> (ct_cells t)(c := cell_revoke (ct_cells t c)) | None \<Rightarrow> ct_cells t)"
    using assms(2) by (auto simp: revoke_flow_def Let_def split: if_splits)
  have other: "ct_cells t' x = ct_cells t x" if "ct_flow_cells t fid \<noteq> Some x" for x
    using that t'(4) by (auto split: option.splits)
  have "ct_flow_cells t fid \<noteq> Some (ct_native_cell t)" "ct_flow_cells t fid \<noteq> Some (ct_scheduler_cell t)"
    "\<And>f x. ct_flow_cells t f = Some x \<Longrightarrow> f \<noteq> fid \<Longrightarrow> ct_flow_cells t fid \<noteq> Some x"
    using assms(1) by (auto simp: table_ok_def cells_ok_def)
  then show ?thesis
    using assms(3) t' other by (auto simp: entry_valid_def split: cap_target.splits option.splits)
qed

text \<open>Minting gives its holder a token that resolves for every right it was minted with.\<close>

lemma mint_resolves:
  assumes ok: "table_ok t" and m: "mint getrandom h tg rights t = (Inr cid, t')" and req: "contains rights req"
  shows "\<exists>e. resolve cid h req t' = Inr e \<and> c_target (cy_cap e) = TFlow tg \<and> c_rights (cy_cap e) = rights"
proof -
  have np: "\<not> ct_poisoned t" using m by (auto simp: mint_def bind_flow_def)
  obtain c t1 where g: "get_or_create_cell tg t = (c, t1)" by fastforce
  note s = get_or_create_cell_spec [OF g]
  let ?e = "\<lparr>cy_holder = h, cy_cap = cap_root (TFlow tg) rights None (ct_cells t1 c)\<rparr>"
  have i: "insert_fresh getrandom ?e t1 = (Inr cid, t')"
    using m np g s(5) by (simp add: mint_def bind_flow_def grant_def ct_insert_def)
  then obtain g' where t': "t' = t1\<lparr>ct_rng := g', ct_entries := (cid, ?e) # ct_entries t1\<rparr>" and nn: "cid \<noteq> CAP_NONE"
    using insert_fresh_spec(1) [OF i] by blast
  have "entry_valid t' (cy_cap ?e)" using t' s(1) by (simp add: entry_valid_def cap_root_def cap_is_valid_def)
  then have "resolve cid h req t' = Inr ?e"
    using t' nn np s(5) req by (simp add: resolve_iff cap_id_is_none_def CAP_NONE_def cap_root_def)
  then show ?thesis by (simp add: cap_root_def)
qed

lemma mint_or_reuse_live:
  assumes ok: "table_ok t" and m: "mint_or_reuse getrandom h tg rights t = (Inr cid, t')"
  shows "ct_reply_index t' (h, tg) = Some cid \<and> reply_cap_is_live t' cid h tg rights \<and> \<not> ct_poisoned t'"
proof (cases "\<exists>cid. ct_reply_index t (h, tg) = Some cid \<and> reply_cap_is_live t cid h tg rights")
  case True
  then show ?thesis using m by (auto simp: mint_or_reuse_def split: if_splits)
next
  case False
  let ?t0 = "t\<lparr>ct_reply_index := (ct_reply_index t)((h, tg) := None)\<rparr>"
  obtain c t1 where g: "get_or_create_cell tg ?t0 = (c, t1)" by fastforce
  note s = get_or_create_cell_spec [OF g]
  let ?e = "\<lparr>cy_holder = h, cy_cap = cap_root (TFlow tg) rights None (ct_cells t1 c)\<rparr>"
  obtain r2 t2 where i: "insert_fresh getrandom ?e t1 = (r2, t2)" by fastforce
  have np: "\<not> ct_poisoned t" using m by (auto simp: mint_or_reuse_def)
  have eq: "(Inr cid, t') = (case r2 of Inl e \<Rightarrow> (Inl e, t2)
      | Inr cid \<Rightarrow> (Inr cid, t2\<lparr>ct_reply_index := (ct_reply_index t2)((h, tg) \<mapsto> cid)\<rparr>))"
    using m False g i np by (auto simp: mint_or_reuse_def Let_def split: option.splits sum.splits)
  then have r2: "r2 = Inr cid" and t': "t' = t2\<lparr>ct_reply_index := (ct_reply_index t2)((h, tg) \<mapsto> cid)\<rparr>"
    by (auto split: sum.splits)
  obtain g' where t2: "t2 = t1\<lparr>ct_rng := g', ct_entries := (cid, ?e) # ct_entries t1\<rparr>"
    using insert_fresh_spec(1) [OF i r2] by blast
  show ?thesis
    using s(1,5) np by (simp add: t' t2 reply_cap_is_live_def cap_root_def cap_is_valid_def contains_refl)
qed

section \<open>All operations\<close>

inductive ct_reach :: "'g getrandom \<Rightarrow> 'g \<Rightarrow> 'g cap_table \<Rightarrow> bool" for getrandom g0 where
  r_new: "ct_reach getrandom g0 (cap_table_new g0)"
| r_bind: "ct_reach getrandom g0 t \<Longrightarrow> bind_flow fid t = (rc, t') \<Longrightarrow> ct_reach getrandom g0 t'"
| r_mint: "ct_reach getrandom g0 t \<Longrightarrow> mint getrandom h tg rights t = (ri, t') \<Longrightarrow> ct_reach getrandom g0 t'"
| r_reply: "ct_reach getrandom g0 t \<Longrightarrow> mint_or_reuse getrandom h tg rights t = (ri, t') \<Longrightarrow> ct_reach getrandom g0 t'"
| r_grant: "ct_reach getrandom g0 t \<Longrightarrow> grant getrandom h c t = (ri, t') \<Longrightarrow> ct_reach getrandom g0 t'"
| r_derive: "ct_reach getrandom g0 t \<Longrightarrow> derive_step getrandom t t' \<Longrightarrow> ct_reach getrandom g0 t'"

lemma from_runtime_insert: "from_runtime (ct_insert getrandom h c t) = (r, t') \<Longrightarrow> \<exists>r2. ct_insert getrandom h c t = (r2, t')"
  by (auto simp: from_runtime_def split: prod.splits sum.splits)

lemma attenuate_in_ok: "table_ok t \<Longrightarrow> cap_attenuate_in getrandom cid h h' rights nm t = (r, t') \<Longrightarrow> table_ok t'"
  by (auto simp: cap_attenuate_in_def dest!: from_runtime_insert dest: ct_insert_ok
      split: sum.splits cap_target.splits option.splits delegate_error.splits if_splits)

lemma derive_step_ok: "derive_step getrandom t t' \<Longrightarrow> table_ok t \<Longrightarrow> table_ok t'"
proof (induction rule: derive_step.induct)
  case (d_delegate cid from_h to_h t r t')
  then show ?case by (auto simp: cap_delegate_in_def dest: attenuate_in_ok split: sum.splits)
next
  case (d_reissue cid new_h t r t')
  then show ?case
    by (auto simp: reissue_for_def dest!: from_runtime_insert dest: ct_insert_ok split: sum.splits option.splits)
qed (auto dest: attenuate_in_ok revoke_flow_ok)

lemma bind_flow_ok:
  assumes "table_ok t" and "bind_flow fid t = (r, t')"
  shows "table_ok t'"
proof (cases "ct_poisoned t")
  case True
  then show ?thesis using assms by (simp add: bind_flow_def)
next
  case False
  obtain c t1 where g: "get_or_create_cell fid t = (c, t1)" by fastforce
  then have "t' = t1" using assms(2) False by (simp add: bind_flow_def)
  then show ?thesis
    using assms(1) get_or_create_cell_spec(2,3,6) [OF g] ct_get_cong [of t1 t] by (simp add: table_ok_def index_ok_def)
qed

lemma ct_reach_ok: "ct_reach getrandom g0 t \<Longrightarrow> table_ok t"
  by (induction rule: ct_reach.induct)
    (auto intro: cap_table_new_ok dest: bind_flow_ok mint_ok mint_or_reuse_ok ct_insert_ok derive_step_ok simp: grant_def)

section \<open>Properties\<close>

text \<open>A deterministic generator, and a table in which flow 1 holds a capability on flow 2.\<close>

definition counting_rng :: "nat getrandom" where
  "counting_rng n = (Some [word_of_nat (Suc n)], Suc n)"

definition one_cap_table :: "nat cap_table" where
  "one_cap_table =
     \<lparr>ct_entries = [(1, \<lparr>cy_holder = 1, cy_cap = \<lparr>c_target = TFlow 2, c_rights = SEND_ASK, c_native_mask = None, c_epoch = 0\<rparr>\<rparr>)],
      ct_flow_cells = [2 \<mapsto> 2], ct_reply_index = Map.empty, ct_native_cell = 0, ct_scheduler_cell = 1,
      ct_cells = (\<lambda>_. cell_new), ct_next_cell = 3, ct_rng = 1, ct_poisoned = False\<rparr>"

lemma insert_fresh_step:
  "insert_fresh getrandom entry t =
     (case cap_id_random getrandom (ct_rng t) of
        (None, g) \<Rightarrow> (Inl EntropyFailed, t\<lparr>ct_rng := g\<rparr>)
      | (Some cid, g) \<Rightarrow>
          if cap_id_is_none cid \<or> ct_get t cid \<noteq> None
          then insert_fresh_loop 31 getrandom entry (t\<lparr>ct_rng := g\<rparr>)
          else (Inr cid, t\<lparr>ct_rng := g, ct_entries := (cid, entry) # ct_entries t\<rparr>))"
proof -
  have eq: "MINT_ATTEMPTS = Suc 31" by (simp add: MINT_ATTEMPTS_def)
  show ?thesis unfolding insert_fresh_def eq by (rule insert_fresh_loop.simps(2))
qed

lemma counting_rng_random:
  "(word_of_nat (unat (word_of_nat (Suc n) :: u8)) :: u128) \<noteq> 0 \<Longrightarrow>
   cap_id_random counting_rng n = (Some (word_of_nat (unat (word_of_nat (Suc n) :: u8))), Suc n)"
proof -
  have "(8::nat) = Suc 7" by simp
  then show "(word_of_nat (unat (word_of_nat (Suc n) :: u8)) :: u128) \<noteq> 0 \<Longrightarrow>
      cap_id_random counting_rng n = (Some (word_of_nat (unat (word_of_nat (Suc n) :: u8))), Suc n)"
    unfolding cap_id_random_def by (simp only: cap_id_random_loop.simps) (simp add: counting_rng_def Let_def)
qed

lemmas table_eval = one_cap_table_def mint_def bind_flow_def get_or_create_cell_def cap_table_new_def grant_def
  ct_insert_def insert_fresh_step counting_rng_random ct_get_def cap_id_is_none_def cap_root_def cell_new_def

lemma one_cap_table_mint: "mint counting_rng 1 2 SEND_ASK (cap_table_new 0) = (Inr 1, one_cap_table)"
  by (simp add: table_eval fun_upd_idem)

lemma one_cap_table_ok: "table_ok one_cap_table"
  using mint_ok [OF cap_table_new_ok one_cap_table_mint] .

text \<open>C16: derivation never escalates. However many attenuations, delegations, reissues and revocations run, with
  whatever ids and rights a flow asks for, every capability in the table carries no authority beyond some capability
  that was there before.\<close>

theorem derived_capabilities_never_escalate:
  "(derive_step getrandom)\<^sup>*\<^sup>* t t' \<Longrightarrow> c \<in> ct_caps t' \<Longrightarrow> \<exists>d\<in>ct_caps t. cap_le c d"
  by (rule derive.run_derives)

theorem derived_capabilities_never_escalate_witness:
  "\<exists>d\<in>ct_caps one_cap_table. cap_le \<lparr>c_target = TFlow 2, c_rights = SEND, c_native_mask = None, c_epoch = 0\<rparr> d"
proof -
  let ?t = "snd (cap_attenuate_in counting_rng 1 1 3 SEND None one_cap_table)"
  have "(derive_step counting_rng)\<^sup>*\<^sup>* one_cap_table ?t"
    by (rule r_into_rtranclp, rule d_attenuate [OF prod.collapse [symmetric]])
  moreover have "\<lparr>c_target = TFlow 2, c_rights = SEND, c_native_mask = None, c_epoch = 0\<rparr> \<in> ct_caps ?t"
    by (simp add: table_eval cap_attenuate_in_def resolve_def entry_valid_def contains_def NONE_def cap_is_valid_def
        exec_delegate_def cap_attenuate_def rights_intersect_def from_runtime_def ct_caps_def SEND_ASK_def SEND_def ASK_def)
  ultimately show ?thesis by (rule derived_capabilities_never_escalate)
qed

text \<open>C19: revocation is complete and confined. After \<open>revoke_flow\<close>, no token resolves to a capability held by the flow or
  addressing it; every other capability resolves exactly as before; and the count returned is the number of entries
  dropped.\<close>

theorem revoke_flow_complete_and_confined:
  assumes "ct_reach getrandom g0 t" and "revoke_flow fid t = (Inr n, t')"
  shows "(\<forall>cid h req e. resolve cid h req t' = Inr e \<longleftrightarrow>
      resolve cid h req t = Inr e \<and> cy_holder e \<noteq> fid \<and> c_target (cy_cap e) \<noteq> TFlow fid) \<and>
    length (ct_entries t') + n = length (ct_entries t)"
proof -
  have ok: "table_ok t" by (rule ct_reach_ok [OF assms(1)])
  have p: "ct_poisoned t' = ct_poisoned t" "\<not> ct_poisoned t"
    using assms(2) by (auto simp: revoke_flow_def Let_def split: if_splits)
  have "resolve cid h req t' = Inr e \<longleftrightarrow>
      resolve cid h req t = Inr e \<and> cy_holder e \<noteq> fid \<and> c_target (cy_cap e) \<noteq> TFlow fid" for cid h req e
    using revoke_flow_get [OF ok assms(2), of cid] revoke_flow_valid [OF ok assms(2), of "cy_cap e"] p
    by (auto simp: resolve_iff split: option.splits if_splits)
  moreover have "length (ct_entries t') + n = length (ct_entries t)"
    using assms(2) by (auto simp: revoke_flow_def Let_def split: if_splits)
  ultimately show ?thesis by blast
qed

lemma one_cap_table_reach: "ct_reach counting_rng 0 one_cap_table"
  by (rule ct_reach.r_mint [OF ct_reach.r_new one_cap_table_mint])

theorem revoke_flow_complete_and_confined_witness:
  "\<forall>cid h req e. resolve cid h req (snd (revoke_flow 2 one_cap_table)) \<noteq> Inr e"
proof -
  have r: "revoke_flow 2 one_cap_table = (Inr 1, snd (revoke_flow 2 one_cap_table))"
    by (simp add: revoke_flow_def one_cap_table_def)
  have "length (ct_entries (snd (revoke_flow 2 one_cap_table))) + 1 = length (ct_entries one_cap_table)"
    using revoke_flow_complete_and_confined [OF one_cap_table_reach r] by blast
  then have "ct_entries (snd (revoke_flow 2 one_cap_table)) = []" by (simp add: one_cap_table_def)
  then show ?thesis by (simp add: resolve_iff ct_get_def)
qed

text \<open>A reply address is minted once. Minting a reply capability again for the same pair and rights returns the same token and
  leaves the table untouched, so the table grows with the pairs that talk and not with the hops.\<close>

theorem mint_or_reuse_idempotent:
  assumes "ct_reach getrandom g0 t" and "mint_or_reuse getrandom h tg rights t = (Inr cid, t')"
  shows "mint_or_reuse getrandom h tg rights t' = (Inr cid, t')"
  using mint_or_reuse_live [OF ct_reach_ok [OF assms(1)] assms(2)] by (simp add: mint_or_reuse_def)

theorem mint_or_reuse_idempotent_witness:
  "mint_or_reuse counting_rng 5 2 SEND (snd (mint_or_reuse counting_rng 5 2 SEND one_cap_table))
     = (Inr 2, snd (mint_or_reuse counting_rng 5 2 SEND one_cap_table))"
proof -
  have "mint_or_reuse counting_rng 5 2 SEND one_cap_table
      = (Inr 2, snd (mint_or_reuse counting_rng 5 2 SEND one_cap_table))"
    by (simp add: table_eval mint_or_reuse_def Let_def)
  from mint_or_reuse_idempotent [OF one_cap_table_reach this] show ?thesis .
qed

text \<open>A minted token works for its holder, for every right it was minted with, and for nobody else.\<close>

theorem minted_token_resolves_for_holder_only:
  assumes "ct_reach getrandom g0 t" and "mint getrandom h tg rights t = (Inr cid, t')" and "contains rights req"
  shows "(\<exists>e. resolve cid h req t' = Inr e \<and> c_target (cy_cap e) = TFlow tg \<and> c_rights (cy_cap e) = rights) \<and>
    (\<forall>h'. h' \<noteq> h \<longrightarrow> resolve cid h' req t' = Inl NotHolder)"
proof -
  obtain e where e: "resolve cid h req t' = Inr e" "c_target (cy_cap e) = TFlow tg" "c_rights (cy_cap e) = rights"
    using mint_resolves [OF ct_reach_ok [OF assms(1)] assms(2,3)] by blast
  then have "resolve cid h' req t' = Inl NotHolder" if "h' \<noteq> h" for h'
    using that by (auto simp: resolve_def split: if_splits option.splits)
  with e show ?thesis by blast
qed

theorem minted_token_resolves_for_holder_only_witness:
  "resolve 1 9 SEND one_cap_table = Inl NotHolder"
proof -
  have "contains SEND_ASK SEND" by (simp add: contains_def SEND_ASK_def SEND_def ASK_def)
  from minted_token_resolves_for_holder_only [OF ct_reach.r_new one_cap_table_mint this]
  show ?thesis by simp
qed

text \<open>C30: an epoch does not outlive its cell. \<open>revoke_flow\<close> bumps the flow's cell and then forgets it, so binding the flow again
  starts a new cell at epoch 0: a capability value kept from the flow's first life, dead against the old cell, is
  valid against the new one.\<close>

theorem rebinding_revives_old_epoch:
  assumes "revoke_flow fid t = (Inr n, t1)" and "ct_flow_cells t fid = Some cell" and "ct_cells t cell = cell_new"
    and "bind_flow fid t1 = (Inr cell', t2)"
  shows "\<not> cap_is_valid (cap_root (TFlow fid) rights nm (ct_cells t cell)) (ct_cells t1 cell) \<and>
    cap_is_valid (cap_root (TFlow fid) rights nm (ct_cells t cell)) (ct_cells t2 cell')"
  using assms
  by (auto simp: revoke_flow_def Let_def bind_flow_def get_or_create_cell_def cap_is_valid_def cap_root_def cell_revoke_def
      cell_new_def split: if_splits)

theorem rebinding_revives_old_epoch_witness:
  "\<exists>cell' t2. bind_flow 2 (snd (revoke_flow 2 one_cap_table)) = (Inr cell', t2) \<and>
     cap_is_valid (cap_root (TFlow 2) SEND None (ct_cells one_cap_table 2)) (ct_cells t2 cell')"
proof -
  have r: "revoke_flow 2 one_cap_table = (Inr 1, snd (revoke_flow 2 one_cap_table))"
    by (simp add: revoke_flow_def one_cap_table_def)
  obtain cell' t2 where b: "bind_flow 2 (snd (revoke_flow 2 one_cap_table)) = (Inr cell', t2)"
    by (simp add: revoke_flow_def one_cap_table_def bind_flow_def get_or_create_cell_def)
  show ?thesis
    using rebinding_revives_old_epoch [OF r _ _ b, of 2 SEND None] b by (simp add: one_cap_table_def)
qed

end
