(* ===== verification/BF_Tables.thy ===== *)
theory BF_Tables
  imports BF_Process "HOL-Library.AList"
begin

text \<open>
  What the runtime's shared tables have in common: a mutex that may be poisoned (\<open>scheduler/sync_lock.rs\<close>), a hash map
  as the list of its entries in one iteration order, and the contract of a table kept together with its inverse index
  (registry names by flow, askers by target).
\<close>

section \<open>Mutexes\<close>

record 'a mutex =
  mx_poisoned :: bool
  mx_inner :: 'a

definition mutex_new :: "'a \<Rightarrow> 'a mutex" where
  "mutex_new x = \<lparr>mx_poisoned = False, mx_inner = x\<rparr>"

definition lock :: "'a mutex \<Rightarrow> string \<Rightarrow> runtime_error + 'a" where
  "lock m loc = (if mx_poisoned m then Inl (PoisonedLock loc) else Inr (mx_inner m))"

text \<open>One critical section: run \<open>f\<close> on the guarded data, or return the poison error and leave it alone.\<close>

definition locked :: "string \<Rightarrow> 'a mutex \<Rightarrow> ('a \<Rightarrow> 'b \<times> 'a) \<Rightarrow> (runtime_error + 'b) \<times> 'a mutex" where
  "locked loc m f =
     (case lock m loc of
        Inl e \<Rightarrow> (Inl e, m)
      | Inr x \<Rightarrow> (case f x of (r, y) \<Rightarrow> (Inr r, m\<lparr>mx_inner := y\<rparr>)))"

lemma lock_live [simp]: "\<not> mx_poisoned m \<Longrightarrow> lock m loc = Inr (mx_inner m)"
  by (simp add: lock_def)

lemma lock_mutex_new [simp]: "lock (mutex_new x) loc = Inr x"
  by (simp add: mutex_new_def)

lemma locked_live [simp]:
  "\<not> mx_poisoned m \<Longrightarrow> locked loc m f = (Inr (fst (f (mx_inner m))), m\<lparr>mx_inner := snd (f (mx_inner m))\<rparr>)"
  by (simp add: locked_def split: prod.split)

lemma locked_poisoned: "mx_poisoned m \<Longrightarrow> locked loc m f = (Inl (PoisonedLock loc), m)"
  by (simp add: locked_def lock_def)

lemma mx_poisoned_locked [simp]: "mx_poisoned (snd (locked loc m f)) = mx_poisoned m"
  by (simp add: locked_def split: sum.split prod.split)

section \<open>Hash maps\<close>

text \<open>The keys are distinct; a theorem about a map reads it through \<open>hm_get\<close>, so it does not depend on the order.\<close>

type_synonym ('k, 'v) hash_map = "('k \<times> 'v) list"

definition hm_get :: "('k, 'v) hash_map \<Rightarrow> 'k \<Rightarrow> 'v option" where
  "hm_get m k = map_of m k"

definition hm_insert :: "'k \<Rightarrow> 'v \<Rightarrow> ('k, 'v) hash_map \<Rightarrow> ('k, 'v) hash_map" where
  "hm_insert k v m = AList.update k v m"

definition hm_remove :: "'k \<Rightarrow> ('k, 'v) hash_map \<Rightarrow> ('k, 'v) hash_map" where
  "hm_remove k m = AList.delete k m"

definition hm_retain :: "('k \<Rightarrow> 'v \<Rightarrow> bool) \<Rightarrow> ('k, 'v) hash_map \<Rightarrow> ('k, 'v) hash_map" where
  "hm_retain keep m = filter (\<lambda>(k, v). keep k v) m"

definition hm_ok :: "('k, 'v) hash_map \<Rightarrow> bool" where
  "hm_ok m \<longleftrightarrow> distinct (map fst m)"

lemma hm_get_Nil [simp]: "hm_get [] k = None"
  by (simp add: hm_get_def)

lemma hm_ok_Nil [simp]: "hm_ok []"
  by (simp add: hm_ok_def)

lemma hm_get_insert [simp]: "hm_get (hm_insert k v m) = (hm_get m)(k \<mapsto> v)"
  by (rule ext) (simp add: hm_get_def hm_insert_def update_conv')

lemma hm_get_remove [simp]: "hm_get (hm_remove k m) = (hm_get m)(k := None)"
  by (rule ext) (simp add: hm_get_def hm_remove_def delete_conv')

lemma hm_ok_insert [simp]: "hm_ok m \<Longrightarrow> hm_ok (hm_insert k v m)"
  by (simp add: hm_ok_def hm_insert_def distinct_update)

lemma hm_ok_remove [simp]: "hm_ok m \<Longrightarrow> hm_ok (hm_remove k m)"
  by (simp add: hm_ok_def hm_remove_def distinct_delete)

lemma hm_ok_retain [simp]: "hm_ok m \<Longrightarrow> hm_ok (hm_retain keep m)"
  by (simp add: hm_ok_def hm_retain_def distinct_map_filter)

lemma hm_get_eq_iff: "hm_ok m \<Longrightarrow> hm_get m k = Some v \<longleftrightarrow> (k, v) \<in> set m"
  by (simp add: hm_get_def hm_ok_def)

lemma option_eqI: "(\<And>v. x = Some v \<longleftrightarrow> y = Some v) \<Longrightarrow> x = y"
  by (metis not_Some_eq)

lemma hm_get_retain:
  assumes "hm_ok m"
  shows "hm_get (hm_retain keep m) k = (case hm_get m k of Some v \<Rightarrow> if keep k v then Some v else None | None \<Rightarrow> None)"
proof (rule option_eqI)
  fix v
  have "hm_get (hm_retain keep m) k = Some v \<longleftrightarrow> hm_get m k = Some v \<and> keep k v"
    using assms by (simp add: hm_get_eq_iff) (simp add: hm_retain_def)
  then show "hm_get (hm_retain keep m) k = Some v \<longleftrightarrow>
      (case hm_get m k of Some v \<Rightarrow> if keep k v then Some v else None | None \<Rightarrow> None) = Some v"
    by (auto split: option.split)
qed

text \<open>A process-wide id counter below its last value hands out a larger id next.\<close>

lemma word_less_plus_one: "x \<noteq> - 1 \<Longrightarrow> x < x + 1" for x :: "'a::len word"
proof -
  assume "x \<noteq> - 1"
  then have "1 + x \<noteq> 0" by (simp add: add_eq_0_iff)
  then have "unat (1 + x) = Suc (unat x)" by (rule unatSuc)
  then show ?thesis by (simp add: word_less_nat_alt add.commute)
qed

section \<open>A table with its inverse index\<close>

text \<open>
  \<open>owner\<close> is the forward table and \<open>members\<close> the inverse one. The laws say what the three updates do to the forward
  table; the lemmas follow for both sides.
\<close>

locale inverse_index =
  fixes owner :: "'s \<Rightarrow> 'k \<Rightarrow> 'o option"
    and members :: "'s \<Rightarrow> 'o \<Rightarrow> 'k set"
    and add :: "'k \<Rightarrow> 'o \<Rightarrow> 'v \<Rightarrow> 's \<Rightarrow> 's"
    and drop :: "'k \<Rightarrow> 's \<Rightarrow> 's"
    and sweep :: "'o \<Rightarrow> 's \<Rightarrow> 's"
    and invar :: "'s \<Rightarrow> bool"
  assumes members_owner: "invar s \<Longrightarrow> k \<in> members s x \<longleftrightarrow> owner s k = Some x"
    and owner_add: "invar s \<Longrightarrow> owner s k = None \<Longrightarrow> owner (add k x v s) = (owner s)(k \<mapsto> x)"
    and owner_drop: "invar s \<Longrightarrow> owner (drop k s) = (owner s)(k := None)"
    and owner_sweep: "invar s \<Longrightarrow> owner (sweep x s) k = (if owner s k = Some x then None else owner s k)"
    and invar_add: "invar s \<Longrightarrow> owner s k = None \<Longrightarrow> invar (add k x v s)"
    and invar_drop: "invar s \<Longrightarrow> invar (drop k s)"
    and invar_sweep: "invar s \<Longrightarrow> invar (sweep x s)"
begin

lemma members_add:
  "invar s \<Longrightarrow> owner s k = None \<Longrightarrow> members (add k x v s) y = (if y = x then insert k (members s x) else members s y)"
  by (auto simp: members_owner invar_add owner_add split: if_splits)

lemma members_drop: "invar s \<Longrightarrow> members (drop k s) y = members s y - {k}"
  by (auto simp: members_owner invar_drop owner_drop split: if_splits)

lemma members_sweep: "invar s \<Longrightarrow> members (sweep x s) y = (if y = x then {} else members s y)"
  by (auto simp: members_owner invar_sweep owner_sweep split: if_splits)

lemma sweep_complete: "invar s \<Longrightarrow> owner (sweep x s) k \<noteq> Some x"
  by (simp add: owner_sweep)

lemma sweep_confined: "invar s \<Longrightarrow> owner s k = Some y \<Longrightarrow> y \<noteq> x \<Longrightarrow> owner (sweep x s) k = Some y"
  by (simp add: owner_sweep)

lemma drop_add: "invar s \<Longrightarrow> owner s k = None \<Longrightarrow> owner (drop k (add k x v s)) = owner s"
  using owner_drop [OF invar_add] by (auto simp: owner_add fun_eq_iff)

end

end
