(* ===== verification/BF_Relations.thy ===== *)
theory BF_Relations
  imports BF_Tables "HOL-Library.Multiset"
begin

text \<open>
  \<open>scheduler/link.rs\<close>, \<open>scheduler/monitor.rs\<close> and \<open>scheduler/link_admin.rs\<close>: the two lifecycle relations between flows
  and the checks of the capabilities that authorise them. The id counters are process-wide atomics; they are part of the
  table's record here. The invariants say that two flows share at most one link, that ids are below the counter, and
  what an exiting flow leaves behind: nothing.
\<close>

section \<open>Exit reasons\<close>

datatype flow_exit_reason =
  RNormal | RShutdown | RKilled | RFault | RMailboxOverflow | RSupervisor | RLink

fun exit_reason_as_u64 :: "flow_exit_reason \<Rightarrow> u64" where
  "exit_reason_as_u64 RNormal = 0"
| "exit_reason_as_u64 RShutdown = 1"
| "exit_reason_as_u64 RKilled = 2"
| "exit_reason_as_u64 RFault = 3"
| "exit_reason_as_u64 RMailboxOverflow = 4"
| "exit_reason_as_u64 RSupervisor = 5"
| "exit_reason_as_u64 RLink = 6"

definition exit_reason_from_u64 :: "u64 \<Rightarrow> flow_exit_reason option" where
  "exit_reason_from_u64 raw =
     (if raw = 0 then Some RNormal else if raw = 1 then Some RShutdown else if raw = 2 then Some RKilled
      else if raw = 3 then Some RFault else if raw = 4 then Some RMailboxOverflow
      else if raw = 5 then Some RSupervisor else if raw = 6 then Some RLink else None)"

definition is_abnormal :: "flow_exit_reason \<Rightarrow> bool" where
  "is_abnormal r = (r \<noteq> RNormal)"

fun exit_reason_string :: "flow_exit_reason \<Rightarrow> string" where
  "exit_reason_string RNormal = ''normal''"
| "exit_reason_string RShutdown = ''shutdown''"
| "exit_reason_string RKilled = ''killed''"
| "exit_reason_string RFault = ''fault''"
| "exit_reason_string RMailboxOverflow = ''mailbox-overflow''"
| "exit_reason_string RSupervisor = ''supervisor''"
| "exit_reason_string RLink = ''link''"

lemma exit_reason_roundtrip: "exit_reason_from_u64 (exit_reason_as_u64 r) = Some r"
  by (cases r) (simp_all add: exit_reason_from_u64_def)

section \<open>Links\<close>

type_synonym link_id = u64

record link =
  lk_a :: flow_id
  lk_b :: flow_id

record link_table =
  lt_links :: "(link_id, link) hash_map"
  lt_next :: u64

definition link_table_new :: link_table where
  "link_table_new = \<lparr>lt_links = [], lt_next = 1\<rparr>"

definition link_joins :: "flow_id \<Rightarrow> flow_id \<Rightarrow> link \<Rightarrow> bool" where
  "link_joins a b l = ((lk_a l = a \<and> lk_b l = b) \<or> (lk_a l = b \<and> lk_b l = a))"

definition table_link :: "flow_id \<Rightarrow> flow_id \<Rightarrow> link_table \<Rightarrow> (lifecycle_error + link_id) \<times> link_table" where
  "table_link a b t =
     (if a = b then (Inl SelfRelation, t)
      else if list_ex (\<lambda>(_, l). link_joins a b l) (lt_links t) then (Inl AlreadyLinked, t)
      else let lid = lt_next t in
        (Inr lid, t\<lparr>lt_links := hm_insert lid \<lparr>lk_a = a, lk_b = b\<rparr> (lt_links t), lt_next := lid + 1\<rparr>))"

definition unlink_owned :: "flow_id \<Rightarrow> link_id \<Rightarrow> link_table \<Rightarrow> (lifecycle_error + unit) \<times> link_table" where
  "unlink_owned owner lid t =
     (case hm_get (lt_links t) lid of
        Some l \<Rightarrow>
          (if lk_a l = owner \<or> lk_b l = owner then (Inr (), t\<lparr>lt_links := hm_remove lid (lt_links t)\<rparr>)
           else (Inl NotOwner, t))
      | None \<Rightarrow> (Inl InvalidLink, t))"

text \<open>\<open>retain\<close> with the side list: the peer of every dropped link, in iteration order.\<close>

fun link_peer :: "flow_id \<Rightarrow> link_id \<times> link \<Rightarrow> (link_id \<times> flow_id) option" where
  "link_peer target (lid, l) =
     (if lk_a l = target then Some (lid, lk_b l) else if lk_b l = target then Some (lid, lk_a l) else None)"

definition remove_links_of :: "flow_id \<Rightarrow> link_table \<Rightarrow> (link_id \<times> flow_id) list \<times> link_table" where
  "remove_links_of target t =
     (List.map_filter (link_peer target) (lt_links t),
      t\<lparr>lt_links := hm_retain (\<lambda>lid l. link_peer target (lid, l) = None) (lt_links t)\<rparr>)"

definition links_link :: "flow_id \<Rightarrow> flow_id \<Rightarrow> link_table mutex \<Rightarrow>
    (runtime_error + (lifecycle_error + link_id)) \<times> link_table mutex" where
  "links_link a b m = locked ''LinkStore::link'' m (table_link a b)"

definition links_unlink_owned :: "flow_id \<Rightarrow> link_id \<Rightarrow> link_table mutex \<Rightarrow>
    (runtime_error + (lifecycle_error + unit)) \<times> link_table mutex" where
  "links_unlink_owned owner lid m = locked ''LinkStore::unlink_owned'' m (unlink_owned owner lid)"

definition links_remove_links_of :: "flow_id \<Rightarrow> link_table mutex \<Rightarrow>
    (runtime_error + (link_id \<times> flow_id) list) \<times> link_table mutex" where
  "links_remove_links_of target m = locked ''LinkStore::remove_links_of'' m (remove_links_of target)"

definition linked :: "link_table \<Rightarrow> flow_id \<Rightarrow> flow_id \<Rightarrow> bool" where
  "linked t a b \<longleftrightarrow> (\<exists>lid l. hm_get (lt_links t) lid = Some l \<and> link_joins a b l)"

text \<open>At most one link per pair, never to itself, and every id was handed out.\<close>

definition links_ok :: "link_table \<Rightarrow> bool" where
  "links_ok t \<longleftrightarrow>
     hm_ok (lt_links t) \<and>
     (\<forall>lid l. hm_get (lt_links t) lid = Some l \<longrightarrow> lk_a l \<noteq> lk_b l \<and> lid < lt_next t) \<and>
     (\<forall>i j k l. hm_get (lt_links t) i = Some k \<longrightarrow> hm_get (lt_links t) j = Some l \<longrightarrow>
        link_joins (lk_a k) (lk_b k) l \<longrightarrow> i = j)"

section \<open>Monitors\<close>

type_synonym monitor_ref = u64

record monitor_entry =
  mo_owner :: flow_id
  mo_target :: flow_id

record down_event =
  de_monitor :: monitor_ref
  de_owner :: flow_id
  de_target :: flow_id
  de_reason :: flow_exit_reason

record monitor_table =
  mt_monitors :: "(monitor_ref, monitor_entry) hash_map"
  mt_next :: u64

definition monitor_table_new :: monitor_table where
  "monitor_table_new = \<lparr>mt_monitors = [], mt_next = 1\<rparr>"

definition monitor_create :: "flow_id \<Rightarrow> flow_id \<Rightarrow> monitor_table \<Rightarrow> monitor_ref \<times> monitor_table" where
  "monitor_create owner target t =
     (let mon = mt_next t in
      (mon, t\<lparr>mt_monitors := hm_insert mon \<lparr>mo_owner = owner, mo_target = target\<rparr> (mt_monitors t), mt_next := mon + 1\<rparr>))"

definition monitor_remove_owned :: "flow_id \<Rightarrow> monitor_ref \<Rightarrow> monitor_table \<Rightarrow> (lifecycle_error + unit) \<times> monitor_table" where
  "monitor_remove_owned owner mon t =
     (case hm_get (mt_monitors t) mon of
        Some e \<Rightarrow>
          (if mo_owner e = owner then (Inr (), t\<lparr>mt_monitors := hm_remove mon (mt_monitors t)\<rparr>)
           else (Inl NotOwner, t))
      | None \<Rightarrow> (Inl InvalidMonitor, t))"

definition remove_owned_by :: "flow_id \<Rightarrow> monitor_table \<Rightarrow> monitor_table" where
  "remove_owned_by owner t = t\<lparr>mt_monitors := hm_retain (\<lambda>_ e. mo_owner e \<noteq> owner) (mt_monitors t)\<rparr>"

definition notify_target_exit ::
  "flow_id \<Rightarrow> flow_exit_reason \<Rightarrow> monitor_table \<Rightarrow> down_event list \<times> monitor_table" where
  "notify_target_exit target reason t =
     (sort_key de_monitor
        (map (\<lambda>(mon, e). \<lparr>de_monitor = mon, de_owner = mo_owner e, de_target = target, de_reason = reason\<rparr>)
          (filter (\<lambda>(_, e). mo_target e = target) (mt_monitors t))),
      t\<lparr>mt_monitors := hm_retain (\<lambda>_ e. mo_target e \<noteq> target) (mt_monitors t)\<rparr>)"

definition monitors_create :: "flow_id \<Rightarrow> flow_id \<Rightarrow> monitor_table mutex \<Rightarrow>
    (runtime_error + monitor_ref) \<times> monitor_table mutex" where
  "monitors_create owner target m = locked ''MonitorStore::create'' m (monitor_create owner target)"

definition monitors_remove_owned :: "flow_id \<Rightarrow> monitor_ref \<Rightarrow> monitor_table mutex \<Rightarrow>
    (runtime_error + (lifecycle_error + unit)) \<times> monitor_table mutex" where
  "monitors_remove_owned owner mon m = locked ''MonitorStore::remove_owned'' m (monitor_remove_owned owner mon)"

definition monitors_remove_owned_by :: "flow_id \<Rightarrow> monitor_table mutex \<Rightarrow> (runtime_error + unit) \<times> monitor_table mutex" where
  "monitors_remove_owned_by owner m = locked ''MonitorStore::remove_owned_by'' m (\<lambda>t. ((), remove_owned_by owner t))"

definition monitors_notify_target_exit :: "flow_id \<Rightarrow> flow_exit_reason \<Rightarrow> monitor_table mutex \<Rightarrow>
    (runtime_error + down_event list) \<times> monitor_table mutex" where
  "monitors_notify_target_exit target reason m =
     locked ''MonitorStore::notify_target_exit'' m (notify_target_exit target reason)"

definition monitors_ok :: "monitor_table \<Rightarrow> bool" where
  "monitors_ok t \<longleftrightarrow> hm_ok (mt_monitors t) \<and> (\<forall>mon e. hm_get (mt_monitors t) mon = Some e \<longrightarrow> mon < mt_next t)"

section \<open>Authority checks\<close>

datatype link_error = LinkWrongTarget | LinkMissingRight | LinkCapRevoked

fun link_error_string :: "link_error \<Rightarrow> string" where
  "link_error_string LinkWrongTarget = ''cap does not target this flow''"
| "link_error_string LinkMissingRight = ''cap lacks LINK/MONITOR right''"
| "link_error_string LinkCapRevoked = ''capability revoked''"

definition check_link :: "cap \<Rightarrow> revocation_cell \<Rightarrow> u64 \<Rightarrow> link_error + unit" where
  "check_link c cell target =
     (if \<not> cap_is_valid c cell then Inl LinkCapRevoked
      else if c_target c \<noteq> TFlow target then Inl LinkWrongTarget
      else if \<not> contains (c_rights c) LINK then Inl LinkMissingRight
      else Inr ())"

definition check_monitor :: "cap \<Rightarrow> revocation_cell \<Rightarrow> u64 \<Rightarrow> link_error + unit" where
  "check_monitor c cell target =
     (if \<not> cap_is_valid c cell then Inl LinkCapRevoked
      else if c_target c \<noteq> TFlow target then Inl LinkWrongTarget
      else if \<not> contains (c_rights c) MONITOR then Inl LinkMissingRight
      else Inr ())"

datatype admin_error = AdminMissingRight | AdminCapRevoked | AdminWrongTarget

fun admin_error_string :: "admin_error \<Rightarrow> string" where
  "admin_error_string AdminMissingRight = ''cap lacks ADMIN right''"
| "admin_error_string AdminCapRevoked = ''capability revoked''"
| "admin_error_string AdminWrongTarget = ''ADMIN requires CapTarget::Scheduler''"

definition check_admin :: "cap \<Rightarrow> revocation_cell \<Rightarrow> admin_error + unit" where
  "check_admin c cell =
     (if \<not> cap_is_valid c cell then Inl AdminCapRevoked
      else if c_target c \<noteq> TScheduler then Inl AdminWrongTarget
      else if \<not> contains (c_rights c) ADMIN then Inl AdminMissingRight
      else Inr ())"

lemmas relation_check_defs = check_link_def check_monitor_def check_admin_def

section \<open>Links: invariant and behaviour\<close>

lemma link_joins_sym: "link_joins a b l \<longleftrightarrow> link_joins b a l"
  by (auto simp: link_joins_def)

lemma linked_sym: "linked t a b \<longleftrightarrow> linked t b a"
  by (simp add: linked_def link_joins_sym [of a])

lemma linked_list_ex: "hm_ok (lt_links t) \<Longrightarrow> list_ex (\<lambda>(_, l). link_joins a b l) (lt_links t) \<longleftrightarrow> linked t a b"
  by (auto simp: linked_def list_ex_iff hm_get_eq_iff)

lemma links_okD:
  assumes "links_ok t"
  shows "hm_ok (lt_links t)"
    and "hm_get (lt_links t) lid = Some l \<Longrightarrow> lk_a l \<noteq> lk_b l \<and> lid < lt_next t"
    and "hm_get (lt_links t) i = Some k \<Longrightarrow> hm_get (lt_links t) j = Some l \<Longrightarrow> link_joins (lk_a k) (lk_b k) l \<Longrightarrow> i = j"
  using assms unfolding links_ok_def by blast+

lemma links_ok_new: "links_ok link_table_new"
  by (simp add: links_ok_def link_table_new_def)

text \<open>Removing entries keeps the invariant.\<close>

lemma links_ok_submap:
  assumes ok: "links_ok t" and m: "hm_ok m" and sub: "\<And>lid l. hm_get m lid = Some l \<Longrightarrow> hm_get (lt_links t) lid = Some l"
  shows "links_ok (t\<lparr>lt_links := m\<rparr>)"
  using m unfolding links_ok_def by (auto dest!: sub dest: links_okD(2, 3) [OF ok])

lemma table_link_cases:
  assumes "links_ok t"
  shows "table_link a b t =
    (if a = b then (Inl SelfRelation, t) else if linked t a b then (Inl AlreadyLinked, t)
     else (Inr (lt_next t),
       t\<lparr>lt_links := hm_insert (lt_next t) \<lparr>lk_a = a, lk_b = b\<rparr> (lt_links t), lt_next := lt_next t + 1\<rparr>))"
  unfolding table_link_def linked_list_ex [OF links_okD(1) [OF assms]] Let_def ..

lemma links_ok_link:
  assumes ok: "links_ok t" and run: "table_link a b t = (r, t')" and room: "lt_next t \<noteq> - 1"
  shows "links_ok t'"
proof (cases "a = b \<or> linked t a b")
  case True
  with run have "t' = t" by (auto simp: table_link_cases [OF ok] split: if_splits)
  with ok show ?thesis by simp
next
  case False
  with run have t': "t' = t\<lparr>lt_links := hm_insert (lt_next t) \<lparr>lk_a = a, lk_b = b\<rparr> (lt_links t), lt_next := lt_next t + 1\<rparr>"
    by (auto simp: table_link_cases [OF ok])
  have later: "lt_next t < lt_next t + 1" by (rule word_less_plus_one [OF room])
  show ?thesis
    unfolding links_ok_def t'
  proof (intro conjI allI impI, goal_cases)
    case 1
    then show ?case using links_okD(1) [OF ok] by simp
  next
    case (2 lid l)
    then show ?case using False links_okD(2) [OF ok] by (auto split: if_splits)
  next
    case (3 lid l)
    then show ?case using later links_okD(2) [OF ok, of lid l] by (auto split: if_splits)
  next
    case (4 i j k l)
    then show ?case
      using links_okD(3) [OF ok, of i k j l] False
      by (fastforce simp: linked_def link_joins_def split: if_splits)
  qed
qed

lemma ex_hm_insert:
  assumes "hm_get m k = None"
  shows "(\<exists>i l. hm_get (hm_insert k v m) i = Some l \<and> P l) \<longleftrightarrow> P v \<or> (\<exists>i l. hm_get m i = Some l \<and> P l)"
proof
  assume "P v \<or> (\<exists>i l. hm_get m i = Some l \<and> P l)"
  then show "\<exists>i l. hm_get (hm_insert k v m) i = Some l \<and> P l"
  proof
    assume "\<exists>i l. hm_get m i = Some l \<and> P l"
    then obtain i l where "hm_get m i = Some l" "P l" by blast
    with assms have "hm_get (hm_insert k v m) i = Some l \<and> P l" by auto
    then show ?thesis by blast
  qed (auto intro: exI [of _ k])
qed (auto split: if_splits)

lemma linked_link:
  assumes "links_ok t" and "table_link a b t = (Inr lid, t')"
  shows "linked t' x y \<longleftrightarrow> linked t x y \<or> {x, y} = {a, b}"
proof -
  have fresh: "hm_get (lt_links t) (lt_next t) = None"
    using links_okD(2) [OF assms(1), of "lt_next t"] by (cases "hm_get (lt_links t) (lt_next t)") auto
  have "lt_links t' = hm_insert (lt_next t) \<lparr>lk_a = a, lk_b = b\<rparr> (lt_links t)"
    using assms(2) by (auto simp: table_link_def Let_def split: if_splits)
  then have "linked t' x y \<longleftrightarrow> linked t x y \<or> link_joins x y \<lparr>lk_a = a, lk_b = b\<rparr>"
    using ex_hm_insert [OF fresh] by (simp add: linked_def) blast
  then show ?thesis by (auto simp: link_joins_def doubleton_eq_iff)
qed

lemma link_peer_eq: "link_peer target (lid, l) = Some (i, p) \<longleftrightarrow>
    i = lid \<and> ((lk_a l = target \<and> p = lk_b l) \<or> (lk_a l \<noteq> target \<and> lk_b l = target \<and> p = lk_a l))"
  by auto

lemma link_peer_joins:
  "lk_a l \<noteq> lk_b l \<Longrightarrow> link_peer target (lid, l) = Some (i, p) \<longleftrightarrow> i = lid \<and> link_joins target p l"
  by (auto simp: link_joins_def)

lemma set_map_filter: "y \<in> set (List.map_filter f xs) \<longleftrightarrow> (\<exists>x\<in>set xs. f x = Some y)"
  by (induction xs) (auto simp: map_filter_simps split: option.split)

lemma remove_links_peers:
  assumes "links_ok t"
  shows "(lid, p) \<in> set (fst (remove_links_of target t)) \<longleftrightarrow>
    (\<exists>l. hm_get (lt_links t) lid = Some l \<and> link_joins target p l)"
proof -
  have "(lid, p) \<in> set (fst (remove_links_of target t)) \<longleftrightarrow>
      (\<exists>l. (lid, l) \<in> set (lt_links t) \<and> link_peer target (lid, l) = Some (lid, p))"
    by (simp add: remove_links_of_def set_map_filter del: link_peer.simps) (metis link_peer_eq surj_pair)
  also have "\<dots> \<longleftrightarrow> (\<exists>l. hm_get (lt_links t) lid = Some l \<and> link_joins target p l)"
    using links_okD(1, 2) [OF assms] link_peer_joins by (metis hm_get_eq_iff)
  finally show ?thesis .
qed

lemma distinct_map_filter_fst:
  "distinct (map fst xs) \<Longrightarrow> (\<And>x y. f x = Some y \<Longrightarrow> fst y = fst x) \<Longrightarrow> distinct (map fst (List.map_filter f xs))"
  by (induction xs) (auto simp: map_filter_simps set_map_filter image_iff split: option.split, metis fst_conv)

lemma remove_links_linked:
  assumes "links_ok t"
  shows "linked (snd (remove_links_of target t)) x y \<longleftrightarrow> linked t x y \<and> x \<noteq> target \<and> y \<noteq> target"
  using links_okD(1) [OF assms]
  by (auto simp: linked_def remove_links_of_def hm_get_retain link_joins_def split: option.splits if_splits)

lemma links_ok_remove: "links_ok t \<Longrightarrow> links_ok (snd (remove_links_of target t))"
  by (auto simp: remove_links_of_def hm_get_retain links_okD(1) intro!: links_ok_submap split: option.splits if_splits)

lemma links_ok_unlink: "links_ok t \<Longrightarrow> links_ok (snd (unlink_owned owner lid t))"
  by (auto simp: unlink_owned_def links_okD(1) intro!: links_ok_submap split: option.split if_splits)

text \<open>Tables the code can build, with the id counter below its last value.\<close>

inductive link_reach :: "link_table \<Rightarrow> bool" where
  lr_new: "link_reach link_table_new"
| lr_link: "link_reach t \<Longrightarrow> lt_next t \<noteq> - 1 \<Longrightarrow> table_link a b t = (r, t') \<Longrightarrow> link_reach t'"
| lr_unlink: "link_reach t \<Longrightarrow> unlink_owned owner lid t = (r, t') \<Longrightarrow> link_reach t'"
| lr_remove: "link_reach t \<Longrightarrow> remove_links_of target t = (r, t') \<Longrightarrow> link_reach t'"

lemma link_reach_ok: "link_reach t \<Longrightarrow> links_ok t"
proof (induction rule: link_reach.induct)
  case (lr_unlink t owner lid r t')
  then show ?case using links_ok_unlink [of t owner lid] by simp
next
  case (lr_remove t target r t')
  then show ?case using links_ok_remove [of t target] by simp
qed (auto simp: links_ok_new intro: links_ok_link)

section \<open>Monitors: invariant and behaviour\<close>

lemma monitors_ok_new: "monitors_ok monitor_table_new"
  by (simp add: monitors_ok_def monitor_table_new_def)

lemma monitors_ok_create: "monitors_ok t \<Longrightarrow> mt_next t \<noteq> - 1 \<Longrightarrow> monitors_ok (snd (monitor_create owner target t))"
  using word_less_plus_one [of "mt_next t"] by (auto simp: monitors_ok_def monitor_create_def Let_def intro: order.strict_trans)

lemma monitors_ok_remove: "monitors_ok t \<Longrightarrow> monitors_ok (snd (monitor_remove_owned owner mon t))"
  by (auto simp: monitors_ok_def monitor_remove_owned_def split: option.split)

lemma monitors_ok_remove_by: "monitors_ok t \<Longrightarrow> monitors_ok (remove_owned_by owner t)"
  by (auto simp: monitors_ok_def remove_owned_by_def hm_get_retain split: option.splits if_splits)

lemma monitors_ok_notify: "monitors_ok t \<Longrightarrow> monitors_ok (snd (notify_target_exit target reason t))"
  by (auto simp: monitors_ok_def notify_target_exit_def hm_get_retain split: option.splits if_splits)

inductive monitor_reach :: "monitor_table \<Rightarrow> bool" where
  mr_new: "monitor_reach monitor_table_new"
| mr_create: "monitor_reach t \<Longrightarrow> mt_next t \<noteq> - 1 \<Longrightarrow> monitor_create owner target t = (mon, t') \<Longrightarrow> monitor_reach t'"
| mr_remove: "monitor_reach t \<Longrightarrow> monitor_remove_owned owner mon t = (r, t') \<Longrightarrow> monitor_reach t'"
| mr_remove_by: "monitor_reach t \<Longrightarrow> monitor_reach (remove_owned_by owner t)"
| mr_notify: "monitor_reach t \<Longrightarrow> notify_target_exit target reason t = (evs, t') \<Longrightarrow> monitor_reach t'"

lemma monitor_reach_ok: "monitor_reach t \<Longrightarrow> monitors_ok t"
proof (induction rule: monitor_reach.induct)
  case (mr_create t owner target mon t')
  then show ?case using monitors_ok_create [of t owner target] by simp
next
  case (mr_remove t owner mon r t')
  then show ?case using monitors_ok_remove [of t owner mon] by simp
next
  case (mr_notify t target reason evs t')
  then show ?case using monitors_ok_notify [of t target reason] by simp
qed (auto simp: monitors_ok_new intro: monitors_ok_remove_by)

lemma notify_events:
  assumes "monitors_ok t"
  shows "\<lparr>de_monitor = mon, de_owner = owner, de_target = target, de_reason = reason\<rparr>
      \<in> set (fst (notify_target_exit target reason t)) \<longleftrightarrow>
    hm_get (mt_monitors t) mon = Some \<lparr>mo_owner = owner, mo_target = target\<rparr>"
proof -
  have "(\<exists>e. (mon, e) \<in> set (mt_monitors t) \<and> mo_target e = target \<and> mo_owner e = owner) \<longleftrightarrow>
      (mon, \<lparr>mo_owner = owner, mo_target = target\<rparr>) \<in> set (mt_monitors t)"
    by (metis monitor_entry.select_convs monitor_entry.surjective old.unit.exhaust)
  with assms show ?thesis
    by (auto simp: notify_target_exit_def monitors_ok_def hm_get_eq_iff image_iff)
qed

lemma notify_sorted:
  assumes "monitors_ok t"
  shows "sorted_wrt (<) (map de_monitor (fst (notify_target_exit target reason t)))"
proof -
  let ?mons = "filter (\<lambda>(_, e). mo_target e = target) (mt_monitors t)"
  let ?evs = "map (\<lambda>(mon, e). \<lparr>de_monitor = mon, de_owner = mo_owner e, de_target = target, de_reason = reason\<rparr>) ?mons"
  have "map de_monitor ?evs = map fst ?mons" by (induction "mt_monitors t") auto
  moreover have "distinct (map fst ?mons)"
    using assms by (simp add: monitors_ok_def hm_ok_def distinct_map_filter)
  ultimately have "distinct (map de_monitor ?evs)" by metis
  then have "distinct (map de_monitor (sort_key de_monitor ?evs))"
    by (simp only: distinct_map distinct_sort set_sort simp_thms)
  then show ?thesis
    by (simp add: notify_target_exit_def strict_sorted_iff)
qed

lemma notify_remaining:
  assumes "monitors_ok t"
  shows "hm_get (mt_monitors (snd (notify_target_exit target reason t))) mon = Some e \<longleftrightarrow>
    hm_get (mt_monitors t) mon = Some e \<and> mo_target e \<noteq> target"
  using assms by (auto simp: notify_target_exit_def monitors_ok_def hm_get_retain split: option.split)

lemma notify_again: "fst (notify_target_exit target reason' (snd (notify_target_exit target reason t))) = []"
  by (simp add: notify_target_exit_def hm_retain_def split_def)

section \<open>Properties\<close>

text \<open>An exiting flow severs exactly its links: in any table the code can build, \<open>remove_links_of\<close> returns each
  peer linked to the flow (in either direction) exactly once, leaves every link between other flows in place and none
  that mentions the flow, so a peer is signalled once and never again.\<close>
theorem exit_severs_links_once:
  assumes "link_reach t" "remove_links_of target t = (peers, t')"
  shows "distinct (map snd peers) \<and> set (map snd peers) = {p. linked t target p} \<and>
    (\<forall>x y. linked t' x y \<longleftrightarrow> linked t x y \<and> x \<noteq> target \<and> y \<noteq> target)"
proof (intro conjI)
  from assms(1) have ok: "links_ok t" by (rule link_reach_ok)
  have peers: "peers = fst (remove_links_of target t)" and t': "t' = snd (remove_links_of target t)"
    using assms(2) by simp_all
  have mem: "(lid, p) \<in> set peers \<longleftrightarrow> (\<exists>l. hm_get (lt_links t) lid = Some l \<and> link_joins target p l)" for lid p
    unfolding peers by (rule remove_links_peers [OF ok])
  then show "set (map snd peers) = {p. linked t target p}"
    by (force simp: linked_def)
  have "distinct (map fst peers)"
    unfolding peers remove_links_of_def using links_okD(1) [OF ok]
    by (auto simp: hm_ok_def intro!: distinct_map_filter_fst split: if_splits)
  moreover have "i = j" if "(i, p) \<in> set peers" "(j, p) \<in> set peers" for i j p
    using that links_okD(3) [OF ok, of i _ j] by (auto simp: mem link_joins_def)
  ultimately show "distinct (map snd peers)"
    by (auto simp: distinct_map inj_on_def)
  show "\<forall>x y. linked t' x y \<longleftrightarrow> linked t x y \<and> x \<noteq> target \<and> y \<noteq> target"
    unfolding t' using remove_links_linked [OF ok] by blast
qed

text \<open>C33: every monitor of an exiting flow fires exactly once: \<open>notify_target_exit\<close> yields one DOWN event per monitor of
  the target, naming its owner and the reason, in strictly ascending order of the monitor references whatever the hash
  map's iteration order, keeps every other monitor, and a second notification yields nothing.\<close>
theorem down_events_exactly_once:
  assumes "monitor_reach t" "notify_target_exit target reason t = (evs, t')"
  shows "sorted_wrt (<) (map de_monitor evs) \<and>
    (\<forall>mon owner. \<lparr>de_monitor = mon, de_owner = owner, de_target = target, de_reason = reason\<rparr> \<in> set evs \<longleftrightarrow>
       hm_get (mt_monitors t) mon = Some \<lparr>mo_owner = owner, mo_target = target\<rparr>) \<and>
    (\<forall>mon e. hm_get (mt_monitors t') mon = Some e \<longleftrightarrow> hm_get (mt_monitors t) mon = Some e \<and> mo_target e \<noteq> target) \<and>
    fst (notify_target_exit target reason' t') = []"
proof -
  from assms(1) have ok: "monitors_ok t" by (rule monitor_reach_ok)
  have evs: "evs = fst (notify_target_exit target reason t)" and t': "t' = snd (notify_target_exit target reason t)"
    using assms(2) by simp_all
  show ?thesis
    using notify_sorted [OF ok] notify_events [OF ok] notify_remaining [OF ok] notify_again
    by (simp add: evs t')
qed

definition three_links :: link_table where
  "three_links = snd (table_link 3 1 (snd (table_link 2 3 (snd (table_link 1 2 link_table_new)))))"

lemma three_links_reach: "link_reach three_links"
proof -
  have step: "link_reach (snd (table_link a b t))" if "link_reach t" "lt_next t \<noteq> - 1" for a b t
    using lr_link [OF that] by (metis surjective_pairing)
  show ?thesis unfolding three_links_def
    by (intro step lr_new) (simp_all add: link_table_new_def table_link_def link_joins_def hm_insert_def)
qed

lemmas three_links_simps = three_links_def link_table_new_def table_link_def link_joins_def hm_insert_def

theorem exit_severs_links_once_witness:
  "set (map snd (fst (remove_links_of 1 three_links))) = {2, 3} \<and>
   linked (snd (remove_links_of 1 three_links)) 2 3 \<and> \<not> linked (snd (remove_links_of 1 three_links)) 1 2"
proof -
  obtain peers t' where run: "remove_links_of 1 three_links = (peers, t')" by fastforce
  note sev = exit_severs_links_once [OF three_links_reach run]
  have "linked three_links 1 p \<longleftrightarrow> p = 2 \<or> p = 3" "linked three_links 2 3" for p
    unfolding linked_list_ex [OF links_okD(1) [OF link_reach_ok [OF three_links_reach]], symmetric]
    by (auto simp: three_links_simps)
  with sev show ?thesis by (auto simp: run)
qed

definition two_monitors :: monitor_table where
  "two_monitors = snd (monitor_create 7 9 (snd (monitor_create 5 9 monitor_table_new)))"

lemma two_monitors_reach: "monitor_reach two_monitors"
proof -
  have step: "monitor_reach (snd (monitor_create a b t))" if "monitor_reach t" "mt_next t \<noteq> - 1" for a b t
    using mr_create [OF that] by (metis surjective_pairing)
  show ?thesis unfolding two_monitors_def
    by (intro step mr_new) (simp_all add: monitor_table_new_def monitor_create_def)
qed

theorem down_events_exactly_once_witness:
  "\<lparr>de_monitor = 2, de_owner = 7, de_target = 9, de_reason = RFault\<rparr> \<in> set (fst (notify_target_exit 9 RFault two_monitors)) \<and>
   fst (notify_target_exit 9 RKilled (snd (notify_target_exit 9 RFault two_monitors))) = []"
proof -
  obtain evs t' where run: "notify_target_exit 9 RFault two_monitors = (evs, t')" by fastforce
  note down = down_events_exactly_once [OF two_monitors_reach run, where reason' = RKilled]
  have "hm_get (mt_monitors two_monitors) 2 = Some \<lparr>mo_owner = 7, mo_target = 9\<rparr>"
    by (simp add: two_monitors_def monitor_create_def monitor_table_new_def Let_def)
  with down show ?thesis by (simp add: run)
qed

end
