(* ===== verification/BF_Registry.thy ===== *)
theory BF_Registry
  imports BF_Tables
begin

text \<open>
  \<open>scheduler/registry.rs\<close> (names), \<open>scheduler/directory.rs\<close> (live mailboxes by flow, in 64 shards) and the three wait
  tables of \<open>scheduler/finalize.rs\<close>: kill signals, flows waiting to send, and askers by target. The registry and the
  ask index keep a table with its inverse; both are instances of \<open>inverse_index\<close>. A \<open>HashSet\<close> is a list without
  repetition; a mailbox is named by its identity.
\<close>

section \<open>Registry\<close>

record reg_entry =
  re_cap :: cap_id
  re_flow :: flow_id

record registry =
  rg_by_name :: "(bytes, reg_entry) hash_map"
  rg_by_flow :: "(flow_id, bytes list) hash_map"

definition registry_new :: registry where
  "registry_new = \<lparr>rg_by_name = [], rg_by_flow = []\<rparr>"

text \<open>\<open>map.entry(k).or_default()\<close> of a map of lists.\<close>

definition hm_list :: "('k, 'v list) hash_map \<Rightarrow> 'k \<Rightarrow> 'v list" where
  "hm_list m k = (case hm_get m k of Some vs \<Rightarrow> vs | None \<Rightarrow> [])"

text \<open>Drop one element of the list under a key, and the key with it when the list gets empty.\<close>

definition hm_list_remove :: "'k \<Rightarrow> 'v \<Rightarrow> ('k, 'v list) hash_map \<Rightarrow> ('k, 'v list) hash_map" where
  "hm_list_remove k v m =
     (case hm_get m k of
        None \<Rightarrow> m
      | Some vs \<Rightarrow> (let vs' = filter (\<lambda>w. w \<noteq> v) vs in if vs' = [] then hm_remove k m else hm_insert k vs' m))"

definition reg_add :: "bytes \<Rightarrow> flow_id \<Rightarrow> cap_id \<Rightarrow> registry \<Rightarrow> registry" where
  "reg_add nm fid c r =
     r\<lparr>rg_by_flow := hm_insert fid (hm_list (rg_by_flow r) fid @ [nm]) (rg_by_flow r),
       rg_by_name := hm_insert nm \<lparr>re_cap = c, re_flow = fid\<rparr> (rg_by_name r)\<rparr>"

definition reg_register :: "bytes \<Rightarrow> cap_id \<Rightarrow> flow_id \<Rightarrow> registry \<Rightarrow> (lifecycle_error + unit) \<times> registry" where
  "reg_register nm c fid r =
     (if nm = [] then (Inl EmptyName, r)
      else if hm_get (rg_by_name r) nm \<noteq> None then (Inl AlreadyRegistered, r)
      else (Inr (), reg_add nm fid c r))"

definition reg_whereis :: "bytes \<Rightarrow> registry \<Rightarrow> cap_id option" where
  "reg_whereis nm r = map_option re_cap (hm_get (rg_by_name r) nm)"

definition reg_target :: "bytes \<Rightarrow> registry \<Rightarrow> flow_id option" where
  "reg_target nm r = map_option re_flow (hm_get (rg_by_name r) nm)"

definition reg_unregister :: "bytes \<Rightarrow> registry \<Rightarrow> bool \<times> registry" where
  "reg_unregister nm r =
     (case hm_get (rg_by_name r) nm of
        Some e \<Rightarrow>
          (True, r\<lparr>rg_by_name := hm_remove nm (rg_by_name r), rg_by_flow := hm_list_remove (re_flow e) nm (rg_by_flow r)\<rparr>)
      | None \<Rightarrow> (False, r))"

definition unregister_flow :: "flow_id \<Rightarrow> registry \<Rightarrow> registry" where
  "unregister_flow fid r =
     (case hm_get (rg_by_flow r) fid of
        Some names \<Rightarrow>
          r\<lparr>rg_by_flow := hm_remove fid (rg_by_flow r), rg_by_name := foldl (\<lambda>m nm. hm_remove nm m) (rg_by_name r) names\<rparr>
      | None \<Rightarrow> r)"

definition registry_register :: "bytes \<Rightarrow> cap_id \<Rightarrow> flow_id \<Rightarrow> registry mutex \<Rightarrow>
    (runtime_error + (lifecycle_error + unit)) \<times> registry mutex" where
  "registry_register nm c fid m = locked ''RegistryStore::register'' m (reg_register nm c fid)"

definition registry_whereis :: "bytes \<Rightarrow> registry mutex \<Rightarrow> runtime_error + cap_id option" where
  "registry_whereis nm m = bind_res (lock m ''RegistryStore::whereis'') (\<lambda>r. Inr (reg_whereis nm r))"

definition registry_target :: "bytes \<Rightarrow> registry mutex \<Rightarrow> runtime_error + flow_id option" where
  "registry_target nm m = bind_res (lock m ''RegistryStore::target'') (\<lambda>r. Inr (reg_target nm r))"

definition registry_unregister :: "bytes \<Rightarrow> registry mutex \<Rightarrow> (runtime_error + bool) \<times> registry mutex" where
  "registry_unregister nm m = locked ''RegistryStore::unregister'' m (reg_unregister nm)"

definition registry_unregister_flow :: "flow_id \<Rightarrow> registry mutex \<Rightarrow> (runtime_error + unit) \<times> registry mutex" where
  "registry_unregister_flow fid m = locked ''RegistryStore::unregister_flow'' m (\<lambda>r. ((), unregister_flow fid r))"

section \<open>Directory\<close>

definition SHARDS :: nat where "SHARDS = 64"

type_synonym directory = "(flow_id, nat) hash_map mutex list"

definition directory_new :: directory where
  "directory_new = replicate SHARDS (mutex_new [])"

definition shard_for :: "flow_id \<Rightarrow> nat" where
  "shard_for fid = unat fid mod SHARDS"

definition directory_register :: "flow_id \<Rightarrow> nat \<Rightarrow> directory \<Rightarrow> (runtime_error + unit) \<times> directory" where
  "directory_register fid mailbox d =
     (case locked ''Directory::register'' (d ! shard_for fid) (\<lambda>m. ((), hm_insert fid mailbox m)) of
        (r, s) \<Rightarrow> (r, d[shard_for fid := s]))"

definition directory_unregister :: "flow_id \<Rightarrow> directory \<Rightarrow> (runtime_error + unit) \<times> directory" where
  "directory_unregister fid d =
     (case locked ''Directory::unregister'' (d ! shard_for fid) (\<lambda>m. ((), hm_remove fid m)) of
        (r, s) \<Rightarrow> (r, d[shard_for fid := s]))"

definition directory_lookup :: "flow_id \<Rightarrow> directory \<Rightarrow> runtime_error + nat option" where
  "directory_lookup fid d = bind_res (lock (d ! shard_for fid) ''Directory::lookup'') (\<lambda>m. Inr (hm_get m fid))"

text \<open>The sum over the shards, up to the first poisoned one.\<close>

fun directory_len_from :: "directory \<Rightarrow> nat" where
  "directory_len_from [] = 0"
| "directory_len_from (s # d) =
     (case lock s ''Directory::len'' of Inr m \<Rightarrow> length m + directory_len_from d | Inl _ \<Rightarrow> 0)"

definition directory_len :: "directory \<Rightarrow> usize" where
  "directory_len d = directory_len_from d"

section \<open>Wait tables of the finalizer\<close>

type_synonym 'r kill_table = "(flow_id, 'r) hash_map"

definition kill_set :: "flow_id \<Rightarrow> 'r \<Rightarrow> 'r kill_table mutex \<Rightarrow> (runtime_error + unit) \<times> 'r kill_table mutex" where
  "kill_set fid reason m = locked ''KillSignals::set'' m (\<lambda>t. ((), hm_insert fid reason t))"

definition kill_take :: "flow_id \<Rightarrow> 'r kill_table mutex \<Rightarrow> (runtime_error + 'r option) \<times> 'r kill_table mutex" where
  "kill_take fid m = locked ''KillSignals::take'' m (\<lambda>t. (hm_get t fid, hm_remove fid t))"

type_synonym waiting_table = "(flow_id, flow_id) hash_map"

definition waiting_insert :: "flow_id \<Rightarrow> flow_id \<Rightarrow> waiting_table mutex \<Rightarrow> (runtime_error + unit) \<times> waiting_table mutex" where
  "waiting_insert sender target m = locked ''WaitingSendIndex::insert'' m (\<lambda>t. ((), hm_insert sender target t))"

definition waiting_remove :: "flow_id \<Rightarrow> waiting_table mutex \<Rightarrow> (runtime_error + flow_id option) \<times> waiting_table mutex" where
  "waiting_remove sender m = locked ''WaitingSendIndex::remove'' m (\<lambda>t. (hm_get t sender, hm_remove sender t))"

definition waiting_get :: "flow_id \<Rightarrow> waiting_table mutex \<Rightarrow> runtime_error + flow_id option" where
  "waiting_get sender m = bind_res (lock m ''WaitingSendIndex::get'') (\<lambda>t. Inr (hm_get t sender))"

record ask_table =
  aw_by_asker :: "(flow_id, flow_id) hash_map"
  aw_by_target :: "(flow_id, flow_id list) hash_map"
  aw_request_ids :: "(flow_id, u64) hash_map"

definition ask_table_new :: ask_table where
  "ask_table_new = \<lparr>aw_by_asker = [], aw_by_target = [], aw_request_ids = []\<rparr>"

datatype duplicate_ask = DuplicateAsk

definition ask_add :: "flow_id \<Rightarrow> flow_id \<Rightarrow> u64 \<Rightarrow> ask_table \<Rightarrow> ask_table" where
  "ask_add asker target rid t =
     t\<lparr>aw_request_ids := hm_insert asker rid (aw_request_ids t), aw_by_asker := hm_insert asker target (aw_by_asker t),
       aw_by_target := hm_insert target (List.insert asker (hm_list (aw_by_target t) target)) (aw_by_target t)\<rparr>"

definition ask_insert_in :: "flow_id \<Rightarrow> flow_id \<Rightarrow> u64 \<Rightarrow> ask_table \<Rightarrow> (duplicate_ask + unit) \<times> ask_table" where
  "ask_insert_in asker target rid t =
     (if hm_get (aw_request_ids t) asker \<noteq> None then (Inl DuplicateAsk, t) else (Inr (), ask_add asker target rid t))"

definition ask_remove_in :: "flow_id \<Rightarrow> ask_table \<Rightarrow> flow_id option \<times> ask_table" where
  "ask_remove_in asker t =
     (let t' = t\<lparr>aw_request_ids := hm_remove asker (aw_request_ids t)\<rparr> in
      case hm_get (aw_by_asker t) asker of
        None \<Rightarrow> (None, t')
      | Some target \<Rightarrow>
          (Some target, t'\<lparr>aw_by_asker := hm_remove asker (aw_by_asker t),
             aw_by_target := hm_list_remove target asker (aw_by_target t)\<rparr>))"

definition ask_take_in :: "flow_id \<Rightarrow> ask_table \<Rightarrow> flow_id list \<times> ask_table" where
  "ask_take_in target t =
     (case hm_get (aw_by_target t) target of
        None \<Rightarrow> ([], t)
      | Some askers \<Rightarrow>
          (askers, t\<lparr>aw_by_target := hm_remove target (aw_by_target t),
             aw_by_asker := foldl (\<lambda>m a. hm_remove a m) (aw_by_asker t) askers,
             aw_request_ids := foldl (\<lambda>m a. hm_remove a m) (aw_request_ids t) askers\<rparr>))"

definition ask_insert :: "flow_id \<Rightarrow> flow_id \<Rightarrow> u64 \<Rightarrow> ask_table mutex \<Rightarrow>
    (runtime_error + (duplicate_ask + unit)) \<times> ask_table mutex" where
  "ask_insert asker target rid m = locked ''AskWaitIndex::insert'' m (ask_insert_in asker target rid)"

definition remove_asker :: "flow_id \<Rightarrow> ask_table mutex \<Rightarrow> (runtime_error + flow_id option) \<times> ask_table mutex" where
  "remove_asker asker m = locked ''AskWaitIndex::remove_asker'' m (ask_remove_in asker)"

definition take_waiters_of :: "flow_id \<Rightarrow> ask_table mutex \<Rightarrow> (runtime_error + flow_id list) \<times> ask_table mutex" where
  "take_waiters_of target m = locked ''AskWaitIndex::take_waiters_of'' m (ask_take_in target)"

section \<open>Inverse lists\<close>

text \<open>A map of non-empty lists that inverts the partial function \<open>f\<close>.\<close>

definition inverts :: "('k, 'v list) hash_map \<Rightarrow> ('v \<Rightarrow> 'k option) \<Rightarrow> bool" where
  "inverts m f \<longleftrightarrow>
     hm_ok m \<and> (\<forall>k vs. hm_get m k = Some vs \<longrightarrow> vs \<noteq> [] \<and> distinct vs) \<and>
     (\<forall>k v. v \<in> set (hm_list m k) \<longleftrightarrow> f v = Some k)"

lemma hm_list_insert [simp]: "hm_list (hm_insert k vs m) j = (if j = k then vs else hm_list m j)"
  by (simp add: hm_list_def)

lemma hm_list_removed [simp]: "hm_list (hm_remove k m) j = (if j = k then [] else hm_list m j)"
  by (simp add: hm_list_def)

lemma invertsD:
  assumes "inverts m f"
  shows "hm_ok m" and "distinct (hm_list m k)" and "v \<in> set (hm_list m k) \<longleftrightarrow> f v = Some k"
  using assms by (auto simp: inverts_def hm_list_def split: option.splits)

lemma hm_list_None: "inverts m f \<Longrightarrow> hm_list m k = [] \<longleftrightarrow> hm_get m k = None"
  by (auto simp: inverts_def hm_list_def split: option.splits)

lemma inverts_add:
  assumes "inverts m f" "f v = None" "distinct vs" "set vs = insert v (set (hm_list m k))"
  shows "inverts (hm_insert k vs m) (f(v \<mapsto> k))"
proof -
  from assms(4) have "vs \<noteq> []" by auto
  with assms show ?thesis by (auto simp: inverts_def)
qed

lemma hm_list_remove_list:
  "hm_list (hm_list_remove k v m) j = (if j = k then filter (\<lambda>w. w \<noteq> v) (hm_list m k) else hm_list m j)"
  by (auto simp: hm_list_remove_def hm_list_def Let_def split: option.split)

lemma inverts_drop:
  assumes "inverts m f" "f v = Some k"
  shows "inverts (hm_list_remove k v m) (f(v := None))"
proof -
  have "hm_ok (hm_list_remove k v m)"
    using assms(1) by (auto simp: inverts_def hm_list_remove_def Let_def split: option.split)
  moreover have "hm_get (hm_list_remove k v m) j = Some vs \<Longrightarrow> vs \<noteq> [] \<and> distinct vs" for j vs
    using assms(1) by (auto simp: inverts_def hm_list_remove_def Let_def split: option.splits if_splits)
  moreover have "w \<in> set (hm_list (hm_list_remove k v m) j) \<longleftrightarrow> (f(v := None)) w = Some j" for w j
    using invertsD(3) [OF assms(1)] assms(2) by (auto simp: hm_list_remove_list)
  ultimately show ?thesis unfolding inverts_def by blast
qed

lemma inverts_sweep:
  assumes "inverts m f"
  shows "inverts (hm_remove k m) (\<lambda>v. if f v = Some k then None else f v)"
  using assms by (auto simp: inverts_def)

lemma inverts_cong: "inverts m f \<Longrightarrow> (\<And>v. f v = g v) \<Longrightarrow> inverts m g"
  by (simp add: inverts_def)

lemma hm_get_remove_all: "hm_get (foldl (\<lambda>m v. hm_remove v m) m vs) x = (if x \<in> set vs then None else hm_get m x)"
  by (induction vs arbitrary: m) auto

lemma hm_ok_remove_all: "hm_ok m \<Longrightarrow> hm_ok (foldl (\<lambda>m v. hm_remove v m) m vs)"
  by (induction vs arbitrary: m) auto

section \<open>The registry as an inverse index\<close>

definition reg_owner :: "registry \<Rightarrow> bytes \<Rightarrow> flow_id option" where
  "reg_owner r nm = reg_target nm r"

definition reg_names :: "registry \<Rightarrow> flow_id \<Rightarrow> bytes set" where
  "reg_names r fid = set (hm_list (rg_by_flow r) fid)"

definition registry_ok :: "registry \<Rightarrow> bool" where
  "registry_ok r \<longleftrightarrow> hm_ok (rg_by_name r) \<and> inverts (rg_by_flow r) (reg_owner r)"

lemma registry_ok_new: "registry_ok registry_new"
  by (simp add: registry_ok_def registry_new_def inverts_def hm_list_def reg_owner_def reg_target_def)

lemma reg_owner_add: "reg_owner (reg_add nm fid c r) = (reg_owner r)(nm \<mapsto> fid)"
  by (rule ext) (simp add: reg_owner_def reg_target_def reg_add_def)

lemma registry_ok_add:
  assumes "registry_ok r" "reg_owner r nm = None"
  shows "registry_ok (reg_add nm fid c r)"
proof -
  note inv = conjunct2 [OF assms(1) [unfolded registry_ok_def]]
  have "nm \<notin> set (hm_list (rg_by_flow r) fid)" using invertsD(3) [OF inv] assms(2) by simp
  then have "inverts (hm_insert fid (hm_list (rg_by_flow r) fid @ [nm]) (rg_by_flow r)) ((reg_owner r)(nm \<mapsto> fid))"
    using invertsD(2) [OF inv] by (intro inverts_add [OF inv assms(2)]) auto
  with assms(1) show ?thesis by (simp add: registry_ok_def reg_owner_add) (simp add: reg_add_def)
qed

lemma reg_owner_unregister: "reg_owner (snd (reg_unregister nm r)) = (reg_owner r)(nm := None)"
  by (rule ext) (simp add: reg_owner_def reg_target_def reg_unregister_def split: option.split)

lemma registry_ok_unregister:
  assumes "registry_ok r"
  shows "registry_ok (snd (reg_unregister nm r))"
proof (cases "hm_get (rg_by_name r) nm")
  case None
  with assms show ?thesis by (simp add: reg_unregister_def)
next
  case (Some e)
  then have "reg_owner r nm = Some (re_flow e)" by (simp add: reg_owner_def reg_target_def)
  from inverts_drop [OF conjunct2 [OF assms [unfolded registry_ok_def]] this] assms Some show ?thesis
    unfolding registry_ok_def reg_owner_unregister by (simp add: reg_unregister_def)
qed

lemma reg_owner_sweep:
  assumes "registry_ok r"
  shows "reg_owner (unregister_flow fid r) nm = (if reg_owner r nm = Some fid then None else reg_owner r nm)"
proof -
  note inv = conjunct2 [OF assms [unfolded registry_ok_def]]
  show ?thesis
  proof (cases "hm_get (rg_by_flow r) fid")
    case None
    then have "reg_owner r nm \<noteq> Some fid" using invertsD(3) [OF inv, of nm fid] by (simp add: hm_list_def)
    with None show ?thesis by (simp add: unregister_flow_def)
  next
    case (Some names)
    then have "nm \<in> set names \<longleftrightarrow> reg_owner r nm = Some fid" using invertsD(3) [OF inv, of nm fid] by (simp add: hm_list_def)
    with Some show ?thesis by (auto simp: unregister_flow_def reg_owner_def reg_target_def hm_get_remove_all)
  qed
qed

lemma registry_ok_sweep:
  assumes "registry_ok r"
  shows "registry_ok (unregister_flow fid r)"
proof -
  have "rg_by_flow (unregister_flow fid r) = (if hm_get (rg_by_flow r) fid = None then rg_by_flow r else hm_remove fid (rg_by_flow r))"
    by (simp add: unregister_flow_def split: option.split)
  moreover have "inverts (rg_by_flow r) (reg_owner (unregister_flow fid r))" if "hm_get (rg_by_flow r) fid = None"
    using that assms by (simp add: registry_ok_def unregister_flow_def)
  moreover have "inverts (hm_remove fid (rg_by_flow r)) (reg_owner (unregister_flow fid r))"
    using assms by (intro inverts_cong [OF inverts_sweep]) (auto simp: registry_ok_def reg_owner_sweep)
  moreover have "hm_ok (rg_by_name (unregister_flow fid r))"
    using assms by (simp add: registry_ok_def unregister_flow_def hm_ok_remove_all split: option.split)
  ultimately show ?thesis by (simp add: registry_ok_def)
qed

interpretation names: inverse_index reg_owner reg_names reg_add "\<lambda>nm r. snd (reg_unregister nm r)" unregister_flow registry_ok
  by unfold_locales
    (simp_all add: reg_owner_add reg_owner_unregister reg_owner_sweep registry_ok_add registry_ok_unregister
      registry_ok_sweep, simp add: reg_names_def registry_ok_def invertsD(3))

section \<open>The ask index as an inverse index\<close>

definition ask_owner :: "ask_table \<Rightarrow> flow_id \<Rightarrow> flow_id option" where
  "ask_owner t asker = hm_get (aw_by_asker t) asker"

definition askers_of :: "ask_table \<Rightarrow> flow_id \<Rightarrow> flow_id set" where
  "askers_of t target = set (hm_list (aw_by_target t) target)"

definition asks_ok :: "ask_table \<Rightarrow> bool" where
  "asks_ok t \<longleftrightarrow>
     hm_ok (aw_by_asker t) \<and> hm_ok (aw_request_ids t) \<and> inverts (aw_by_target t) (ask_owner t) \<and>
     (\<forall>a. hm_get (aw_request_ids t) a = None \<longleftrightarrow> ask_owner t a = None)"

lemma asks_okD: "asks_ok t \<Longrightarrow> inverts (aw_by_target t) (ask_owner t)"
  by (simp add: asks_ok_def)

lemma asks_ok_new: "asks_ok ask_table_new"
  by (simp add: asks_ok_def ask_table_new_def inverts_def hm_list_def ask_owner_def)

lemma ask_owner_add: "ask_owner (ask_add a target rid t) = (ask_owner t)(a \<mapsto> target)"
  by (rule ext) (simp add: ask_owner_def ask_add_def)

lemma asks_ok_add:
  assumes "asks_ok t" "ask_owner t a = None"
  shows "asks_ok (ask_add a target rid t)"
proof -
  note inv = asks_okD [OF assms(1)]
  have "inverts (hm_insert target (List.insert a (hm_list (aw_by_target t) target)) (aw_by_target t)) ((ask_owner t)(a \<mapsto> target))"
    using invertsD(2) [OF inv] by (intro inverts_add [OF inv assms(2)]) auto
  with assms(1) show ?thesis by (simp add: asks_ok_def ask_owner_add) (simp add: ask_add_def)
qed

lemma ask_owner_remove: "ask_owner (snd (ask_remove_in a t)) = (ask_owner t)(a := None)"
  by (rule ext) (simp add: ask_owner_def ask_remove_in_def Let_def split: option.split)

lemma asks_ok_remove:
  assumes "asks_ok t"
  shows "asks_ok (snd (ask_remove_in a t))"
proof (cases "hm_get (aw_by_asker t) a")
  case None
  then have own: "ask_owner t a = None" by (simp add: ask_owner_def)
  then have "(ask_owner t)(a := None) = ask_owner t" by auto
  with assms None own show ?thesis
    unfolding asks_ok_def ask_owner_remove by (simp add: ask_remove_in_def)
next
  case (Some target)
  then have "ask_owner t a = Some target" by (simp add: ask_owner_def)
  from inverts_drop [OF asks_okD [OF assms] this] assms Some show ?thesis
    unfolding asks_ok_def ask_owner_remove by (simp add: ask_remove_in_def Let_def)
qed

lemma ask_take_list: "fst (ask_take_in target t) = hm_list (aw_by_target t) target"
  by (simp add: ask_take_in_def hm_list_def split: option.split)

lemma ask_take_maps:
  assumes "asks_ok t"
  shows "hm_get (aw_by_asker (snd (ask_take_in target t))) a = (if ask_owner t a = Some target then None else ask_owner t a)"
    and "hm_get (aw_request_ids (snd (ask_take_in target t))) a = (if ask_owner t a = Some target then None else hm_get (aw_request_ids t) a)"
  using invertsD(3) [OF asks_okD [OF assms], of a target]
  by (auto simp: ask_take_in_def ask_owner_def hm_list_def hm_get_remove_all split: option.splits)

lemma ask_owner_take:
  "asks_ok t \<Longrightarrow> ask_owner (snd (ask_take_in target t)) a = (if ask_owner t a = Some target then None else ask_owner t a)"
  using ask_take_maps(1) [of t target a] by (simp add: ask_owner_def)

lemma asks_ok_take:
  assumes "asks_ok t"
  shows "asks_ok (snd (ask_take_in target t))"
proof -
  have "aw_by_target (snd (ask_take_in target t)) = (if hm_get (aw_by_target t) target = None then aw_by_target t else hm_remove target (aw_by_target t))"
    by (simp add: ask_take_in_def split: option.split)
  moreover have "inverts (aw_by_target t) (ask_owner (snd (ask_take_in target t)))" if "hm_get (aw_by_target t) target = None"
    using that assms by (simp add: asks_ok_def ask_take_in_def)
  moreover have "inverts (hm_remove target (aw_by_target t)) (ask_owner (snd (ask_take_in target t)))"
    using assms by (intro inverts_cong [OF inverts_sweep [OF asks_okD [OF assms]]]) (simp add: ask_owner_take)
  moreover have "hm_ok (aw_by_asker (snd (ask_take_in target t)))" "hm_ok (aw_request_ids (snd (ask_take_in target t)))"
    using assms by (simp_all add: asks_ok_def ask_take_in_def hm_ok_remove_all split: option.split)
  moreover have "hm_get (aw_request_ids (snd (ask_take_in target t))) a = None \<longleftrightarrow> ask_owner (snd (ask_take_in target t)) a = None" for a
    using assms by (simp add: ask_take_maps ask_owner_take) (simp add: asks_ok_def)
  ultimately show ?thesis unfolding asks_ok_def by simp
qed

interpretation asks: inverse_index ask_owner askers_of ask_add "\<lambda>a t. snd (ask_remove_in a t)"
    "\<lambda>target t. snd (ask_take_in target t)" asks_ok
  by unfold_locales
    (simp_all add: ask_owner_add ask_owner_remove ask_owner_take asks_ok_add asks_ok_remove asks_ok_take,
      simp add: askers_of_def invertsD(3) [OF asks_okD])

section \<open>The directory as one map\<close>

definition directory_ok :: "directory \<Rightarrow> bool" where
  "directory_ok d \<longleftrightarrow>
     length d = SHARDS \<and>
     (\<forall>i<SHARDS. \<not> mx_poisoned (d ! i) \<and> hm_ok (mx_inner (d ! i)) \<and>
        (\<forall>fid mb. hm_get (mx_inner (d ! i)) fid = Some mb \<longrightarrow> shard_for fid = i))"

definition directory_map :: "directory \<Rightarrow> flow_id \<rightharpoonup> nat" where
  "directory_map d fid = hm_get (mx_inner (d ! shard_for fid)) fid"

lemma shard_for_less [simp]: "shard_for fid < SHARDS"
  by (simp add: shard_for_def SHARDS_def)

lemma directory_ok_new: "directory_ok directory_new" "directory_map directory_new = Map.empty"
  by (auto simp: directory_ok_def directory_new_def mutex_new_def directory_map_def)

lemma directory_okD:
  assumes "directory_ok d"
  shows "length d = SHARDS" and "\<not> mx_poisoned (d ! shard_for fid)" and "hm_ok (mx_inner (d ! shard_for fid))"
  using assms by (simp_all add: directory_ok_def)

lemma directory_lookup_map: "directory_ok d \<Longrightarrow> directory_lookup fid d = Inr (directory_map d fid)"
  by (simp add: directory_lookup_def directory_map_def directory_okD)

lemma directory_shard_update:
  assumes "directory_ok d" "hm_ok m" "\<And>f mb. hm_get m f = Some mb \<Longrightarrow> shard_for f = shard_for fid"
  shows "directory_ok (d[shard_for fid := (d ! shard_for fid)\<lparr>mx_inner := m\<rparr>])"
    and "directory_map (d[shard_for fid := (d ! shard_for fid)\<lparr>mx_inner := m\<rparr>]) f =
      (if shard_for f = shard_for fid then hm_get m f else directory_map d f)"
  using assms by (auto simp: directory_ok_def directory_map_def nth_list_update)

lemma directory_register_map:
  assumes "directory_ok d"
  shows "fst (directory_register fid mb d) = Inr ()" and "directory_ok (snd (directory_register fid mb d))"
    and "directory_map (snd (directory_register fid mb d)) = (directory_map d)(fid \<mapsto> mb)"
proof -
  let ?m = "hm_insert fid mb (mx_inner (d ! shard_for fid))"
  have run: "directory_register fid mb d = (Inr (), d[shard_for fid := (d ! shard_for fid)\<lparr>mx_inner := ?m\<rparr>])"
    using assms by (simp add: directory_register_def directory_okD)
  have m: "hm_ok ?m" "\<And>f x. hm_get ?m f = Some x \<Longrightarrow> shard_for f = shard_for fid"
    using assms by (auto simp: directory_ok_def split: if_splits)
  show "fst (directory_register fid mb d) = Inr ()" "directory_ok (snd (directory_register fid mb d))"
    using directory_shard_update(1) [OF assms m] by (simp_all add: run)
  show "directory_map (snd (directory_register fid mb d)) = (directory_map d)(fid \<mapsto> mb)"
    using directory_shard_update(2) [OF assms m] by (auto simp: run directory_map_def fun_eq_iff)
qed

lemma directory_unregister_map:
  assumes "directory_ok d"
  shows "fst (directory_unregister fid d) = Inr ()" and "directory_ok (snd (directory_unregister fid d))"
    and "directory_map (snd (directory_unregister fid d)) = (directory_map d)(fid := None)"
proof -
  let ?m = "hm_remove fid (mx_inner (d ! shard_for fid))"
  have run: "directory_unregister fid d = (Inr (), d[shard_for fid := (d ! shard_for fid)\<lparr>mx_inner := ?m\<rparr>])"
    using assms by (simp add: directory_unregister_def directory_okD)
  have m: "hm_ok ?m" "\<And>f x. hm_get ?m f = Some x \<Longrightarrow> shard_for f = shard_for fid"
    using assms by (auto simp: directory_ok_def split: if_splits)
  show "fst (directory_unregister fid d) = Inr ()" "directory_ok (snd (directory_unregister fid d))"
    using directory_shard_update(1) [OF assms m] by (simp_all add: run)
  show "directory_map (snd (directory_unregister fid d)) = (directory_map d)(fid := None)"
    using directory_shard_update(2) [OF assms m] by (auto simp: run directory_map_def fun_eq_iff)
qed

lemma directory_len_sum:
  "(\<forall>s\<in>set d. \<not> mx_poisoned s) \<Longrightarrow> directory_len d = sum_list (map (length \<circ> mx_inner) d)"
  unfolding directory_len_def by (induction d) simp_all

lemma directory_len_card:
  assumes "directory_ok d"
  shows "directory_len d = card (dom (directory_map d))"
proof -
  let ?keys = "\<lambda>i. fst ` set (mx_inner (d ! i))"
  have shard: "i < SHARDS \<Longrightarrow> fid \<in> ?keys i \<longleftrightarrow> (\<exists>mb. hm_get (mx_inner (d ! i)) fid = Some mb)" for i fid
    using assms by (force simp: directory_ok_def hm_get_eq_iff image_iff)
  have home: "i < SHARDS \<Longrightarrow> fid \<in> ?keys i \<Longrightarrow> shard_for fid = i" for i fid
    unfolding shard using assms by (auto simp: directory_ok_def)
  have mem: "fid \<in> dom (directory_map d) \<longleftrightarrow> fid \<in> ?keys (shard_for fid)" for fid
    unfolding shard [OF shard_for_less] by (simp add: directory_map_def dom_def)
  have dom: "dom (directory_map d) = (\<Union>i\<in>{..<SHARDS}. ?keys i)"
  proof (intro set_eqI iffI)
    fix fid
    assume "fid \<in> dom (directory_map d)"
    then show "fid \<in> (\<Union>i\<in>{..<SHARDS}. ?keys i)" using mem [of fid] by (intro UN_I [of "shard_for fid"]) simp_all
  next
    fix fid
    assume "fid \<in> (\<Union>i\<in>{..<SHARDS}. ?keys i)"
    then obtain i where "i < SHARDS" "fid \<in> ?keys i" by blast
    then show "fid \<in> dom (directory_map d)" using home mem [of fid] by simp
  qed
  have card: "i < SHARDS \<Longrightarrow> card (?keys i) = length (mx_inner (d ! i))" for i
    using assms by (simp add: directory_ok_def hm_ok_def distinct_card flip: set_map)
  have "card (\<Union>i\<in>{..<SHARDS}. ?keys i) = (\<Sum>i<SHARDS. card (?keys i))"
    using home by (intro card_UN_disjoint) (simp_all, blast)
  also have "\<dots> = (\<Sum>i<SHARDS. length (mx_inner (d ! i)))" by (simp add: card)
  also have "\<dots> = directory_len d"
    using assms by (subst directory_len_sum)
      (auto simp: directory_ok_def in_set_conv_nth sum_list_sum_nth atLeast0LessThan)
  finally show ?thesis by (simp add: dom)
qed

section \<open>Properties\<close>

inductive reg_reach :: "registry \<Rightarrow> bool" where
  rr_new: "reg_reach registry_new"
| rr_register: "reg_reach r \<Longrightarrow> reg_register nm c fid r = (res, r') \<Longrightarrow> reg_reach r'"
| rr_unregister: "reg_reach r \<Longrightarrow> reg_unregister nm r = (res, r') \<Longrightarrow> reg_reach r'"
| rr_sweep: "reg_reach r \<Longrightarrow> reg_reach (unregister_flow fid r)"

lemma registry_ok_register: "registry_ok r \<Longrightarrow> registry_ok (snd (reg_register nm c fid r))"
  by (simp add: reg_register_def registry_ok_add reg_owner_def reg_target_def)

lemma reg_reach_ok: "reg_reach r \<Longrightarrow> registry_ok r"
proof (induction rule: reg_reach.induct)
  case (rr_register r nm c fid res r')
  then show ?case using registry_ok_register [of r nm c fid] by simp
next
  case (rr_unregister r nm res r')
  then show ?case using registry_ok_unregister [of r nm] by simp
qed (simp_all add: registry_ok_new registry_ok_sweep)

text \<open>C34: names follow their flow: in any registry the code can build, the names listed under a flow are exactly the
  names that resolve to it, and when the flow exits all of them and no other name stop resolving.\<close>
theorem registry_names_follow_flow:
  assumes "reg_reach r"
  shows "(nm \<in> reg_names r fid \<longleftrightarrow> reg_target nm r = Some fid) \<and>
    reg_target nm (unregister_flow fid r) = (if reg_target nm r = Some fid then None else reg_target nm r) \<and>
    reg_names (unregister_flow fid r) other = (if other = fid then {} else reg_names r other)"
proof -
  from assms have ok: "registry_ok r" by (rule reg_reach_ok)
  show ?thesis
    using names.members_owner [OF ok] names.owner_sweep [OF ok] names.members_sweep [OF ok]
    by (simp add: reg_owner_def)
qed

definition two_names :: registry where
  "two_names = snd (reg_register [98] 11 4 (snd (reg_register [97] 10 3 registry_new)))"

theorem registry_names_follow_flow_witness:
  "reg_target [97] (unregister_flow 3 two_names) = None \<and> reg_target [98] (unregister_flow 3 two_names) = Some 4"
proof -
  have "reg_reach two_names"
    unfolding two_names_def by (metis rr_new rr_register prod.collapse)
  from registry_names_follow_flow [OF this, of "[97]" 3] registry_names_follow_flow [OF this, of "[98]" 3] show ?thesis
    by (simp add: two_names_def reg_register_def registry_new_def reg_add_def reg_target_def)
qed

text \<open>C35: the sharded directory is one map: as long as no shard's mutex is poisoned, \<open>register\<close>, \<open>unregister\<close> and
  \<open>lookup\<close> never fail and act on the flow-to-mailbox map exactly like an update, a deletion and an application,
  whichever shard a flow hashes to, and \<open>len\<close> is the number of live flows.\<close>
theorem directory_refines_map:
  assumes "directory_ok d"
  shows "directory_lookup f d = Inr (directory_map d f) \<and> directory_len d = card (dom (directory_map d)) \<and>
    (case directory_register fid mb d of
       (r, d') \<Rightarrow> r = Inr () \<and> directory_ok d' \<and> directory_map d' = (directory_map d)(fid \<mapsto> mb)) \<and>
    (case directory_unregister fid d of
       (r, d') \<Rightarrow> r = Inr () \<and> directory_ok d' \<and> directory_map d' = (directory_map d)(fid := None))"
  using directory_lookup_map [OF assms] directory_len_card [OF assms] directory_register_map [OF assms, of fid mb]
    directory_unregister_map [OF assms, of fid]
  by (simp add: case_prod_beta)

theorem directory_refines_map_witness:
  "directory_lookup 65 (snd (directory_register 1 5 directory_new)) = Inr None \<and>
   directory_lookup 1 (snd (directory_register 1 5 directory_new)) = Inr (Some 5)"
proof -
  let ?d = "snd (directory_register 1 5 directory_new)"
  have d: "directory_ok ?d" "directory_map ?d = [1 \<mapsto> 5]"
    using directory_refines_map [OF directory_ok_new(1), of 0 1 5] by (auto simp: directory_ok_new(2))
  from directory_refines_map [OF d(1), of 65] directory_refines_map [OF d(1), of 1] show ?thesis
    by (simp add: d(2))
qed

end
