(* ===== verification/BF_Oneshot.thy ===== *)
theory BF_Oneshot
  imports BF_Tables
begin

text \<open>
  \<open>scheduler/oneshot.rs\<close> and \<open>scheduler/handle.rs\<close>: the single-value channel that carries a flow's outcome to its joiner.
  Each method body between two lock operations is one step. A blocking wait runs other threads: what they do to the slot
  during the k-th wait is the parameter \<open>env k\<close>, and \<open>clock k\<close> is what \<open>Instant::now\<close> returns before it. The waiting
  loops carry fuel; the lemmas say how much is enough.
\<close>

section \<open>The slot\<close>

datatype 'a slot = SPending | SReady 'a | SAbandoned | STaken

datatype 'a join_state = JReady 'a | JPending

record 'a oneshot =
  os_slot :: "'a slot mutex"
  os_notified :: nat

definition channel :: "'a oneshot" where
  "channel = \<lparr>os_slot = mutex_new SPending, os_notified = 0\<rparr>"

fun collect :: "'a slot \<Rightarrow> (runtime_error + 'a) option \<times> 'a slot" where
  "collect (SReady v) = (Some (Inr v), STaken)"
| "collect SPending = (None, SPending)"
| "collect SAbandoned = (Some (Inl (Abandoned ''oneshot'')), SAbandoned)"
| "collect STaken = (Some (Inl (AlreadyCollected ''oneshot'')), STaken)"

section \<open>The sender\<close>

text \<open>\<open>Drop for Sender\<close>: \<open>sent\<close> is the flag of the sender.\<close>

definition sender_drop :: "bool \<Rightarrow> 'a oneshot \<Rightarrow> 'a oneshot" where
  "sender_drop sent ch =
     (if sent then ch
      else case lock (os_slot ch) ''oneshot::disconnect'' of
        Inr SPending \<Rightarrow> ch\<lparr>os_slot := (os_slot ch)\<lparr>mx_inner := SAbandoned\<rparr>, os_notified := Suc (os_notified ch)\<rparr>
      | _ \<Rightarrow> ch)"

text \<open>\<open>send\<close> consumes the sender, so its drop runs at the end.\<close>

definition sender_send :: "'a \<Rightarrow> 'a oneshot \<Rightarrow> 'a oneshot" where
  "sender_send v ch =
     (case lock (os_slot ch) ''oneshot::send'' of
        Inr _ \<Rightarrow>
          sender_drop True (ch\<lparr>os_slot := (os_slot ch)\<lparr>mx_inner := SReady v\<rparr>, os_notified := Suc (os_notified ch)\<rparr>)
      | Inl _ \<Rightarrow> sender_drop False ch)"

section \<open>The receiver\<close>

text \<open>\<open>collect\<close> under the lock.\<close>

definition collect_locked :: "string \<Rightarrow> 'a oneshot \<Rightarrow> (runtime_error + (runtime_error + 'a) option) \<times> 'a oneshot" where
  "collect_locked loc ch = (case locked loc (os_slot ch) collect of (r, m) \<Rightarrow> (r, ch\<lparr>os_slot := m\<rparr>))"

definition map_ready :: "runtime_error + 'a \<Rightarrow> runtime_error + 'a join_state" where
  "map_ready r = map_sum id JReady r"

definition try_join :: "'a oneshot \<Rightarrow> (runtime_error + 'a join_state) \<times> 'a oneshot" where
  "try_join ch =
     (case collect_locked ''oneshot::try_join'' ch of
        (Inl e, ch') \<Rightarrow> (Inl e, ch')
      | (Inr (Some r), ch') \<Rightarrow> (map_ready r, ch')
      | (Inr None, ch') \<Rightarrow> (Inr JPending, ch'))"

text \<open>The loop of \<open>join_deadline\<close>: the slot, then the deadline, then the wait.\<close>

fun join_deadline_loop ::
  "nat \<Rightarrow> (nat \<Rightarrow> 'a oneshot \<Rightarrow> 'a oneshot) \<Rightarrow> (nat \<Rightarrow> nat) \<Rightarrow> nat \<Rightarrow> nat \<Rightarrow> 'a oneshot \<Rightarrow>
   ((runtime_error + 'a join_state) \<times> 'a oneshot) option" where
  "join_deadline_loop 0 env clock deadline k ch = None"
| "join_deadline_loop (Suc n) env clock deadline k ch =
     (case collect_locked ''oneshot::join_deadline'' ch of
        (Inl e, ch') \<Rightarrow> Some (Inl e, ch')
      | (Inr (Some r), ch') \<Rightarrow> Some (map_ready r, ch')
      | (Inr None, ch') \<Rightarrow>
          if deadline \<le> clock k then Some (Inr JPending, ch')
          else join_deadline_loop n env clock deadline (Suc k) (env k ch'))"

definition join_deadline ::
  "nat \<Rightarrow> (nat \<Rightarrow> 'a oneshot \<Rightarrow> 'a oneshot) \<Rightarrow> (nat \<Rightarrow> nat) \<Rightarrow> nat \<Rightarrow> 'a oneshot \<Rightarrow>
   ((runtime_error + 'a join_state) \<times> 'a oneshot) option" where
  "join_deadline fuel env clock deadline ch = join_deadline_loop fuel env clock deadline 0 ch"

fun wait_forever_loop ::
  "nat \<Rightarrow> (nat \<Rightarrow> 'a oneshot \<Rightarrow> 'a oneshot) \<Rightarrow> nat \<Rightarrow> 'a oneshot \<Rightarrow> ((runtime_error + 'a) \<times> 'a oneshot) option" where
  "wait_forever_loop 0 env k ch = None"
| "wait_forever_loop (Suc n) env k ch =
     (case collect_locked ''oneshot::join'' ch of
        (Inl e, ch') \<Rightarrow> Some (Inl e, ch')
      | (Inr (Some r), ch') \<Rightarrow> Some (r, ch')
      | (Inr None, ch') \<Rightarrow> wait_forever_loop n env (Suc k) (env k ch'))"

definition join :: "nat \<Rightarrow> (nat \<Rightarrow> 'a oneshot \<Rightarrow> 'a oneshot) \<Rightarrow> 'a oneshot \<Rightarrow> ((runtime_error + 'a) \<times> 'a oneshot) option" where
  "join fuel env ch = wait_forever_loop fuel env 0 ch"

text \<open>\<open>max_instant\<close> is the last instant of the monotonic clock: a timeout past it waits without a bound.\<close>

definition join_timeout ::
  "nat \<Rightarrow> nat \<Rightarrow> (nat \<Rightarrow> 'a oneshot \<Rightarrow> 'a oneshot) \<Rightarrow> (nat \<Rightarrow> nat) \<Rightarrow> nat \<Rightarrow> nat \<Rightarrow> 'a oneshot \<Rightarrow>
   ((runtime_error + 'a join_state) \<times> 'a oneshot) option" where
  "join_timeout max_instant fuel env clock now timeout ch =
     (if now + timeout \<le> max_instant then join_deadline fuel env clock (now + timeout) ch
      else map_option (map_prod map_ready id) (join fuel env ch))"

section \<open>Flow handles\<close>

definition settle :: "runtime_error + flow_outcome join_state \<Rightarrow> flow_outcome option" where
  "settle st =
     (case st of
        Inr (JReady outcome) \<Rightarrow> Some outcome
      | Inr JPending \<Rightarrow> None
      | Inl e \<Rightarrow> Some (Failed (runtime_error_string e)))"

definition handle_join ::
  "nat \<Rightarrow> (nat \<Rightarrow> flow_outcome oneshot \<Rightarrow> flow_outcome oneshot) \<Rightarrow> flow_outcome oneshot \<Rightarrow> flow_outcome option" where
  "handle_join fuel env ch =
     (case join fuel env ch of
        None \<Rightarrow> None
      | Some (Inr outcome, _) \<Rightarrow> Some outcome
      | Some (Inl e, _) \<Rightarrow> Some (Failed (runtime_error_string e)))"

definition handle_try_join :: "flow_outcome oneshot \<Rightarrow> flow_outcome option \<times> flow_outcome oneshot" where
  "handle_try_join ch = (case try_join ch of (r, ch') \<Rightarrow> (settle r, ch'))"

definition handle_join_deadline ::
  "nat \<Rightarrow> (nat \<Rightarrow> flow_outcome oneshot \<Rightarrow> flow_outcome oneshot) \<Rightarrow> (nat \<Rightarrow> nat) \<Rightarrow> nat \<Rightarrow> flow_outcome oneshot \<Rightarrow>
   (flow_outcome option \<times> flow_outcome oneshot) option" where
  "handle_join_deadline fuel env clock deadline ch =
     map_option (map_prod settle id) (join_deadline fuel env clock deadline ch)"

definition handle_join_timeout ::
  "nat \<Rightarrow> nat \<Rightarrow> (nat \<Rightarrow> flow_outcome oneshot \<Rightarrow> flow_outcome oneshot) \<Rightarrow> (nat \<Rightarrow> nat) \<Rightarrow> nat \<Rightarrow> nat \<Rightarrow>
   flow_outcome oneshot \<Rightarrow> (flow_outcome option \<times> flow_outcome oneshot) option" where
  "handle_join_timeout max_instant fuel env clock now timeout ch =
     map_option (map_prod settle id) (join_timeout max_instant fuel env clock now timeout ch)"

section \<open>The channel's life\<close>

text \<open>
  The channel with its sender and the ghosts \<open>oc_sent\<close> (the value handed to \<open>send\<close>) and \<open>oc_got\<close> (the values receivers
  were given). \<open>oc_poison\<close> is another thread's panic while it holds the mutex.
\<close>

record 'a channel_state =
  oc_chan :: "'a oneshot"
  oc_sender :: bool
  oc_sent :: "'a option"
  oc_got :: "'a list"

definition received :: "runtime_error + 'a join_state \<Rightarrow> 'a list" where
  "received r = (case r of Inr (JReady v) \<Rightarrow> [v] | _ \<Rightarrow> [])"

inductive channel_step :: "'a channel_state \<Rightarrow> 'a channel_state \<Rightarrow> bool" where
  oc_send: "oc_sender s \<Longrightarrow>
    channel_step s (s\<lparr>oc_chan := sender_send v (oc_chan s), oc_sender := False, oc_sent := Some v\<rparr>)"
| oc_drop: "oc_sender s \<Longrightarrow> channel_step s (s\<lparr>oc_chan := sender_drop False (oc_chan s), oc_sender := False\<rparr>)"
| oc_join: "try_join (oc_chan s) = (r, ch) \<Longrightarrow> channel_step s (s\<lparr>oc_chan := ch, oc_got := oc_got s @ received r\<rparr>)"
| oc_poison: "channel_step s (s\<lparr>oc_chan := (oc_chan s)\<lparr>os_slot := (os_slot (oc_chan s))\<lparr>mx_poisoned := True\<rparr>\<rparr>\<rparr>)"

inductive channel_reach :: "'a channel_state \<Rightarrow> bool" where
  oc_init: "channel_reach \<lparr>oc_chan = channel, oc_sender = True, oc_sent = None, oc_got = []\<rparr>"
| oc_next: "channel_reach s \<Longrightarrow> channel_step s s' \<Longrightarrow> channel_reach s'"

definition slot_of :: "'a channel_state \<Rightarrow> 'a slot" where
  "slot_of s = mx_inner (os_slot (oc_chan s))"

definition poisoned :: "'a channel_state \<Rightarrow> bool" where
  "poisoned s = mx_poisoned (os_slot (oc_chan s))"

definition channel_ok :: "'a channel_state \<Rightarrow> bool" where
  "channel_ok s \<longleftrightarrow>
     (case slot_of s of
        SPending \<Rightarrow> oc_got s = [] \<and> (oc_sender s \<longrightarrow> oc_sent s = None) \<and> (oc_sender s \<or> poisoned s)
      | SReady v \<Rightarrow> oc_got s = [] \<and> oc_sent s = Some v \<and> \<not> oc_sender s
      | SAbandoned \<Rightarrow> oc_got s = [] \<and> \<not> oc_sender s \<and> oc_sent s = None
      | STaken \<Rightarrow> \<not> oc_sender s \<and> (\<exists>v. oc_sent s = Some v \<and> oc_got s = [v]))"

lemmas oneshot_defs = sender_send_def sender_drop_def collect_locked_def try_join_def locked_def lock_def
  map_ready_def received_def slot_of_def poisoned_def

lemma channel_ok_step: "channel_step s s' \<Longrightarrow> channel_ok s \<Longrightarrow> channel_ok s'"
proof (induction rule: channel_step.induct)
  case (oc_join s r ch)
  then show ?case
    by (cases "slot_of s") (auto simp: channel_ok_def oneshot_defs split: if_splits)
qed (auto simp: channel_ok_def oneshot_defs split: slot.splits)

lemma channel_reach_ok: "channel_reach s \<Longrightarrow> channel_ok s"
proof (induction rule: channel_reach.induct)
  case oc_init
  show ?case by (simp add: channel_ok_def slot_of_def channel_def mutex_new_def)
qed (rule channel_ok_step)

text \<open>A receiver that is told to retry has learned that the sender is still there.\<close>

lemma try_join_pending:
  assumes "channel_ok s" "try_join (oc_chan s) = (Inr JPending, ch)"
  shows "oc_sender s"
  using assms by (cases "slot_of s") (auto simp: channel_ok_def oneshot_defs split: if_splits)

section \<open>The waiting loops\<close>

lemma join_deadline_loop_returns:
  "deadline \<le> clock (k + n) \<Longrightarrow> \<exists>r. join_deadline_loop (Suc n) env clock deadline k ch = Some r"
proof (induction n arbitrary: k ch)
  case 0
  then show ?case by (auto split: prod.splits sum.splits option.splits)
next
  case (Suc n)
  from Suc.IH [of "Suc k"] Suc.prems
  have "\<exists>r. join_deadline_loop (Suc n) env clock deadline (Suc k) ch' = Some r" for ch' by simp
  then show ?case by (subst join_deadline_loop.simps) (auto split: prod.splits sum.splits option.splits simp del: join_deadline_loop.simps)
qed

lemma map_ready_not_pending: "map_ready r \<noteq> Inr JPending"
  by (cases r) (simp_all add: map_ready_def)

lemma join_deadline_loop_pending:
  "join_deadline_loop n env clock deadline k ch = Some (Inr JPending, ch') \<Longrightarrow> \<exists>j. k \<le> j \<and> j < k + n \<and> deadline \<le> clock j"
proof (induction n arbitrary: k ch)
  case (Suc n)
  show ?case
  proof (cases "deadline \<le> clock k")
    case True
    then show ?thesis by (intro exI [of _ k]) simp
  next
    case False
    obtain r ch1 where c: "collect_locked ''oneshot::join_deadline'' ch = (r, ch1)" by fastforce
    have "join_deadline_loop n env clock deadline (Suc k) (env k ch1) = Some (Inr JPending, ch')"
      using Suc.prems c False by (auto simp: map_ready_not_pending split: sum.splits option.splits)
    from Suc.IH [OF this] obtain j where "Suc k \<le> j" "j < Suc k + n" "deadline \<le> clock j" by blast
    then show ?thesis by (intro exI [of _ j]) simp
  qed
qed simp

section \<open>Properties\<close>


text \<open>A bounded join returns: however often the wait is interrupted and whatever the other threads do to the channel,
  \<open>join_deadline\<close> returns by the first turn at which the clock has reached the deadline, and it answers "pending" only
  when the deadline really has passed.\<close>
theorem join_deadline_returns:
  assumes "deadline \<le> clock n"
  shows "\<exists>r ch'. join_deadline (Suc n) env clock deadline ch = Some (r, ch') \<and>
    (r = Inr JPending \<longrightarrow> (\<exists>j\<le>n. deadline \<le> clock j))"
proof -
  obtain r ch' where run: "join_deadline (Suc n) env clock deadline ch = Some (r, ch')"
    using join_deadline_loop_returns [of deadline clock 0 n env ch] assms unfolding join_deadline_def by auto
  moreover have "\<exists>j\<le>n. deadline \<le> clock j" if "r = Inr JPending"
    using join_deadline_loop_pending [of "Suc n" env clock deadline 0 ch ch'] run that
    unfolding join_deadline_def by (auto simp: less_Suc_eq_le)
  ultimately show ?thesis by blast
qed


theorem join_deadline_returns_witness:
  "\<exists>r ch'. join_deadline (Suc 3) (\<lambda>k ch. if k = 1 then sender_send (9::nat) ch else ch) (\<lambda>k. 10 * k) 30 channel = Some (r, ch')"
proof -
  let ?env = "\<lambda>k ch. if k = 1 then sender_send (9::nat) ch else ch"
  have "\<exists>r ch'. join_deadline (Suc 3) ?env (\<lambda>k. 10 * k) 30 channel = Some (r, ch') \<and>
      (r = Inr JPending \<longrightarrow> (\<exists>j\<le>3. 30 \<le> (10 * j :: nat)))"
    by (rule join_deadline_returns) simp
  then show ?thesis by (elim exE conjE) (intro exI)
qed

end
