(* ===== verification/BF_Shared.thy ===== *)
theory BF_Shared
  imports BF_Mailbox BF_CapTable BF_Relations BF_Registry BF_Oneshot
begin

text \<open>
  The state the worker threads share (\<open>Shared\<close> of \<open>scheduler/runtime.rs\<close>) with the timer wheel's heap, the metrics and
  the spawn errors. Objects behind an \<open>Arc\<close> (mailboxes, completion channels, quotas, supervisor inboxes) live in heaps
  indexed by their identity, so a flow, its virtual machine and a table that share one quota see one value. A handler is a
  function on this record: it runs its calls in the order of the source, as if no other thread took a step in between.
  \<open>Instant::now\<close> reads \<open>sh_clock\<close> at the next index.
\<close>

section \<open>Spawn errors\<close>

fun constant_kind_string :: "constant_kind \<Rightarrow> string" where
  "constant_kind_string Capability = ''capability''"
| "constant_kind_string ProcessId = ''pid''"
| "constant_kind_string MessageKind = ''message''"

fun verify_error_string :: "verify_error \<Rightarrow> string" where
  "verify_error_string (UnknownOpcode at b) = ''unknown opcode 0x'' @ show_hex2 b @ '' at instruction '' @ dec_digits at"
| "verify_error_string (ConstOutOfRange at i n) =
     ''instruction '' @ dec_digits at @ '' references constant '' @ dec_digits (unat i) @ '', pool has '' @ dec_digits n @ '' entries''"
| "verify_error_string (FunctionOutOfRange at i n) =
     ''instruction '' @ dec_digits at @ '' references function '' @ dec_digits (unat i) @ '', table has '' @ dec_digits n @ '' entries''"
| "verify_error_string (JumpOutOfRange at target n) =
     ''instruction '' @ dec_digits at @ '' jumps to '' @ show_int target @ '', out of code bounds (len='' @ dec_digits n @ '')''"
| "verify_error_string EmptyFunctionTable = ''chunk has no entry function''"
| "verify_error_string (EntryOutOfRange f e n) =
     ''function '' @ dec_digits f @ '' entry point '' @ dec_digits (unat e) @ '' is out of code bounds (len='' @ dec_digits n @ '')''"
| "verify_error_string (ArityExceedsRegisters f a n) =
     ''function '' @ dec_digits f @ '' declares arity '' @ dec_digits (unat a) @ '' but only '' @ dec_digits (unat n) @ '' registers''"
| "verify_error_string (ForbiddenConstant i k) =
     ''untrusted constant['' @ dec_digits i @ ''] must not embed '' @ constant_kind_string k"

datatype spawn_error =
    BadFunctionIndex u32 u32
  | VerifyFailed verify_error
  | SpawnInvalidCapability
  | SpawnUnavailable
  | FlowLimit usize u32
  | SpawnDenied string
  | NameTaken bytes
  | ThreadSpawnFailed string
  | VmInit string

text \<open>\<open>debug\<close> is the standard library's \<open>Debug\<close> printer of a string.\<close>

fun spawn_error_string :: "(bytes \<Rightarrow> string) \<Rightarrow> spawn_error \<Rightarrow> string" where
  "spawn_error_string debug (BadFunctionIndex i n) =
     ''spawn: function index '' @ dec_digits (unat i) @ '' out of range (table size '' @ dec_digits (unat n) @ '')''"
| "spawn_error_string debug (VerifyFailed e) = ''chunk verification failed: '' @ verify_error_string e"
| "spawn_error_string debug SpawnInvalidCapability = ''spawn: argument capability is unknown or not held''"
| "spawn_error_string debug SpawnUnavailable = ''spawn: runtime table unavailable''"
| "spawn_error_string debug (FlowLimit n m) =
     ''spawn: live flow limit reached ('' @ dec_digits n @ ''/'' @ dec_digits (unat m) @ '')''"
| "spawn_error_string debug (SpawnDenied msg) = ''spawn: '' @ msg"
| "spawn_error_string debug (NameTaken nm) = ''spawn: registry name '' @ debug nm @ '' already taken''"
| "spawn_error_string debug (ThreadSpawnFailed msg) = ''failed to spawn runtime thread: '' @ msg"
| "spawn_error_string debug (VmInit msg) = ''vm init failed: '' @ msg"

fun spawn_error_from_fault :: "fault \<Rightarrow> spawn_error" where
  "spawn_error_from_fault (BadFunction i n) = BadFunctionIndex i n"
| "spawn_error_from_fault other = VmInit (fault_string other)"

section \<open>Metrics\<close>

record runtime_metrics =
  rm_processes_spawned :: u64
  rm_processes_completed :: u64
  rm_processes_failed :: u64
  rm_messages_sent :: u64
  rm_steals :: u64
  rm_reschedules :: u64

definition runtime_metrics_default :: runtime_metrics where
  "runtime_metrics_default = \<lparr>rm_processes_spawned = 0, rm_processes_completed = 0, rm_processes_failed = 0,
     rm_messages_sent = 0, rm_steals = 0, rm_reschedules = 0\<rparr>"

definition metrics_string :: "runtime_metrics \<Rightarrow> string" where
  "metrics_string m =
     ''spawned='' @ dec_digits (unat (rm_processes_spawned m)) @ '' completed='' @ dec_digits (unat (rm_processes_completed m)) @
     '' failed='' @ dec_digits (unat (rm_processes_failed m)) @ '' messages='' @ dec_digits (unat (rm_messages_sent m)) @
     '' steals='' @ dec_digits (unat (rm_steals m)) @ '' reschedules='' @ dec_digits (unat (rm_reschedules m))"

section \<open>Timer wheel\<close>

datatype timer_payload =
    WakeSleeper flow
  | WakeReceiver flow_id nat u8 wait_epoch

record timer_entry =
  te_deadline :: nat
  te_payload :: timer_payload

record timer_wheel =
  tw_heap :: "timer_entry list mutex"
  tw_shutdown :: "bool mutex"

definition timer_new :: timer_wheel where
  "timer_new = \<lparr>tw_heap = mutex_new [], tw_shutdown = mutex_new False\<rparr>"

section \<open>Shared state\<close>

type_synonym child_exit = "flow_id \<times> flow_outcome"

record 'g shared =
  sh_injector :: "flow list"
  sh_locals :: "flow list list"
  sh_directory :: directory
  sh_mailboxes :: "nat \<Rightarrow> mailbox"
  sh_channels :: "nat \<Rightarrow> flow_outcome oneshot"
  sh_quota_objs :: "nat \<Rightarrow> flow_quota"
  sh_caps :: "'g cap_table"
  sh_timer :: timer_wheel
  sh_metrics :: runtime_metrics
  sh_shutdown :: bool
  sh_quantum :: u32
  sh_mailbox_config :: mailbox_config
  sh_max_flows :: u32
  sh_quota_config :: quota_config
  sh_quotas :: "(u64, nat) hash_map mutex"
  sh_monitors :: "monitor_table mutex"
  sh_links :: "link_table mutex"
  sh_registry :: "registry mutex"
  sh_kill_signals :: "flow_exit_reason kill_table mutex"
  sh_waiting_send_at :: "waiting_table mutex"
  sh_ask_waits :: "ask_table mutex"
  sh_host_next_request_id :: u64
  sh_sup_events :: "nat \<Rightarrow> child_exit list mutex"
  sh_next_flow :: u64
  sh_clock :: "nat \<Rightarrow> nat"
  sh_reads :: nat
  sh_faults :: u64
  sh_next_obj :: nat

text \<open>The state a new runtime starts with, for \<open>workers\<close> local deques.\<close>

definition shared_new ::
  "nat \<Rightarrow> u32 \<Rightarrow> mailbox_config \<Rightarrow> u32 \<Rightarrow> quota_config \<Rightarrow> 'g \<Rightarrow> (nat \<Rightarrow> nat) \<Rightarrow> 'g shared" where
  "shared_new workers quantum mailbox max_flows quota g clock =
     \<lparr>sh_injector = [], sh_locals = replicate workers [], sh_directory = directory_new,
      sh_mailboxes = (\<lambda>_. mailbox_with_config mailbox), sh_channels = (\<lambda>_. channel),
      sh_quota_objs = (\<lambda>_. quota_from_config quota 0), sh_caps = cap_table_new g, sh_timer = timer_new,
      sh_metrics = runtime_metrics_default, sh_shutdown = False, sh_quantum = quantum, sh_mailbox_config = mailbox,
      sh_max_flows = max_flows, sh_quota_config = quota, sh_quotas = mutex_new [], sh_monitors = mutex_new monitor_table_new,
      sh_links = mutex_new link_table_new, sh_registry = mutex_new registry_new, sh_kill_signals = mutex_new [],
      sh_waiting_send_at = mutex_new [], sh_ask_waits = mutex_new ask_table_new, sh_host_next_request_id = 1,
      sh_sup_events = (\<lambda>_. mutex_new []), sh_next_flow = 1, sh_clock = clock, sh_reads = 0, sh_faults = 0, sh_next_obj = 0\<rparr>"

definition report_fault :: "runtime_error \<Rightarrow> 'g shared \<Rightarrow> 'g shared" where
  "report_fault e sh = sh\<lparr>sh_faults := sh_faults sh + 1\<rparr>"

definition fault_count :: "'g shared \<Rightarrow> u64" where
  "fault_count sh = sh_faults sh"

text \<open>\<open>if let Err(e) = r { report_fault(e) }\<close>\<close>

definition report_err :: "runtime_error + 'a \<Rightarrow> 'g shared \<Rightarrow> 'g shared" where
  "report_err r sh = (case r of Inl e \<Rightarrow> report_fault e sh | Inr _ \<Rightarrow> sh)"

definition instant_now :: "'g shared \<Rightarrow> nat \<times> 'g shared" where
  "instant_now sh = (sh_clock sh (sh_reads sh), sh\<lparr>sh_reads := Suc (sh_reads sh)\<rparr>)"

subsection \<open>Access to the parts\<close>

definition upd_metrics :: "(runtime_metrics \<Rightarrow> runtime_metrics) \<Rightarrow> 'g shared \<Rightarrow> 'g shared" where
  "upd_metrics f sh = sh\<lparr>sh_metrics := f (sh_metrics sh)\<rparr>"

definition inject :: "flow \<Rightarrow> 'g shared \<Rightarrow> 'g shared" where
  "inject fl sh = sh\<lparr>sh_injector := sh_injector sh @ [fl]\<rparr>"

definition local_push :: "nat \<Rightarrow> flow \<Rightarrow> 'g shared \<Rightarrow> 'g shared" where
  "local_push w fl sh = sh\<lparr>sh_locals := (sh_locals sh)[w := (sh_locals sh ! w) @ [fl]]\<rparr>"

text \<open>A method of the mailbox \<open>mb\<close>, of the monitor table and so on, with its result.\<close>

definition on_mailbox :: "nat \<Rightarrow> (mailbox \<Rightarrow> 'r \<times> mailbox) \<Rightarrow> 'g shared \<Rightarrow> 'r \<times> 'g shared" where
  "on_mailbox i f sh = (case f (sh_mailboxes sh i) of (r, mb) \<Rightarrow> (r, sh\<lparr>sh_mailboxes := (sh_mailboxes sh)(i := mb)\<rparr>))"

definition on_caps :: "('g cap_table \<Rightarrow> 'r \<times> 'g cap_table) \<Rightarrow> 'g shared \<Rightarrow> 'r \<times> 'g shared" where
  "on_caps f sh = (case f (sh_caps sh) of (r, t) \<Rightarrow> (r, sh\<lparr>sh_caps := t\<rparr>))"

definition on_directory :: "(directory \<Rightarrow> 'r \<times> directory) \<Rightarrow> 'g shared \<Rightarrow> 'r \<times> 'g shared" where
  "on_directory f sh = (case f (sh_directory sh) of (r, d) \<Rightarrow> (r, sh\<lparr>sh_directory := d\<rparr>))"

definition on_monitors :: "(monitor_table mutex \<Rightarrow> 'r \<times> monitor_table mutex) \<Rightarrow> 'g shared \<Rightarrow> 'r \<times> 'g shared" where
  "on_monitors f sh = (case f (sh_monitors sh) of (r, d) \<Rightarrow> (r, sh\<lparr>sh_monitors := d\<rparr>))"

definition on_links :: "(link_table mutex \<Rightarrow> 'r \<times> link_table mutex) \<Rightarrow> 'g shared \<Rightarrow> 'r \<times> 'g shared" where
  "on_links f sh = (case f (sh_links sh) of (r, d) \<Rightarrow> (r, sh\<lparr>sh_links := d\<rparr>))"

definition on_registry :: "(registry mutex \<Rightarrow> 'r \<times> registry mutex) \<Rightarrow> 'g shared \<Rightarrow> 'r \<times> 'g shared" where
  "on_registry f sh = (case f (sh_registry sh) of (r, d) \<Rightarrow> (r, sh\<lparr>sh_registry := d\<rparr>))"

definition on_kills :: "(flow_exit_reason kill_table mutex \<Rightarrow> 'r \<times> flow_exit_reason kill_table mutex) \<Rightarrow> 'g shared \<Rightarrow> 'r \<times> 'g shared" where
  "on_kills f sh = (case f (sh_kill_signals sh) of (r, d) \<Rightarrow> (r, sh\<lparr>sh_kill_signals := d\<rparr>))"

definition on_waiting :: "(waiting_table mutex \<Rightarrow> 'r \<times> waiting_table mutex) \<Rightarrow> 'g shared \<Rightarrow> 'r \<times> 'g shared" where
  "on_waiting f sh = (case f (sh_waiting_send_at sh) of (r, d) \<Rightarrow> (r, sh\<lparr>sh_waiting_send_at := d\<rparr>))"

definition on_asks :: "(ask_table mutex \<Rightarrow> 'r \<times> ask_table mutex) \<Rightarrow> 'g shared \<Rightarrow> 'r \<times> 'g shared" where
  "on_asks f sh = (case f (sh_ask_waits sh) of (r, d) \<Rightarrow> (r, sh\<lparr>sh_ask_waits := d\<rparr>))"

lemmas access_defs = on_mailbox_def on_caps_def on_directory_def on_monitors_def on_links_def on_registry_def
  on_kills_def on_waiting_def on_asks_def

text \<open>\<open>QuotaTable\<close>: which quota object belongs to which live flow.\<close>

definition quotas_insert :: "flow_id \<Rightarrow> nat \<Rightarrow> 'g shared \<Rightarrow> (runtime_error + unit) \<times> 'g shared" where
  "quotas_insert fid q sh =
     (case locked ''QuotaTable::insert'' (sh_quotas sh) (\<lambda>t. ((), hm_insert fid q t)) of
        (r, m) \<Rightarrow> (r, sh\<lparr>sh_quotas := m\<rparr>))"

definition quotas_get :: "flow_id \<Rightarrow> 'g shared \<Rightarrow> runtime_error + nat option" where
  "quotas_get fid sh = bind_res (lock (sh_quotas sh) ''QuotaTable::get'') (\<lambda>t. Inr (hm_get t fid))"

definition quotas_remove :: "flow_id \<Rightarrow> 'g shared \<Rightarrow> (runtime_error + unit) \<times> 'g shared" where
  "quotas_remove fid sh =
     (case locked ''QuotaTable::remove'' (sh_quotas sh) (\<lambda>t. ((), hm_remove fid t)) of
        (r, m) \<Rightarrow> (r, sh\<lparr>sh_quotas := m\<rparr>))"

text \<open>An operation on a quota object.\<close>

definition on_quota :: "nat \<Rightarrow> (flow_quota \<Rightarrow> 'r \<times> flow_quota) \<Rightarrow> 'g shared \<Rightarrow> 'r \<times> 'g shared" where
  "on_quota q f sh =
     (case f (sh_quota_objs sh q) of (r, x) \<Rightarrow> (r, sh\<lparr>sh_quota_objs := (sh_quota_objs sh)(q := x)\<rparr>))"

text \<open>A flow that is dropped without an outcome drops its completion sender (a fault of the channel's own lock is not counted).\<close>

definition drop_flow :: "flow \<Rightarrow> 'g shared \<Rightarrow> 'g shared" where
  "drop_flow fl sh =
     sh\<lparr>sh_channels := (sh_channels sh)(fl_completion fl := sender_drop False (sh_channels sh (fl_completion fl)))\<rparr>"

text \<open>The identity of the objects allocated next: a new flow's mailbox, completion channel and quota share one number.\<close>

definition fresh_obj :: "'g shared \<Rightarrow> nat \<times> 'g shared" where
  "fresh_obj sh = (sh_next_obj sh, sh\<lparr>sh_next_obj := Suc (sh_next_obj sh)\<rparr>)"

text \<open>The \<open>?\<close> operator on an operation with effects, and \<open>map_err\<close>.\<close>

definition and_then :: "('e + 'a) \<times> 's \<Rightarrow> ('a \<Rightarrow> 's \<Rightarrow> ('e + 'b) \<times> 's) \<Rightarrow> ('e + 'b) \<times> 's" where
  "and_then r k = (case r of (Inl e, s) \<Rightarrow> (Inl e, s) | (Inr x, s) \<Rightarrow> k x s)"

definition err_as :: "('e \<Rightarrow> 'f) \<Rightarrow> ('e + 'a) \<times> 's \<Rightarrow> ('f + 'a) \<times> 's" where
  "err_as f r = (case r of (Inl e, s) \<Rightarrow> (Inl (f e), s) | (Inr x, s) \<Rightarrow> (Inr x, s))"

text \<open>The virtual machine and the scheduler share the flow's quota: an operation of the machine sees the object's value and
  leaves its charges there.\<close>

definition on_vm :: "flow \<Rightarrow> (vm \<Rightarrow> 'r \<times> vm) \<Rightarrow> 'g shared \<Rightarrow> 'r \<times> flow \<times> 'g shared" where
  "on_vm fl f sh =
     (case f ((fl_vm fl)\<lparr>vm_quota := Some (sh_quota_objs sh (fl_quota fl))\<rparr>) of
        (r, m) \<Rightarrow>
          (r, fl\<lparr>fl_vm := m\<rparr>,
           (case vm_quota m of
              Some q \<Rightarrow> sh\<lparr>sh_quota_objs := (sh_quota_objs sh)(fl_quota fl := q)\<rparr>
            | None \<Rightarrow> sh)))"

text \<open>\<open>let _ = flow.vm.resume_with(dest, v);\<close> and its variant that counts the hop as received.\<close>

definition resume :: "u8 \<Rightarrow> value \<Rightarrow> flow \<times> 'g shared \<Rightarrow> flow \<times> 'g shared" where
  "resume dest v s = (case s of (fl, sh) \<Rightarrow> snd (on_vm fl (\<lambda>m. resume_with m dest v) sh))"

definition count_received :: "flow \<Rightarrow> flow" where
  "count_received fl = fl\<lparr>fl_metrics := (fl_metrics fl)\<lparr>fm_messages_received := fm_messages_received (fl_metrics fl) + 1\<rparr>\<rparr>"

definition resume_received :: "u8 \<Rightarrow> value \<Rightarrow> flow \<times> 'g shared \<Rightarrow> flow \<times> 'g shared" where
  "resume_received dest v s = (case resume dest v s of (fl, sh) \<Rightarrow> (count_received fl, sh))"

text \<open>\<open>if let Some(dest) = flow.last_receive_dest { ... }\<close>\<close>

definition resume_last :: "value \<Rightarrow> flow \<times> 'g shared \<Rightarrow> flow \<times> 'g shared" where
  "resume_last v s = (case fl_last_receive_dest (fst s) of Some dest \<Rightarrow> resume_received dest v s | None \<Rightarrow> s)"

end
