(* ===== verification/BF_Finalize.thy ===== *)
theory BF_Finalize
  imports BF_Shared
begin

text \<open>
  \<open>scheduler/finalize.rs\<close>: the one place a flow ends. The work list of the source is a list whose last element is the top
  of the stack. The loop runs at most once per flow that is held in a mailbox of the directory, plus once for the flow
  it starts with; that number is its fuel, and \<open>finalize_loop_done\<close> shows that the work list is then empty. Logging is left
  out; \<open>wake_workers\<close> only notifies a condition variable.
\<close>

section \<open>Definitions\<close>

record pending_exit =
  pe_flow :: flow
  pe_outcome :: flow_outcome
  pe_reason :: flow_exit_reason

definition deliver_down :: "down_event \<Rightarrow> 'g shared \<Rightarrow> 'g shared" where
  "deliver_down ev sh =
     (let hop = VMessage (message_down (de_monitor ev) (de_target ev) (exit_reason_as_u64 (de_reason ev))) in
      case directory_lookup (de_owner ev) (sh_directory sh) of
        Inl e \<Rightarrow> report_fault e sh
      | Inr None \<Rightarrow> sh
      | Inr (Some mb) \<Rightarrow>
          (case on_mailbox mb (\<lambda>m. push_system m hop) sh of
             (Inr (Handoff owner), sh) \<Rightarrow>
               (case resume_last hop (owner, snd (on_asks (remove_asker (fl_id owner)) sh)) of (owner, sh) \<Rightarrow> inject owner sh)
           | (Inr _, sh) \<Rightarrow> sh
           | (Inl e, sh) \<Rightarrow> report_fault e sh))"

definition wake_asker :: "value \<Rightarrow> flow_id \<Rightarrow> 'g shared \<Rightarrow> 'g shared" where
  "wake_asker hop asker sh =
     (case directory_lookup asker (sh_directory sh) of
        Inl e \<Rightarrow> report_fault e sh
      | Inr None \<Rightarrow> sh
      | Inr (Some mb) \<Rightarrow>
          (case on_mailbox mb take_parked sh of
             (Inr (Some fl), sh) \<Rightarrow> (case resume_last hop (fl, sh) of (fl, sh) \<Rightarrow> inject fl sh)
           | (Inr None, sh) \<Rightarrow> sh
           | (Inl e, sh) \<Rightarrow> report_fault e sh))"

definition wake_orphaned_asks :: "flow_id \<Rightarrow> flow_exit_reason \<Rightarrow> 'g shared \<Rightarrow> 'g shared" where
  "wake_orphaned_asks target reason sh =
     (case on_asks (take_waiters_of target) sh of
        (Inl e, sh) \<Rightarrow> report_fault e sh
      | (Inr waiters, sh) \<Rightarrow>
          fold (wake_asker (VMessage (message_linked_exit target (exit_reason_as_u64 reason)))) waiters sh)"

text \<open>The second half of \<open>extract_for_kill\<close>: a flow waiting to send is held by its target's mailbox.\<close>

definition extract_waiting :: "flow_id \<Rightarrow> 'g shared \<Rightarrow> flow option \<times> 'g shared" where
  "extract_waiting fid sh =
     (case waiting_get fid (sh_waiting_send_at sh) of
        Inl e \<Rightarrow> (None, report_fault e sh)
      | Inr None \<Rightarrow> (None, sh)
      | Inr (Some target) \<Rightarrow>
          (case directory_lookup target (sh_directory sh) of
             Inl e \<Rightarrow> (None, report_fault e sh)
           | Inr None \<Rightarrow> (None, sh)
           | Inr (Some mb) \<Rightarrow>
               (case on_mailbox mb (\<lambda>m. take_waiting_sender m fid) sh of
                  (Inr (Some sender), sh) \<Rightarrow>
                    (case on_waiting (waiting_remove fid) sh of (r, sh) \<Rightarrow> (Some sender, report_err r sh))
                | (Inr None, sh) \<Rightarrow> (None, sh)
                | (Inl e, sh) \<Rightarrow> (None, report_fault e sh))))"

definition extract_for_kill :: "flow_id \<Rightarrow> flow_exit_reason \<Rightarrow> 'g shared \<Rightarrow> flow option \<times> 'g shared" where
  "extract_for_kill fid reason sh =
     (case directory_lookup fid (sh_directory sh) of
        Inl e \<Rightarrow> (None, report_fault e sh)
      | Inr None \<Rightarrow> (None, sh)
      | Inr (Some mb) \<Rightarrow>
          (case on_kills (kill_set fid reason) sh of
             (Inl e, sh) \<Rightarrow> (None, report_fault e sh)
           | (Inr _, sh) \<Rightarrow>
               (case on_mailbox mb take_parked sh of
                  (Inr (Some parked), sh) \<Rightarrow> (Some parked, sh)
                | (Inr None, sh) \<Rightarrow> extract_waiting fid sh
                | (Inl e, sh) \<Rightarrow> extract_waiting fid (report_fault e sh))))"

definition collect_link_exit :: "link_id \<times> flow_id \<Rightarrow> pending_exit list \<times> 'g shared \<Rightarrow> pending_exit list \<times> 'g shared" where
  "collect_link_exit p s =
     (case s of (work, sh) \<Rightarrow>
        (case extract_for_kill (snd p) RLink sh of
           (Some fl, sh) \<Rightarrow>
             (work @ [\<lparr>pe_flow = fl, pe_outcome = Failed ''linked exit (link)'', pe_reason = RLink\<rparr>], sh)
         | (None, sh) \<Rightarrow> (work, sh)))"

text \<open>A sender stranded by the closing of its target's mailbox.\<close>

definition strand_sender :: "flow_id \<Rightarrow> flow \<Rightarrow> pending_exit list \<times> 'g shared \<Rightarrow> pending_exit list \<times> 'g shared" where
  "strand_sender fid sender s =
     (case s of (work, sh) \<Rightarrow>
        (case on_waiting (waiting_remove (fl_id sender)) sh of
           (r, sh) \<Rightarrow>
             (work @ [\<lparr>pe_flow = sender, pe_outcome = Failed (''send target '' @ flow_id_string fid @ '' exited''),
                pe_reason = RFault\<rparr>], report_err r sh)))"

definition close_mailbox :: "flow_id \<Rightarrow> pending_exit list \<times> 'g shared \<Rightarrow> pending_exit list \<times> 'g shared" where
  "close_mailbox fid s =
     (case s of (work, sh) \<Rightarrow>
        (case directory_lookup fid (sh_directory sh) of
           Inr (Some mb) \<Rightarrow>
             (case on_mailbox mb mailbox_close sh of
                (Inr senders, sh) \<Rightarrow> fold (strand_sender fid) senders (work, sh)
              | (Inl e, sh) \<Rightarrow> (work, report_fault e sh))
         | _ \<Rightarrow> (work, sh)))"

text \<open>Every table forgets the flow, in the order of the source; an error is reported and the sweep goes on.\<close>

definition sweep_waits :: "flow_id \<Rightarrow> 'g shared \<Rightarrow> 'g shared" where
  "sweep_waits fid sh =
     (case on_kills (kill_take fid) sh of (r, sh) \<Rightarrow>
     (case on_waiting (waiting_remove fid) (report_err r sh) of (r, sh) \<Rightarrow>
     (case on_asks (remove_asker fid) (report_err r sh) of (r, sh) \<Rightarrow> report_err r sh)))"

definition sweep_tables :: "flow_id \<Rightarrow> 'g shared \<Rightarrow> 'g shared" where
  "sweep_tables fid sh =
     (case on_caps (revoke_flow fid) sh of (r, sh) \<Rightarrow>
     (case quotas_remove fid (report_err r sh) of (r, sh) \<Rightarrow>
     (case on_directory (directory_unregister fid) (report_err r sh) of (r, sh) \<Rightarrow>
     (case on_monitors (monitors_remove_owned_by fid) (report_err r sh) of (r, sh) \<Rightarrow>
     (case on_registry (registry_unregister_flow fid) (report_err r sh) of (r, sh) \<Rightarrow> report_err r sh)))))"

definition notify_monitors :: "flow_id \<Rightarrow> flow_exit_reason \<Rightarrow> 'g shared \<Rightarrow> 'g shared" where
  "notify_monitors fid reason sh =
     (case on_monitors (monitors_notify_target_exit fid reason) sh of
        (Inr downs, sh) \<Rightarrow> fold deliver_down downs sh
      | (Inl e, sh) \<Rightarrow> report_fault e sh)"

definition propagate_links ::
  "flow_id \<Rightarrow> flow_exit_reason \<Rightarrow> pending_exit list \<times> 'g shared \<Rightarrow> pending_exit list \<times> 'g shared" where
  "propagate_links fid reason s =
     (case s of (work, sh) \<Rightarrow>
        (case on_links (links_remove_links_of fid) sh of
           (Inl e, sh) \<Rightarrow> (work, report_fault e sh)
         | (Inr peers, sh) \<Rightarrow> if is_abnormal reason then fold collect_link_exit peers (work, sh) else (work, sh)))"

text \<open>\<open>SupervisorLink::notify\<close>, then \<open>Flow::complete\<close>.\<close>

definition sup_notify :: "nat \<Rightarrow> flow_id \<Rightarrow> flow_outcome \<Rightarrow> 'g shared \<Rightarrow> 'g shared" where
  "sup_notify spv fid outcome sh =
     (case locked ''SupervisorLink::notify'' (sh_sup_events sh spv) (\<lambda>evs. ((), evs @ [(fid, outcome)])) of
        (r, m) \<Rightarrow> report_err r (sh\<lparr>sh_sup_events := (sh_sup_events sh)(spv := m)\<rparr>))"

definition flow_complete :: "flow \<Rightarrow> flow_outcome \<Rightarrow> 'g shared \<Rightarrow> 'g shared" where
  "flow_complete fl outcome sh =
     sh\<lparr>sh_channels := (sh_channels sh)(fl_completion fl := sender_send outcome (sh_channels sh (fl_completion fl)))\<rparr>"

definition report_outcome :: "pending_exit \<Rightarrow> 'g shared \<Rightarrow> 'g shared" where
  "report_outcome p sh =
     (let sh = (case pe_outcome p of
           Completed _ \<Rightarrow> upd_metrics (\<lambda>m. m\<lparr>rm_processes_completed := rm_processes_completed m + 1\<rparr>) sh
         | Failed _ \<Rightarrow> upd_metrics (\<lambda>m. m\<lparr>rm_processes_failed := rm_processes_failed m + 1\<rparr>) sh);
         sh = (case fl_supervisor (pe_flow p) of
           Some spv \<Rightarrow> sup_notify spv (fl_id (pe_flow p)) (pe_outcome p) sh
         | None \<Rightarrow> sh)
      in flow_complete (pe_flow p) (pe_outcome p) sh)"

definition finalize_one :: "pending_exit \<Rightarrow> pending_exit list \<Rightarrow> 'g shared \<Rightarrow> pending_exit list \<times> 'g shared" where
  "finalize_one p work sh =
     (let fid = fl_id (pe_flow p); reason = pe_reason p in
      if is_host fid then (work, drop_flow (pe_flow p) (report_fault CannotFinalizeHostFlow sh))
      else
        (case close_mailbox fid (work, sweep_waits fid sh) of (work, sh) \<Rightarrow>
        (case propagate_links fid reason
            (work, notify_monitors fid reason (sweep_tables fid (wake_orphaned_asks fid reason sh))) of
           (work, sh) \<Rightarrow> (work, report_outcome p sh))))"

fun finalize_loop :: "nat \<Rightarrow> pending_exit list \<Rightarrow> 'g shared \<Rightarrow> pending_exit list \<times> 'g shared" where
  "finalize_loop 0 work sh = (work, sh)"
| "finalize_loop (Suc n) work sh =
     (if work = [] then (work, sh)
      else case finalize_one (last work) (butlast work) sh of (work, sh) \<Rightarrow> finalize_loop n work sh)"

text \<open>The flows the mailboxes of the directory hold: parked receivers and waiting senders.\<close>

definition held :: "mailbox \<Rightarrow> nat" where
  "held mb = (case mb_parked mb of Some _ \<Rightarrow> 1 | None \<Rightarrow> 0) + length (mb_waiting_senders mb)"

definition directory_mailboxes :: "directory \<Rightarrow> nat list" where
  "directory_mailboxes d = remdups (concat (map (\<lambda>s. map snd (mx_inner s)) d))"

definition flows_held :: "'g shared \<Rightarrow> nat" where
  "flows_held sh = sum_list (map (\<lambda>i. held (sh_mailboxes sh i)) (directory_mailboxes (sh_directory sh)))"

definition finalize_flow :: "flow \<Rightarrow> flow_outcome \<Rightarrow> flow_exit_reason \<Rightarrow> 'g shared \<Rightarrow> 'g shared" where
  "finalize_flow fl outcome reason sh =
     snd (finalize_loop (Suc (flows_held sh)) [\<lparr>pe_flow = fl, pe_outcome = outcome, pe_reason = reason\<rparr>] sh)"

definition request_kill :: "flow_id \<Rightarrow> flow_exit_reason \<Rightarrow> 'g shared \<Rightarrow> 'g shared" where
  "request_kill fid reason sh =
     (case extract_for_kill fid reason sh of
        (Some fl, sh) \<Rightarrow> finalize_flow fl (Failed (''killed ('' @ exit_reason_string reason @ '')'')) reason sh
      | (None, sh) \<Rightarrow> sh)"

section \<open>The loop ends\<close>

text \<open>\<open>spends k\<close>: the step keeps the shards and takes \<open>k\<close> flows out of the mailboxes of the directory.\<close>

definition spends :: "nat \<Rightarrow> 'g shared \<Rightarrow> 'g shared \<Rightarrow> bool" where
  "spends k sh sh' \<longleftrightarrow>
     (length (sh_directory sh) = SHARDS \<longrightarrow> length (sh_directory sh') = SHARDS \<and> flows_held sh' + k \<le> flows_held sh)"

lemma spends_refl [simp]: "spends 0 sh sh"
  by (simp add: spends_def)

lemma spends_trans: "spends a sh sh1 \<Longrightarrow> spends b sh1 sh2 \<Longrightarrow> spends (a + b) sh sh2"
  by (auto simp: spends_def)

lemma spends_trans0: "spends 0 sh sh1 \<Longrightarrow> spends b sh1 sh2 \<Longrightarrow> spends b sh sh2"
  using spends_trans [of 0 sh sh1 b sh2] by simp

lemma spends_same:
  "sh_directory sh' = sh_directory sh \<Longrightarrow> sh_mailboxes sh' = sh_mailboxes sh \<Longrightarrow> spends 0 sh sh'"
  by (simp add: spends_def flows_held_def)

lemma flows_held_sum: "flows_held sh = (\<Sum>i\<in>set (directory_mailboxes (sh_directory sh)). held (sh_mailboxes sh i))"
  unfolding flows_held_def by (rule sum_list_distinct_conv_sum_set) (simp add: directory_mailboxes_def)

lemma directory_lookup_mailbox:
  assumes "directory_lookup fid d = Inr (Some mb)" "length d = SHARDS"
  shows "mb \<in> set (directory_mailboxes d)"
proof -
  have "hm_get (mx_inner (d ! shard_for fid)) fid = Some mb"
    using assms(1) by (auto simp: directory_lookup_def lock_def split: if_splits)
  then have "mb \<in> set (map snd (mx_inner (d ! shard_for fid)))"
    by (force simp: hm_get_def dest: map_of_SomeD)
  then show ?thesis
    using assms(2) by (auto simp: directory_mailboxes_def intro!: bexI [of _ "d ! shard_for fid"])
qed

lemma on_mailbox_spends:
  assumes "directory_lookup fid (sh_directory sh) = Inr (Some mb)"
    and run: "on_mailbox mb f sh = (r, sh')"
    and less: "held (snd (f (sh_mailboxes sh mb))) + k \<le> held (sh_mailboxes sh mb)"
  shows "spends k sh sh'"
  unfolding spends_def
proof (intro impI conjI)
  assume len: "length (sh_directory sh) = SHARDS"
  have sh': "sh' = sh\<lparr>sh_mailboxes := (sh_mailboxes sh)(mb := snd (f (sh_mailboxes sh mb)))\<rparr>"
    using run by (auto simp: on_mailbox_def split: prod.splits)
  then show "length (sh_directory sh') = SHARDS" using len by simp
  let ?M = "set (directory_mailboxes (sh_directory sh))"
  have mb: "mb \<in> ?M" by (rule directory_lookup_mailbox [OF assms(1) len])
  have "(\<Sum>i\<in>?M - {mb}. held (sh_mailboxes sh' i)) = (\<Sum>i\<in>?M - {mb}. held (sh_mailboxes sh i))"
    by (rule sum.cong) (simp_all add: sh')
  then show "flows_held sh' + k \<le> flows_held sh"
    using less mb sum.remove [of ?M mb "\<lambda>i. held (sh_mailboxes sh i)"]
      sum.remove [of ?M mb "\<lambda>i. held (sh_mailboxes sh' i)"]
    by (simp add: flows_held_sum sh')
qed

lemma held_take_parked:
  "take_parked m = (r, m') \<Longrightarrow> held m' + (case r of Inr (Some _) \<Rightarrow> 1 | _ \<Rightarrow> 0) \<le> held m"
  by (auto simp: take_parked_def with_lock_def held_def split: if_splits option.splits)

lemma held_push_system: "push_system m v = (r, m') \<Longrightarrow> held m' \<le> held m"
  by (auto simp: push_system_def with_lock_def held_def count_enqueued_def count_dequeued_def split: if_splits option.splits)

lemma held_close: "mailbox_close m = (r, m') \<Longrightarrow> held m' + (case r of Inr fls \<Rightarrow> length fls | Inl _ \<Rightarrow> 0) \<le> held m"
  by (auto simp: mailbox_close_def with_lock_def held_def split: if_splits)

lemma held_take_waiting:
  "take_waiting_sender m fid = (r, m') \<Longrightarrow> held m' + (case r of Inr (Some _) \<Rightarrow> 1 | _ \<Rightarrow> 0) \<le> held m"
  by (auto simp: take_waiting_sender_def with_lock_def held_def remove_nth_def dest!: position_Some split: if_splits option.splits)

text \<open>Nothing but a mailbox and the directory counts.\<close>

lemma report_fault_frame [simp]:
  "sh_directory (report_fault e sh) = sh_directory sh" "sh_mailboxes (report_fault e sh) = sh_mailboxes sh"
  by (simp_all add: report_fault_def)

lemma report_err_frame [simp]:
  "sh_directory (report_err r sh) = sh_directory sh" "sh_mailboxes (report_err r sh) = sh_mailboxes sh"
  by (simp_all add: report_err_def split: sum.split)

lemma resume_last_frame [simp]:
  "sh_directory (snd (resume_last v (fl, sh))) = sh_directory sh"
  "sh_mailboxes (snd (resume_last v (fl, sh))) = sh_mailboxes sh"
  by (simp_all add: resume_last_def resume_received_def resume_def on_vm_def split: option.split prod.split)

lemma inject_frame [simp]:
  "sh_directory (inject fl sh) = sh_directory sh" "sh_mailboxes (inject fl sh) = sh_mailboxes sh"
  by (simp_all add: inject_def)

lemma on_table_frame [simp]:
  "sh_directory (snd (on_asks f1 sh)) = sh_directory sh" "sh_mailboxes (snd (on_asks f1 sh)) = sh_mailboxes sh"
  "sh_directory (snd (on_waiting f2 sh)) = sh_directory sh" "sh_mailboxes (snd (on_waiting f2 sh)) = sh_mailboxes sh"
  "sh_directory (snd (on_kills f3 sh)) = sh_directory sh" "sh_mailboxes (snd (on_kills f3 sh)) = sh_mailboxes sh"
  "sh_directory (snd (on_links f4 sh)) = sh_directory sh" "sh_mailboxes (snd (on_links f4 sh)) = sh_mailboxes sh"
  "sh_directory (snd (on_monitors f5 sh)) = sh_directory sh" "sh_mailboxes (snd (on_monitors f5 sh)) = sh_mailboxes sh"
  "sh_directory (snd (on_registry f6 sh)) = sh_directory sh" "sh_mailboxes (snd (on_registry f6 sh)) = sh_mailboxes sh"
  "sh_directory (snd (on_caps f7 sh)) = sh_directory sh" "sh_mailboxes (snd (on_caps f7 sh)) = sh_mailboxes sh"
  "sh_directory (snd (quotas_remove fid sh)) = sh_directory sh" "sh_mailboxes (snd (quotas_remove fid sh)) = sh_mailboxes sh"
  by (simp_all add: access_defs quotas_remove_def split: prod.split)

lemma spends_report: "spends k sh sh1 \<Longrightarrow> spends k sh (report_fault e sh1)"
  by (simp add: spends_def flows_held_def)

lemma spends_deliver_down: "spends 0 sh (deliver_down ev sh)"
proof (cases "directory_lookup (de_owner ev) (sh_directory sh)")
  case (Inr found)
  show ?thesis
  proof (cases found)
    case (Some mb)
    let ?hop = "VMessage (message_down (de_monitor ev) (de_target ev) (exit_reason_as_u64 (de_reason ev)))"
    obtain r sh1 where run: "on_mailbox mb (\<lambda>m. push_system m ?hop) sh = (r, sh1)" by fastforce
    have "spends 0 sh sh1"
      using held_push_system by (intro on_mailbox_spends [OF Inr [unfolded Some] run]) (metis add.right_neutral prod.collapse)
    moreover have "spends 0 sh1 (deliver_down ev sh)"
      by (rule spends_same)
        (auto simp: deliver_down_def Let_def Inr Some run case_prod_beta split: sum.split delivery.split)
    ultimately show ?thesis by (rule spends_trans0)
  qed (simp add: deliver_down_def Inr)
qed (simp add: deliver_down_def spends_same)

lemma spends_wake_asker: "spends 0 sh (wake_asker hop asker sh)"
proof (cases "directory_lookup asker (sh_directory sh)")
  case (Inr found)
  show ?thesis
  proof (cases found)
    case (Some mb)
    obtain r sh1 where run: "on_mailbox mb take_parked sh = (r, sh1)" by fastforce
    have "held (snd (take_parked (sh_mailboxes sh mb))) \<le> held (sh_mailboxes sh mb)"
      using held_take_parked [of "sh_mailboxes sh mb"] by (cases "take_parked (sh_mailboxes sh mb)") fastforce
    then have "spends 0 sh sh1" by (intro on_mailbox_spends [OF Inr [unfolded Some] run]) simp
    moreover have "spends 0 sh1 (wake_asker hop asker sh)"
      by (rule spends_same) (auto simp: wake_asker_def Inr Some run case_prod_beta split: sum.split option.split)
    ultimately show ?thesis by (rule spends_trans0)
  qed (simp add: wake_asker_def Inr)
qed (simp add: wake_asker_def spends_same)

lemma spends_fold: "(\<And>x sh. spends 0 sh (f x sh)) \<Longrightarrow> spends 0 sh (fold f xs sh)"
  by (induction xs arbitrary: sh) (auto intro: spends_trans0)

lemma spends_wake_orphaned_asks: "spends 0 sh (wake_orphaned_asks target reason sh)"
proof -
  obtain r sh1 where run: "on_asks (take_waiters_of target) sh = (r, sh1)" by fastforce
  have "spends 0 sh sh1" by (rule spends_same) (metis on_table_frame(1, 2) run snd_conv)+
  moreover have "spends 0 sh1 (wake_orphaned_asks target reason sh)"
    by (auto simp: wake_orphaned_asks_def run spends_same split: sum.split intro: spends_fold spends_wake_asker)
  ultimately show ?thesis by (rule spends_trans0)
qed

definition taken :: "flow option \<Rightarrow> nat" where
  "taken r = (case r of Some _ \<Rightarrow> 1 | None \<Rightarrow> 0)"

lemma taken_simps [simp]: "taken None = 0" "taken (Some fl) = 1"
  by (simp_all add: taken_def)

lemma spends_extract_waiting:
  assumes "extract_waiting fid sh = (r, sh')"
  shows "spends (taken r) sh sh'"
proof (cases "\<exists>target mb. waiting_get fid (sh_waiting_send_at sh) = Inr (Some target) \<and>
    directory_lookup target (sh_directory sh) = Inr (Some mb)")
  case True
  then obtain target mb where w: "waiting_get fid (sh_waiting_send_at sh) = Inr (Some target)"
    and d: "directory_lookup target (sh_directory sh) = Inr (Some mb)" by blast
  obtain got sh1 where run: "on_mailbox mb (\<lambda>m. take_waiting_sender m fid) sh = (got, sh1)" by fastforce
  have got: "fst (take_waiting_sender (sh_mailboxes sh mb) fid) = got"
    using run by (auto simp: on_mailbox_def split: prod.splits)
  have "spends (case got of Inr (Some _) \<Rightarrow> 1 | _ \<Rightarrow> 0) sh sh1"
    using held_take_waiting [of "sh_mailboxes sh mb" fid got] got
    by (intro on_mailbox_spends [OF d run]) (metis prod.collapse)
  moreover have "spends 0 sh1 sh'" "taken r = (case got of Inr (Some _) \<Rightarrow> 1 | _ \<Rightarrow> 0)"
    using assms by (auto simp: extract_waiting_def w d run case_prod_beta spends_same split: sum.splits option.splits)
  ultimately show ?thesis using spends_trans by fastforce
next
  case False
  with assms show ?thesis by (auto simp: extract_waiting_def spends_same split: sum.splits option.splits)
qed

lemma spends_extract_for_kill:
  assumes "extract_for_kill fid reason sh = (r, sh')"
  shows "spends (taken r) sh sh'"
proof (cases "\<exists>mb. directory_lookup fid (sh_directory sh) = Inr (Some mb)")
  case True
  then obtain mb where d: "directory_lookup fid (sh_directory sh) = Inr (Some mb)" by blast
  obtain k sh1 where kill: "on_kills (kill_set fid reason) sh = (k, sh1)" by fastforce
  have same: "sh_directory sh1 = sh_directory sh" "sh_mailboxes sh1 = sh_mailboxes sh"
    by (metis kill on_table_frame(5, 6) snd_conv)+
  note d1 = d [folded same(1)]
  obtain got sh2 where run: "on_mailbox mb take_parked sh1 = (got, sh2)" by fastforce
  have got: "fst (take_parked (sh_mailboxes sh1 mb)) = got"
    using run by (auto simp: on_mailbox_def split: prod.splits)
  have s1: "spends 0 sh sh1" by (rule spends_same [OF same])
  have s2: "spends (case got of Inr (Some _) \<Rightarrow> 1 | _ \<Rightarrow> 0) sh1 sh2"
    using held_take_parked [of "sh_mailboxes sh1 mb" got] got
    by (intro on_mailbox_spends [OF d1 run]) (metis prod.collapse)
  show ?thesis
  proof (cases k)
    case (Inl e)
    then show ?thesis
      using assms s1 by (auto simp: extract_for_kill_def d kill spends_report)
  next
    case (Inr u)
    show ?thesis
    proof (cases "\<exists>fl. got = Inr (Some fl)")
      case True
      then show ?thesis using assms spends_trans0 [OF s1 s2] by (auto simp: extract_for_kill_def d kill Inr run)
    next
      case False
      then have "spends 0 sh1 sh2" using s2 by (auto split: sum.splits option.splits)
      with s1 have s02: "spends 0 sh sh2" by (rule spends_trans0)
      have "\<exists>sh3. spends 0 sh2 sh3 \<and> extract_waiting fid sh3 = (r, sh')"
      proof (cases got)
        case (Inl e)
        then show ?thesis
          using assms by (intro exI [of _ "report_fault e sh2"]) (simp add: extract_for_kill_def d kill \<open>k = Inr u\<close> run spends_report)
      next
        case (Inr g)
        then show ?thesis
          using assms False \<open>k = Inr u\<close> by (intro exI [of _ sh2]) (auto simp: extract_for_kill_def d kill run split: option.splits)
      qed
      then obtain sh3 where "spends 0 sh2 sh3" "extract_waiting fid sh3 = (r, sh')" by blast
      with s02 show ?thesis by (blast intro: spends_trans0 spends_extract_waiting)
    qed
  qed
next
  case False
  with assms show ?thesis by (auto simp: extract_for_kill_def spends_same split: sum.splits option.splits)
qed

text \<open>The same for a step that may push work: what it pushes, it takes out of a mailbox.\<close>

definition work_bounded :: "pending_exit list \<times> 'g shared \<Rightarrow> pending_exit list \<times> 'g shared \<Rightarrow> bool" where
  "work_bounded s s' \<longleftrightarrow>
     (length (sh_directory (snd s)) = SHARDS \<longrightarrow>
        length (sh_directory (snd s')) = SHARDS \<and>
        length (fst s') + flows_held (snd s') \<le> length (fst s) + flows_held (snd s))"

lemma work_bounded_refl [simp]: "work_bounded s s"
  by (simp add: work_bounded_def)

lemma work_bounded_trans [trans]: "work_bounded s s1 \<Longrightarrow> work_bounded s1 s2 \<Longrightarrow> work_bounded s s2"
  by (auto simp: work_bounded_def)

lemma work_bounded_spends: "spends k sh sh' \<Longrightarrow> length work' \<le> length work + k \<Longrightarrow> work_bounded (work, sh) (work', sh')"
  by (auto simp: work_bounded_def spends_def)

lemma work_bounded_fold: "(\<And>x s. work_bounded s (f x s)) \<Longrightarrow> work_bounded s (fold f xs s)"
proof (induction xs arbitrary: s)
  case (Cons x xs)
  show ?case using work_bounded_trans [OF Cons.prems Cons.IH [OF Cons.prems]] by simp
qed simp

lemma work_bounded_link_exit: "work_bounded s (collect_link_exit p s)"
proof -
  obtain work sh where s: "s = (work, sh)" by fastforce
  obtain r sh' where run: "extract_for_kill (snd p) RLink sh = (r, sh')" by fastforce
  from spends_extract_for_kill [OF run] show ?thesis
    by (cases r) (auto simp: s collect_link_exit_def run intro: work_bounded_spends)
qed

lemma strand_senders:
  "fst (fold (strand_sender fid) senders (work, sh)) = work @ map (\<lambda>fl. \<lparr>pe_flow = fl,
     pe_outcome = Failed (''send target '' @ flow_id_string fid @ '' exited''), pe_reason = RFault\<rparr>) senders"
  "sh_directory (snd (fold (strand_sender fid) senders (work, sh))) = sh_directory sh"
  "sh_mailboxes (snd (fold (strand_sender fid) senders (work, sh))) = sh_mailboxes sh"
  by (induction senders arbitrary: work sh) (simp_all add: strand_sender_def case_prod_beta)

lemma work_bounded_close: "work_bounded s (close_mailbox fid s)"
proof -
  obtain work sh where s: "s = (work, sh)" by fastforce
  show ?thesis
  proof (cases "\<exists>mb. directory_lookup fid (sh_directory sh) = Inr (Some mb)")
    case True
    then obtain mb where d: "directory_lookup fid (sh_directory sh) = Inr (Some mb)" by blast
    obtain r sh1 where run: "on_mailbox mb mailbox_close sh = (r, sh1)" by fastforce
    have r: "fst (mailbox_close (sh_mailboxes sh mb)) = r"
      using run by (auto simp: on_mailbox_def split: prod.splits)
    have sp: "spends (case r of Inr fls \<Rightarrow> length fls | Inl _ \<Rightarrow> 0) sh sh1"
      using held_close [of "sh_mailboxes sh mb" r] r by (intro on_mailbox_spends [OF d run]) (metis prod.collapse)
    show ?thesis
    proof (cases r)
      case (Inl e)
      have "spends 0 sh (report_fault e sh1)" using sp Inl by (simp add: spends_report)
      then show ?thesis by (auto simp: s close_mailbox_def d run Inl intro: work_bounded_spends)
    next
      case (Inr senders)
      let ?s = "fold (strand_sender fid) senders (work, sh1)"
      have "spends (length senders) sh (snd ?s)"
        using spends_trans [OF sp spends_same [OF strand_senders(2, 3)]] Inr by simp
      then have "work_bounded (work, sh) (fst ?s, snd ?s)"
        by (rule work_bounded_spends) (simp add: strand_senders(1))
      then show ?thesis by (simp add: s close_mailbox_def d run Inr)
    qed
  qed (auto simp: s close_mailbox_def split: sum.splits option.splits)
qed

lemma sweep_waits_frame [simp]:
  "sh_directory (sweep_waits fid sh) = sh_directory sh" "sh_mailboxes (sweep_waits fid sh) = sh_mailboxes sh"
  by (simp_all add: sweep_waits_def case_prod_beta)

lemma mailbox_in_directory: "mb \<in> set (directory_mailboxes d) \<longleftrightarrow> (\<exists>i<length d. mb \<in> snd ` set (mx_inner (d ! i)))"
  by (simp add: directory_mailboxes_def) (metis in_set_conv_nth)

lemma directory_unregister_mailboxes:
  assumes "directory_unregister fid d = (r, d')"
  shows "length d' = length d" and "length d = SHARDS \<Longrightarrow> set (directory_mailboxes d') \<subseteq> set (directory_mailboxes d)"
proof -
  have d': "d' = d[shard_for fid := snd (locked ''Directory::unregister'' (d ! shard_for fid) (\<lambda>m. ((), hm_remove fid m)))]"
    using assms by (auto simp: directory_unregister_def split: prod.splits)
  then show "length d' = length d" by simp
  assume len: "length d = SHARDS"
  have "set (mx_inner (snd (locked loc m (\<lambda>m. ((), hm_remove fid m))))) \<subseteq> set (mx_inner m)" for loc and m :: "(flow_id, nat) hash_map mutex"
    by (auto simp: locked_def lock_def hm_remove_def AList.delete_eq)
  then have sub: "set (mx_inner (d' ! i)) \<subseteq> set (mx_inner (d ! i))" if "i < length d" for i
    using that by (cases "i = shard_for fid") (simp_all add: d')
  show "set (directory_mailboxes d') \<subseteq> set (directory_mailboxes d)"
  proof
    fix mb
    assume "mb \<in> set (directory_mailboxes d')"
    then obtain i where i: "i < length d" "mb \<in> snd ` set (mx_inner (d' ! i))"
      unfolding mailbox_in_directory \<open>length d' = length d\<close> by blast
    with sub [OF i(1)] have "mb \<in> snd ` set (mx_inner (d ! i))" by (blast dest: image_mono)
    with i(1) show "mb \<in> set (directory_mailboxes d)" unfolding mailbox_in_directory by blast
  qed
qed

lemma spends_sweep_tables: "spends 0 sh (sweep_tables fid sh)"
proof -
  obtain r d' where run: "directory_unregister fid (sh_directory sh) = (r, d')" by fastforce
  have frame: "sh_directory (sweep_tables fid sh) = d'" "sh_mailboxes (sweep_tables fid sh) = sh_mailboxes sh"
    using run by (simp_all add: sweep_tables_def case_prod_beta on_directory_def)
  note dir = directory_unregister_mailboxes [OF run]
  show ?thesis
    unfolding spends_def flows_held_sum frame using dir by (auto intro!: sum_mono2)
qed

lemma spends_notify_monitors: "spends 0 sh (notify_monitors fid reason sh)"
proof -
  obtain r sh1 where run: "on_monitors (monitors_notify_target_exit fid reason) sh = (r, sh1)" by fastforce
  have "spends 0 sh sh1" by (rule spends_same) (metis on_table_frame(9, 10) run snd_conv)+
  moreover have "spends 0 sh1 (notify_monitors fid reason sh)"
    by (auto simp: notify_monitors_def run spends_same split: sum.split intro: spends_fold spends_deliver_down)
  ultimately show ?thesis by (rule spends_trans0)
qed

lemma work_bounded_links: "work_bounded s (propagate_links fid reason s)"
proof -
  obtain work sh where s: "s = (work, sh)" by fastforce
  obtain r sh1 where run: "on_links (links_remove_links_of fid) sh = (r, sh1)" by fastforce
  have sp: "spends 0 sh sh1" by (rule spends_same) (metis on_table_frame(7, 8) run snd_conv)+
  have "work_bounded (work, sh) (work, sh1)" using sp by (rule work_bounded_spends) simp
  moreover have "work_bounded (work, sh) (work, report_fault e sh1)" for e
    using spends_report [OF sp] by (rule work_bounded_spends) simp
  moreover have "work_bounded (work, sh) (fold collect_link_exit peers (work, sh1))" for peers
    by (rule work_bounded_trans [OF calculation(1) work_bounded_fold [OF work_bounded_link_exit]])
  ultimately show ?thesis by (simp add: s propagate_links_def run split: sum.split)
qed

lemma report_outcome_frame [simp]:
  "sh_directory (report_outcome p sh) = sh_directory sh" "sh_mailboxes (report_outcome p sh) = sh_mailboxes sh"
  by (simp_all add: report_outcome_def flow_complete_def sup_notify_def upd_metrics_def Let_def case_prod_beta
      split: flow_outcome.split option.split)

lemma drop_flow_frame [simp]:
  "sh_directory (drop_flow fl sh) = sh_directory sh" "sh_mailboxes (drop_flow fl sh) = sh_mailboxes sh"
  by (simp_all add: drop_flow_def)

lemma work_bounded_finalize_one: "work_bounded (work, sh) (finalize_one p work sh)"
proof (cases "is_host (fl_id (pe_flow p))")
  case True
  then show ?thesis
    by (auto simp: finalize_one_def Let_def intro!: work_bounded_spends [where k = 0] spends_same)
next
  case False
  let ?fid = "fl_id (pe_flow p)"
  obtain work1 sh1 where c: "close_mailbox ?fid (work, sweep_waits ?fid sh) = (work1, sh1)" by fastforce
  let ?sh2 = "notify_monitors ?fid (pe_reason p) (sweep_tables ?fid (wake_orphaned_asks ?fid (pe_reason p) sh1))"
  obtain work3 sh3 where l: "propagate_links ?fid (pe_reason p) (work1, ?sh2) = (work3, sh3)" by fastforce
  have "spends 0 sh (sweep_waits ?fid sh)" by (simp add: spends_same)
  then have "work_bounded (work, sh) (work, sweep_waits ?fid sh)" by (rule work_bounded_spends) simp
  also have "work_bounded \<dots> (work1, sh1)" using work_bounded_close c by metis
  also have "work_bounded \<dots> (work1, ?sh2)"
    by (rule work_bounded_spends [OF spends_trans0 [OF spends_wake_orphaned_asks
          spends_trans0 [OF spends_sweep_tables spends_notify_monitors]]]) simp
  also have "work_bounded \<dots> (work3, sh3)" using work_bounded_links l by metis
  also have "work_bounded \<dots> (work3, report_outcome p sh3)"
    by (rule work_bounded_spends [where k = 0]) (simp_all add: spends_same)
  finally show ?thesis
    using False c l by (simp add: finalize_one_def Let_def)
qed

lemma finalize_loop_done:
  "length (sh_directory sh) = SHARDS \<Longrightarrow> length work + flows_held sh \<le> n \<Longrightarrow> fst (finalize_loop n work sh) = []"
proof (induction n arbitrary: work sh)
  case (Suc n)
  show ?case
  proof (cases "work = []")
    case False
    obtain work' sh' where one: "finalize_one (last work) (butlast work) sh = (work', sh')" by fastforce
    have len: "length work = Suc (length (butlast work))" using False by (cases work) simp_all
    from work_bounded_finalize_one [of "butlast work" sh "last work"] Suc.prems
    have "length (sh_directory sh') = SHARDS" "length work' + flows_held sh' \<le> n"
      unfolding len by (auto simp: one work_bounded_def)
    from Suc.IH [OF this] show ?thesis by (simp add: False one)
  qed simp
qed simp

text \<open>More fuel changes nothing once the work list is empty.\<close>

lemma finalize_loop_stable: "fst (finalize_loop n work sh) = [] \<Longrightarrow> n \<le> m \<Longrightarrow> finalize_loop m work sh = finalize_loop n work sh"
proof (induction n arbitrary: work sh m)
  case 0
  then show ?case by (cases m) simp_all
next
  case (Suc n)
  then obtain m' where m: "m = Suc m'" "n \<le> m'" by (cases m) auto
  show ?case
  proof (cases "work = []")
    case False
    obtain work' sh' where one: "finalize_one (last work) (butlast work) sh = (work', sh')" by fastforce
    from Suc.prems(1) False one have "fst (finalize_loop n work' sh') = []" by simp
    from Suc.IH [OF this m(2)] show ?thesis by (simp add: m(1) False one)
  qed (simp add: m(1))
qed

end
