(* ===== verification/BF_Finalize_Safety.thy ===== *)
theory BF_Finalize_Safety
  imports BF_Finalize
begin

text \<open>
  What finalization guarantees: the loop of \<open>BF_Finalize\<close> ends, and a flow that ended is known to no table of the runtime.
  The proof separates the steps that only move flows between mailboxes and queues (\<open>quiet\<close>) from the sweeps.
\<close>

section \<open>Healthy runtimes and forgotten flows\<close>

definition healthy :: "'g shared \<Rightarrow> bool" where
  "healthy sh \<longleftrightarrow>
     directory_ok (sh_directory sh) \<and> \<not> ct_poisoned (sh_caps sh) \<and> \<not> mx_poisoned (sh_quotas sh) \<and>
     \<not> mx_poisoned (sh_monitors sh) \<and> monitors_ok (mx_inner (sh_monitors sh)) \<and>
     \<not> mx_poisoned (sh_links sh) \<and> links_ok (mx_inner (sh_links sh)) \<and>
     \<not> mx_poisoned (sh_registry sh) \<and> registry_ok (mx_inner (sh_registry sh)) \<and>
     \<not> mx_poisoned (sh_kill_signals sh) \<and> \<not> mx_poisoned (sh_waiting_send_at sh) \<and>
     \<not> mx_poisoned (sh_ask_waits sh) \<and> asks_ok (mx_inner (sh_ask_waits sh))"

lemma healthyD:
  assumes "healthy sh"
  shows "directory_ok (sh_directory sh)" "\<not> ct_poisoned (sh_caps sh)" "\<not> mx_poisoned (sh_quotas sh)"
    "\<not> mx_poisoned (sh_monitors sh)" "monitors_ok (mx_inner (sh_monitors sh))"
    "\<not> mx_poisoned (sh_links sh)" "links_ok (mx_inner (sh_links sh))"
    "\<not> mx_poisoned (sh_registry sh)" "registry_ok (mx_inner (sh_registry sh))"
    "\<not> mx_poisoned (sh_kill_signals sh)" "\<not> mx_poisoned (sh_waiting_send_at sh)"
    "\<not> mx_poisoned (sh_ask_waits sh)" "asks_ok (mx_inner (sh_ask_waits sh))"
  using assms by (simp_all add: healthy_def)

text \<open>No table mentions the flow: not as a key, and not as the target or owner of what it keeps.\<close>

definition no_waits :: "flow_id \<Rightarrow> 'g shared \<Rightarrow> bool" where
  "no_waits x sh \<longleftrightarrow>
     hm_get (mx_inner (sh_kill_signals sh)) x = None \<and> hm_get (mx_inner (sh_waiting_send_at sh)) x = None \<and>
     ask_owner (mx_inner (sh_ask_waits sh)) x = None"

definition no_asker :: "flow_id \<Rightarrow> 'g shared \<Rightarrow> bool" where
  "no_asker x sh \<longleftrightarrow> (\<forall>a. ask_owner (mx_inner (sh_ask_waits sh)) a \<noteq> Some x)"

definition no_entries :: "flow_id \<Rightarrow> 'g shared \<Rightarrow> bool" where
  "no_entries x sh \<longleftrightarrow>
     directory_map (sh_directory sh) x = None \<and> hm_get (mx_inner (sh_quotas sh)) x = None \<and>
     ct_flow_cells (sh_caps sh) x = None \<and>
     (\<forall>(cid, e)\<in>set (ct_entries (sh_caps sh)). cy_holder e \<noteq> x \<and> c_target (cy_cap e) \<noteq> TFlow x) \<and>
     (\<forall>nm. reg_target nm (mx_inner (sh_registry sh)) \<noteq> Some x)"

definition no_owned :: "flow_id \<Rightarrow> 'g shared \<Rightarrow> bool" where
  "no_owned x sh \<longleftrightarrow> (\<forall>mon e. hm_get (mt_monitors (mx_inner (sh_monitors sh))) mon = Some e \<longrightarrow> mo_owner e \<noteq> x)"

definition no_watched :: "flow_id \<Rightarrow> 'g shared \<Rightarrow> bool" where
  "no_watched x sh \<longleftrightarrow> (\<forall>mon e. hm_get (mt_monitors (mx_inner (sh_monitors sh))) mon = Some e \<longrightarrow> mo_target e \<noteq> x)"

definition no_links :: "flow_id \<Rightarrow> 'g shared \<Rightarrow> bool" where
  "no_links x sh \<longleftrightarrow> (\<forall>y. \<not> linked (mx_inner (sh_links sh)) x y)"

definition forgotten :: "flow_id \<Rightarrow> 'g shared \<Rightarrow> bool" where
  "forgotten x sh \<longleftrightarrow>
     no_waits x sh \<and> no_asker x sh \<and> no_entries x sh \<and> no_owned x sh \<and> no_watched x sh \<and> no_links x sh"

section \<open>Quiet steps\<close>

text \<open>
  A quiet step keeps the entry tables; it may take flows out of the wait tables, and it signals only live flows.
\<close>

definition dead_in :: "'g shared \<Rightarrow> flow_id set" where
  "dead_in sh = {x. directory_map (sh_directory sh) x = None}"

definition quiet :: "'g shared \<Rightarrow> 'g shared \<Rightarrow> bool" where
  "quiet sh sh' \<longleftrightarrow>
     sh_directory sh' = sh_directory sh \<and> sh_links sh' = sh_links sh \<and> sh_monitors sh' = sh_monitors sh \<and>
     sh_registry sh' = sh_registry sh \<and> sh_caps sh' = sh_caps sh \<and> sh_quotas sh' = sh_quotas sh \<and>
     (healthy sh \<longrightarrow> healthy sh' \<and>
        ask_owner (mx_inner (sh_ask_waits sh')) \<subseteq>\<^sub>m ask_owner (mx_inner (sh_ask_waits sh)) \<and>
        hm_get (mx_inner (sh_waiting_send_at sh')) \<subseteq>\<^sub>m hm_get (mx_inner (sh_waiting_send_at sh)) \<and>
        hm_get (mx_inner (sh_kill_signals sh')) |` dead_in sh \<subseteq>\<^sub>m hm_get (mx_inner (sh_kill_signals sh)) |` dead_in sh)"

lemma quiet_refl [simp]: "quiet sh sh"
  by (simp add: quiet_def)

lemma quiet_trans [trans]: "quiet sh sh1 \<Longrightarrow> quiet sh1 sh2 \<Longrightarrow> quiet sh sh2"
  unfolding quiet_def dead_in_def by (auto intro: map_le_trans)

lemma quiet_fold: "(\<And>x sh. quiet sh (f x sh)) \<Longrightarrow> quiet sh (fold f xs sh)"
  by (induction xs arbitrary: sh) (auto intro: quiet_trans)

lemma quiet_healthy: "quiet sh sh' \<Longrightarrow> healthy sh \<Longrightarrow> healthy sh'"
  by (simp add: quiet_def)

lemma map_le_None: "m \<subseteq>\<^sub>m m' \<Longrightarrow> m' x = None \<Longrightarrow> m x = None"
  by (metis domIff map_le_def)

lemma quiet_keeps:
  assumes "quiet sh sh'" "healthy sh"
  shows "no_asker x sh \<Longrightarrow> no_asker x sh'"
    and "no_entries x sh' \<longleftrightarrow> no_entries x sh" and "no_owned x sh' \<longleftrightarrow> no_owned x sh"
    and "no_watched x sh' \<longleftrightarrow> no_watched x sh" and "no_links x sh' \<longleftrightarrow> no_links x sh"
    and "directory_map (sh_directory sh) x = None \<Longrightarrow> no_waits x sh \<Longrightarrow> no_waits x sh'"
proof -
  show "no_asker x sh'" if "no_asker x sh"
    using assms that unfolding quiet_def no_asker_def by (auto simp: map_le_def dom_def)
  show "no_waits x sh'" if "directory_map (sh_directory sh) x = None" "no_waits x sh"
  proof -
    have x: "x \<in> dead_in sh" using that(1) by (simp add: dead_in_def)
    from assms have "hm_get (mx_inner (sh_kill_signals sh')) |` dead_in sh \<subseteq>\<^sub>m hm_get (mx_inner (sh_kill_signals sh)) |` dead_in sh"
      by (simp add: quiet_def)
    from map_le_None [OF this, of x] x that assms show ?thesis
      by (auto simp: no_waits_def quiet_def intro: map_le_None)
  qed
qed (use assms in \<open>simp_all add: quiet_def no_entries_def no_owned_def no_watched_def no_links_def\<close>)

text \<open>A step that touches nothing but queues, mailboxes, quotas and counters is quiet.\<close>

lemma quiet_same:
  assumes "sh_directory sh' = sh_directory sh" "sh_links sh' = sh_links sh" "sh_monitors sh' = sh_monitors sh"
    "sh_registry sh' = sh_registry sh" "sh_caps sh' = sh_caps sh" "sh_quotas sh' = sh_quotas sh"
    "sh_ask_waits sh' = sh_ask_waits sh" "sh_waiting_send_at sh' = sh_waiting_send_at sh"
    "sh_kill_signals sh' = sh_kill_signals sh"
  shows "quiet sh sh'"
  using assms by (simp add: quiet_def healthy_def)

lemma quiet_report [simp]: "quiet sh (report_fault e sh)" "quiet sh (report_err r sh)"
  by (rule quiet_same; simp add: report_fault_def report_err_def split: sum.split)+

lemma quiet_inject [simp]: "quiet sh (inject fl sh)"
  by (rule quiet_same) (simp_all add: inject_def)

lemma quiet_drop [simp]: "quiet sh (drop_flow fl sh)"
  by (rule quiet_same) (simp_all add: drop_flow_def)

lemma quiet_mailbox: "quiet sh (snd (on_mailbox mb f sh))"
  by (rule quiet_same) (simp_all add: on_mailbox_def split: prod.split)

lemma quiet_resume: "quiet sh (snd (resume_last v (fl, sh)))"
  by (rule quiet_same)
    (simp_all add: resume_last_def resume_received_def resume_def on_vm_def split: option.split prod.split)

lemma quiet_remove_asker: "quiet sh (snd (on_asks (remove_asker a) sh))"
  using asks_ok_remove [of "mx_inner (sh_ask_waits sh)" a]
  by (auto simp: quiet_def healthy_def on_asks_def remove_asker_def case_prod_beta ask_owner_remove map_le_def)

lemma quiet_waiting_remove: "quiet sh (snd (on_waiting (waiting_remove a) sh))"
  by (auto simp: quiet_def healthy_def on_waiting_def waiting_remove_def case_prod_beta map_le_def)

lemma quiet_kill_set:
  "directory_map (sh_directory sh) fid \<noteq> None \<Longrightarrow> quiet sh (snd (on_kills (kill_set fid reason) sh))"
  by (auto simp: quiet_def healthy_def on_kills_def kill_set_def case_prod_beta dead_in_def map_le_def restrict_map_def)

lemma quiet_deliver_down: "quiet sh (deliver_down ev sh)"
proof -
  let ?hop = "VMessage (message_down (de_monitor ev) (de_target ev) (exit_reason_as_u64 (de_reason ev)))"
  have "quiet sh (inject fl (snd (resume_last v (owner, snd (on_asks (remove_asker a) (snd (on_mailbox mb f sh)))))))"
    for fl v owner a mb and f :: "mailbox \<Rightarrow> (runtime_error + delivery) \<times> mailbox"
    by (meson quiet_inject quiet_mailbox quiet_remove_asker quiet_resume quiet_trans)
  moreover have "quiet sh (report_fault e (snd (on_mailbox mb f sh)))" for e mb and f :: "mailbox \<Rightarrow> (runtime_error + delivery) \<times> mailbox"
    by (meson quiet_mailbox quiet_report(1) quiet_trans)
  ultimately show ?thesis
    by (simp add: deliver_down_def Let_def case_prod_beta quiet_mailbox split: sum.split option.split delivery.split)
qed

lemma quiet_wake_asker: "quiet sh (wake_asker hop a sh)"
proof -
  have "quiet sh (inject fl (snd (resume_last v (owner, snd (on_mailbox mb f sh)))))" for fl v owner mb and f :: "mailbox \<Rightarrow> (runtime_error + flow option) \<times> mailbox"
    by (meson quiet_inject quiet_mailbox quiet_resume quiet_trans)
  moreover have "quiet sh (report_fault e (snd (on_mailbox mb f sh)))" for e mb and f :: "mailbox \<Rightarrow> (runtime_error + flow option) \<times> mailbox"
    by (meson quiet_mailbox quiet_report(1) quiet_trans)
  ultimately show ?thesis
    by (simp add: wake_asker_def case_prod_beta quiet_mailbox split: sum.split option.split)
qed

lemma quiet_extract_waiting: "quiet sh (snd (extract_waiting fid sh))"
proof -
  have "quiet sh (report_fault e (snd (on_mailbox mb f sh)))" for e mb and f :: "mailbox \<Rightarrow> (runtime_error + flow option) \<times> mailbox"
    by (meson quiet_mailbox quiet_report(1) quiet_trans)
  moreover have "quiet sh (report_err (r :: runtime_error + flow_id option) (snd (on_waiting (waiting_remove fid) (snd (on_mailbox mb f sh)))))" for r mb and f :: "mailbox \<Rightarrow> (runtime_error + flow option) \<times> mailbox"
    by (meson quiet_mailbox quiet_report(2) quiet_trans quiet_waiting_remove)
  ultimately show ?thesis
    by (simp add: extract_waiting_def case_prod_beta quiet_mailbox split: sum.split option.split)
qed

lemma quiet_extract_for_kill:
  assumes "directory_ok (sh_directory sh)"
  shows "quiet sh (snd (extract_for_kill fid reason sh))"
proof (cases "directory_map (sh_directory sh) fid")
  case None
  then show ?thesis by (simp add: extract_for_kill_def directory_lookup_map [OF assms])
next
  case (Some mb)
  let ?sh1 = "snd (on_kills (kill_set fid reason) sh)"
  have q1: "quiet sh ?sh1" by (rule quiet_kill_set) (simp add: Some)
  have q2: "quiet sh (snd (on_mailbox mb take_parked ?sh1))" by (rule quiet_trans [OF q1 quiet_mailbox])
  have "quiet sh (snd (extract_waiting fid (snd (on_mailbox mb take_parked ?sh1))))"
    by (rule quiet_trans [OF q2 quiet_extract_waiting])
  moreover have "quiet sh (snd (extract_waiting fid (report_fault e (snd (on_mailbox mb take_parked ?sh1)))))" for e
    by (rule quiet_trans [OF quiet_trans [OF q2 quiet_report(1)] quiet_extract_waiting])
  moreover have "quiet sh (report_fault e ?sh1)" for e by (rule quiet_trans [OF q1 quiet_report(1)])
  ultimately show ?thesis
    using q1 q2 by (simp add: extract_for_kill_def directory_lookup_map [OF assms] Some case_prod_beta split: sum.split option.split)
qed

lemma snd_collect_link_exit: "snd (collect_link_exit p (work, sh)) = snd (extract_for_kill (snd p) RLink sh)"
  by (simp add: collect_link_exit_def case_prod_beta split: option.split)

lemma quiet_link_exits:
  assumes "directory_ok (sh_directory sh)"
  shows "quiet sh (snd (fold collect_link_exit peers (work, sh)))"
  using assms
proof (induction peers arbitrary: work sh)
  case (Cons p peers)
  obtain work1 sh1 where one: "collect_link_exit p (work, sh) = (work1, sh1)" by fastforce
  have q: "quiet sh sh1"
    using quiet_extract_for_kill [OF Cons.prems, of "snd p" RLink] snd_collect_link_exit [of p work sh] one by simp
  then have "directory_ok (sh_directory sh1)" using Cons.prems by (simp add: quiet_def)
  from quiet_trans [OF q Cons.IH [OF this, of work1]] show ?case by (simp add: one)
qed simp

lemma quiet_strand: "quiet sh (snd (fold (strand_sender fid) senders (work, sh)))"
proof (induction senders arbitrary: work sh)
  case (Cons fl senders)
  obtain work1 sh1 where one: "strand_sender fid fl (work, sh) = (work1, sh1)" by fastforce
  have "quiet sh sh1"
    using one by (auto simp: strand_sender_def case_prod_beta intro!: quiet_trans [OF quiet_waiting_remove quiet_report(2)])
  from quiet_trans [OF this Cons.IH [where work = work1]] show ?case by (simp add: one)
qed simp

lemma quiet_close: "quiet sh (snd (close_mailbox fid (work, sh)))"
proof -
  have "quiet sh (snd (fold (strand_sender fid) senders (work, snd (on_mailbox mb f sh))))" for senders mb and f :: "mailbox \<Rightarrow> (runtime_error + flow list) \<times> mailbox"
    by (rule quiet_trans [OF quiet_mailbox quiet_strand])
  moreover have "quiet sh (report_fault e (snd (on_mailbox mb f sh)))" for e mb and f :: "mailbox \<Rightarrow> (runtime_error + flow list) \<times> mailbox"
    by (rule quiet_trans [OF quiet_mailbox quiet_report(1)])
  ultimately show ?thesis
    by (simp add: close_mailbox_def case_prod_beta split: sum.split option.split)
qed

lemma quiet_report_outcome: "quiet sh (report_outcome p sh)"
  by (rule quiet_same)
    (simp_all add: report_outcome_def flow_complete_def sup_notify_def upd_metrics_def Let_def case_prod_beta
      report_err_def report_fault_def split: flow_outcome.split option.split sum.split)

lemma quiet_kill_take: "quiet sh (snd (on_kills (kill_take fid) sh))"
  by (auto simp: quiet_def healthy_def on_kills_def kill_take_def case_prod_beta map_le_def restrict_map_def split: if_splits)

lemma quiet_sweep_waits: "quiet sh (sweep_waits fid sh)"
  unfolding sweep_waits_def case_prod_beta
  by (meson quiet_kill_take quiet_remove_asker quiet_report(2) quiet_trans quiet_waiting_remove)

lemma sweep_waits_gone:
  assumes "healthy sh"
  shows "no_waits fid (sweep_waits fid sh)"
  using healthyD [OF assms]
  by (simp add: no_waits_def sweep_waits_def case_prod_beta on_kills_def kill_take_def on_waiting_def waiting_remove_def
      on_asks_def remove_asker_def report_err_def ask_owner_remove)

lemma quiet_take_waiters: "quiet sh (snd (on_asks (take_waiters_of fid) sh))"
  using asks_ok_take [of "mx_inner (sh_ask_waits sh)" fid]
  by (auto simp: quiet_def healthy_def on_asks_def take_waiters_of_def case_prod_beta ask_owner_take map_le_def dom_def)

lemma quiet_wake_orphaned: "quiet sh (wake_orphaned_asks fid reason sh)"
proof -
  have "quiet sh (fold (wake_asker v) ws (snd (on_asks (take_waiters_of fid) sh)))" for v ws
    by (rule quiet_trans [OF quiet_take_waiters quiet_fold [OF quiet_wake_asker]])
  moreover have "quiet sh (report_fault e (snd (on_asks (take_waiters_of fid) sh)))" for e
    by (rule quiet_trans [OF quiet_take_waiters quiet_report(1)])
  ultimately show ?thesis by (simp add: wake_orphaned_asks_def case_prod_beta split: sum.split)
qed

lemma wake_orphaned_gone:
  assumes "healthy sh"
  shows "no_asker fid (wake_orphaned_asks fid reason sh)"
proof -
  let ?sh1 = "snd (on_asks (take_waiters_of fid) sh)"
  have "no_asker fid ?sh1"
    using asks.sweep_complete [of "mx_inner (sh_ask_waits sh)" fid] healthyD(12, 13) [OF assms]
    by (simp add: no_asker_def on_asks_def take_waiters_of_def case_prod_beta)
  moreover have "healthy ?sh1" by (rule quiet_healthy [OF quiet_take_waiters assms])
  ultimately have "no_asker fid (fold (wake_asker v) ws ?sh1)" for v ws
    by (intro quiet_keeps(1) [OF quiet_fold [where f = "wake_asker v", OF quiet_wake_asker]])
  then show ?thesis
    using healthyD(12) [OF assms] by (simp add: wake_orphaned_asks_def on_asks_def take_waiters_of_def case_prod_beta)
qed

section \<open>The sweeps\<close>

lemma revoke_flow_fields:
  assumes "\<not> ct_poisoned t"
  shows "ct_poisoned (snd (revoke_flow fid t)) = False"
    "ct_flow_cells (snd (revoke_flow fid t)) = (ct_flow_cells t)(fid := None)"
    "ct_entries (snd (revoke_flow fid t)) = filter (\<lambda>(_, e). cy_holder e \<noteq> fid \<and> c_target (cy_cap e) \<noteq> TFlow fid) (ct_entries t)"
  using assms by (simp_all add: revoke_flow_def Let_def)

lemma revoke_flow_ok_result: "\<not> ct_poisoned t \<Longrightarrow> fst (revoke_flow fid t) = Inr (length (ct_entries t) - length (ct_entries (snd (revoke_flow fid t))))"
  by (simp add: revoke_flow_def Let_def)

lemma sweep_tables_fields:
  assumes "healthy sh"
  shows "sh_directory (sweep_tables fid sh) = snd (directory_unregister fid (sh_directory sh))"
    "sh_caps (sweep_tables fid sh) = snd (revoke_flow fid (sh_caps sh))"
    "sh_quotas (sweep_tables fid sh) = (sh_quotas sh)\<lparr>mx_inner := hm_remove fid (mx_inner (sh_quotas sh))\<rparr>"
    "sh_monitors (sweep_tables fid sh) = (sh_monitors sh)\<lparr>mx_inner := remove_owned_by fid (mx_inner (sh_monitors sh))\<rparr>"
    "sh_registry (sweep_tables fid sh) = (sh_registry sh)\<lparr>mx_inner := unregister_flow fid (mx_inner (sh_registry sh))\<rparr>"
    "sh_links (sweep_tables fid sh) = sh_links sh"
    "sh_kill_signals (sweep_tables fid sh) = sh_kill_signals sh"
    "sh_waiting_send_at (sweep_tables fid sh) = sh_waiting_send_at sh"
    "sh_ask_waits (sweep_tables fid sh) = sh_ask_waits sh"
  using healthyD [OF assms] revoke_flow_ok_result [OF healthyD(2) [OF assms], of fid]
    directory_unregister_map(1) [OF healthyD(1) [OF assms], of fid]
  by (simp_all add: sweep_tables_def case_prod_beta on_caps_def quotas_remove_def report_err_def
      on_directory_def on_monitors_def on_registry_def monitors_remove_owned_by_def registry_unregister_flow_def)

lemma healthy_sweep_tables:
  assumes "healthy sh"
  shows "healthy (sweep_tables fid sh)"
  using healthyD [OF assms] directory_unregister_map(2) [OF healthyD(1) [OF assms]]
  by (simp add: healthy_def sweep_tables_fields [OF assms] revoke_flow_fields monitors_ok_remove_by registry_ok_sweep)

lemma sweep_tables_entries:
  assumes "healthy sh" "x = fid \<or> no_entries x sh"
  shows "no_entries x (sweep_tables fid sh)"
  using assms(2) healthyD [OF assms(1)] reg_owner_sweep [OF healthyD(9) [OF assms(1)], of fid]
  by (auto simp: no_entries_def sweep_tables_fields [OF assms(1)] revoke_flow_fields directory_unregister_map(3)
      reg_owner_def split: if_splits)

lemma sweep_tables_monitors:
  assumes "healthy sh"
  shows "no_owned fid (sweep_tables fid sh)" and "no_owned x sh \<Longrightarrow> no_owned x (sweep_tables fid sh)"
    and "no_watched x sh \<Longrightarrow> no_watched x (sweep_tables fid sh)"
  using healthyD(5) [OF assms]
  by (auto simp: no_owned_def no_watched_def sweep_tables_fields [OF assms] remove_owned_by_def monitors_ok_def
      hm_get_retain split: option.splits if_splits)

lemma sweep_tables_others:
  assumes "healthy sh"
  shows "no_waits x (sweep_tables fid sh) = no_waits x sh" "no_asker x (sweep_tables fid sh) = no_asker x sh"
    "no_links x (sweep_tables fid sh) = no_links x sh"
  by (simp_all add: no_waits_def no_asker_def no_links_def sweep_tables_fields [OF assms])

text \<open>Dropping the monitors of the target, then telling their owners.\<close>

lemma notify_step:
  assumes "healthy sh"
    and sh1_def: "sh1 = snd (on_monitors (monitors_notify_target_exit fid reason) sh)"
  shows "healthy sh1" "no_watched fid sh1" "no_watched x sh \<Longrightarrow> no_watched x sh1" "no_owned x sh \<Longrightarrow> no_owned x sh1"
    "no_waits x sh1 = no_waits x sh" "no_asker x sh1 = no_asker x sh" "no_entries x sh1 = no_entries x sh"
    "no_links x sh1 = no_links x sh" "directory_map (sh_directory sh1) = directory_map (sh_directory sh)"
  using healthyD [OF assms(1)] monitors_ok_notify [OF healthyD(5) [OF assms(1)], of fid reason]
    notify_remaining [OF healthyD(5) [OF assms(1)], of fid reason]
  by (auto simp: sh1_def on_monitors_def monitors_notify_target_exit_def case_prod_beta healthy_def no_watched_def
      no_owned_def no_waits_def no_asker_def no_entries_def no_links_def)

lemma links_step:
  assumes "healthy sh"
    and sh1_def: "sh1 = snd (on_links (links_remove_links_of fid) sh)"
  shows "healthy sh1" "no_links fid sh1" "no_links x sh \<Longrightarrow> no_links x sh1"
    "no_waits x sh1 = no_waits x sh" "no_asker x sh1 = no_asker x sh" "no_entries x sh1 = no_entries x sh"
    "no_watched x sh1 = no_watched x sh" "no_owned x sh1 = no_owned x sh"
    "directory_map (sh_directory sh1) = directory_map (sh_directory sh)"
  using healthyD [OF assms(1)] links_ok_remove [OF healthyD(7) [OF assms(1)], of fid]
    remove_links_linked [OF healthyD(7) [OF assms(1)], of fid]
  by (auto simp: sh1_def on_links_def links_remove_links_of_def case_prod_beta healthy_def no_watched_def
      no_owned_def no_waits_def no_asker_def no_entries_def no_links_def)

section \<open>One exit\<close>

text \<open>A quiet step keeps a forgotten flow forgotten; so do the three sweeps.\<close>

lemma forgotten_directory: "forgotten x sh \<Longrightarrow> directory_map (sh_directory sh) x = None"
  by (simp add: forgotten_def no_entries_def)

lemma quiet_forgotten: "quiet sh sh' \<Longrightarrow> healthy sh \<Longrightarrow> forgotten x sh \<Longrightarrow> forgotten x sh'"
  using quiet_keeps [of sh sh' x] forgotten_directory [of x sh] by (auto simp: forgotten_def)

lemma notify_monitors_run:
  assumes "healthy sh"
  shows "quiet (snd (on_monitors (monitors_notify_target_exit fid reason) sh)) (notify_monitors fid reason sh)"
  using healthyD(4) [OF assms]
  by (auto simp: notify_monitors_def on_monitors_def monitors_notify_target_exit_def case_prod_beta
      intro: quiet_fold quiet_deliver_down)

lemma propagate_links_run:
  assumes "healthy sh"
  shows "quiet (snd (on_links (links_remove_links_of fid) sh)) (snd (propagate_links fid reason (work, sh)))"
proof -
  have "healthy (snd (on_links (links_remove_links_of fid) sh))" by (rule links_step(1) [OF assms refl])
  note quiet_link_exits [OF healthyD(1) [OF this]]
  then show ?thesis
    using healthyD(6) [OF assms]
    by (simp add: propagate_links_def on_links_def links_remove_links_of_def case_prod_beta)
qed

lemma propagate_links_forgets:
  assumes "healthy sh"
  shows "healthy (snd (propagate_links fid reason (work, sh)))"
    and "forgotten x sh \<or> x = fid \<and> no_waits x sh \<and> no_asker x sh \<and> no_entries x sh \<and> no_owned x sh \<and> no_watched x sh \<Longrightarrow>
      forgotten x (snd (propagate_links fid reason (work, sh)))"
proof -
  note step = links_step(1, 2) [OF assms refl, where fid = fid]
    links_step(3-8) [OF assms refl, where fid = fid and x = x]
  note run = propagate_links_run [OF assms, of fid reason work]
  show "healthy (snd (propagate_links fid reason (work, sh)))" by (rule quiet_healthy [OF run step(1)])
  assume "forgotten x sh \<or> x = fid \<and> no_waits x sh \<and> no_asker x sh \<and> no_entries x sh \<and> no_owned x sh \<and> no_watched x sh"
  then have "forgotten x (snd (on_links (links_remove_links_of fid) sh))"
    using step(2-8) by (auto simp: forgotten_def)
  then show "forgotten x (snd (propagate_links fid reason (work, sh)))" by (rule quiet_forgotten [OF run step(1)])
qed

lemma notify_monitors_forgets:
  assumes "healthy sh"
    and sh'_def: "sh' = notify_monitors fid reason sh"
  shows "healthy sh'" and "forgotten x sh \<Longrightarrow> forgotten x sh'"
    and "no_waits fid sh \<Longrightarrow> no_asker fid sh \<Longrightarrow> no_entries fid sh \<Longrightarrow> no_owned fid sh \<Longrightarrow>
      no_waits fid sh' \<and> no_asker fid sh' \<and> no_entries fid sh' \<and> no_owned fid sh' \<and> no_watched fid sh'"
proof -
  note step = notify_step(1, 2) [OF assms(1) refl, where fid = fid and reason = reason]
  note run = notify_monitors_run [OF assms(1), of fid reason, folded sh'_def]
  show "healthy sh'" by (rule quiet_healthy [OF run step(1)])
  show "forgotten x sh'" if "forgotten x sh"
  proof -
    have "forgotten x (snd (on_monitors (monitors_notify_target_exit fid reason) sh))"
      using that notify_step(3-8) [OF assms(1) refl, where fid = fid and reason = reason and x = x] by (simp add: forgotten_def)
    then show ?thesis by (rule quiet_forgotten [OF run step(1)])
  qed
  show "no_waits fid sh' \<and> no_asker fid sh' \<and> no_entries fid sh' \<and> no_owned fid sh' \<and> no_watched fid sh'"
    if "no_waits fid sh" "no_asker fid sh" "no_entries fid sh" "no_owned fid sh"
    using that step(2) notify_step(3-8) [OF assms(1) refl, where fid = fid and reason = reason and x = fid] quiet_keeps [OF run step(1), of fid]
    by (simp add: no_entries_def)
qed

lemma sweep_tables_forgets:
  assumes "healthy sh"
  shows "forgotten x sh \<Longrightarrow> forgotten x (sweep_tables fid sh)"
    and "no_waits fid sh \<Longrightarrow> no_asker fid sh \<Longrightarrow>
      no_waits fid (sweep_tables fid sh) \<and> no_asker fid (sweep_tables fid sh) \<and> no_entries fid (sweep_tables fid sh) \<and>
      no_owned fid (sweep_tables fid sh)"
  by (simp_all add: forgotten_def sweep_tables_entries sweep_tables_monitors sweep_tables_others assms)

text \<open>\<open>no_waits\<close> of the exiting flow survives while its own mailbox is closed and its askers are woken.\<close>

lemma quiet_kills_kept:
  assumes "quiet sh sh'" "sh_kill_signals sh' = sh_kill_signals sh" "healthy sh" "no_waits x sh"
  shows "no_waits x sh'"
  using assms by (auto simp: no_waits_def quiet_def intro: map_le_None)

lemma kills_frame [simp]:
  "sh_kill_signals (report_fault e sh) = sh_kill_signals sh" "sh_kill_signals (report_err r sh) = sh_kill_signals sh"
  "sh_kill_signals (inject fl sh) = sh_kill_signals sh" "sh_kill_signals (snd (on_mailbox mb f sh)) = sh_kill_signals sh"
  "sh_kill_signals (snd (resume_last v (fl, sh))) = sh_kill_signals sh"
  "sh_kill_signals (snd (on_asks g sh)) = sh_kill_signals sh" "sh_kill_signals (snd (on_waiting h sh)) = sh_kill_signals sh"
  by (simp_all add: report_fault_def report_err_def inject_def access_defs resume_last_def resume_received_def resume_def
      on_vm_def split: sum.split option.split prod.split)

lemma kills_strand [simp]: "sh_kill_signals (snd (fold (strand_sender fid) senders (work, sh))) = sh_kill_signals sh"
  by (induction senders arbitrary: work sh) (simp_all add: strand_sender_def case_prod_beta)

lemma kills_close [simp]: "sh_kill_signals (snd (close_mailbox fid (work, sh))) = sh_kill_signals sh"
  by (simp add: close_mailbox_def case_prod_beta split: sum.split option.split)

lemma kills_wake_asker [simp]: "sh_kill_signals (wake_asker v a sh) = sh_kill_signals sh"
  by (simp add: wake_asker_def case_prod_beta split: sum.split option.split)

lemma kills_wake_askers [simp]: "sh_kill_signals (fold (wake_asker v) ws sh) = sh_kill_signals sh"
  by (induction ws arbitrary: sh) simp_all

lemma kills_wake_orphaned [simp]: "sh_kill_signals (wake_orphaned_asks fid reason sh) = sh_kill_signals sh"
  by (simp add: wake_orphaned_asks_def case_prod_beta split: sum.split)

lemma finalize_one_forgets:
  assumes ok: "healthy sh" and one: "finalize_one p work sh = (work', sh')"
  shows "healthy sh'" and "forgotten x sh \<Longrightarrow> forgotten x sh'"
    and "\<not> is_host (fl_id (pe_flow p)) \<Longrightarrow> forgotten (fl_id (pe_flow p)) sh'"
proof -
  let ?fid = "fl_id (pe_flow p)" and ?r = "pe_reason p"
  have "healthy sh' \<and> (forgotten x sh \<longrightarrow> forgotten x sh') \<and> (\<not> is_host ?fid \<longrightarrow> forgotten ?fid sh')"
  proof (cases "is_host ?fid")
    case True
    with one have "sh' = drop_flow (pe_flow p) (report_fault CannotFinalizeHostFlow sh)" by (simp add: finalize_one_def Let_def)
    then have "quiet sh sh'" by (simp add: quiet_trans [OF quiet_report(1) quiet_drop])
    with True ok show ?thesis by (simp add: quiet_healthy quiet_forgotten)
  next
    case False
    define s1 where "s1 = sweep_waits ?fid sh"
    define s2 where "s2 = snd (close_mailbox ?fid (work, s1))"
    define s3 where "s3 = wake_orphaned_asks ?fid ?r s2"
    define s4 where "s4 = sweep_tables ?fid s3"
    define s5 where "s5 = notify_monitors ?fid ?r s4"
    define s6 where "s6 = snd (propagate_links ?fid ?r (fst (close_mailbox ?fid (work, s1)), s5))"
    have sh': "sh' = report_outcome p s6"
      using one False by (simp add: finalize_one_def Let_def case_prod_beta s1_def s2_def s3_def s4_def s5_def s6_def)
    have q2: "quiet s1 s2" and q3: "quiet s2 s3"
      by (simp_all add: s2_def s3_def quiet_close quiet_wake_orphaned)
    have h1: "healthy s1" unfolding s1_def by (rule quiet_healthy [OF quiet_sweep_waits ok])
    have h2: "healthy s2" by (rule quiet_healthy [OF q2 h1])
    have h3: "healthy s3" by (rule quiet_healthy [OF q3 h2])
    have h4: "healthy s4" unfolding s4_def by (rule healthy_sweep_tables [OF h3])
    have h5: "healthy s5" unfolding s5_def by (rule notify_monitors_forgets(1) [OF h4 refl])
    have h6: "healthy s6" unfolding s6_def by (rule propagate_links_forgets(1) [OF h5])
    have f: "forgotten x s6" if "forgotten x sh"
      unfolding s6_def s5_def s4_def
      using that quiet_forgotten [OF quiet_sweep_waits ok, of x ?fid] quiet_forgotten [OF q2 h1, of x]
        quiet_forgotten [OF q3 h2, of x] sweep_tables_forgets(1) [OF h3, of x ?fid]
        notify_monitors_forgets(2) [OF h4 s5_def, of x] propagate_links_forgets(2) [OF h5]
      by (simp add: s1_def s4_def s5_def)
    have "no_waits ?fid s1" unfolding s1_def by (rule sweep_waits_gone [OF ok])
    then have "no_waits ?fid s2" by (intro quiet_kills_kept [OF q2 _ h1]) (simp_all add: s2_def)
    then have "no_waits ?fid s3" by (intro quiet_kills_kept [OF q3 _ h2]) (simp_all add: s3_def)
    moreover have "no_asker ?fid s3" unfolding s3_def by (rule wake_orphaned_gone [OF h2])
    ultimately have "forgotten ?fid s6"
      unfolding s6_def using sweep_tables_forgets(2) [OF h3, of ?fid] notify_monitors_forgets(3) [OF h4 s5_def]
      by (intro propagate_links_forgets(2) [OF h5]) (simp add: s4_def s5_def)
    with f show ?thesis
      unfolding sh' by (simp add: quiet_healthy [OF quiet_report_outcome h6] quiet_forgotten [OF quiet_report_outcome h6])
  qed
  then show "healthy sh'" and "forgotten x sh \<Longrightarrow> forgotten x sh'"
    and "\<not> is_host ?fid \<Longrightarrow> forgotten ?fid sh'" by blast+
qed

lemma finalize_loop_forgets:
  "healthy sh \<Longrightarrow> forgotten x sh \<Longrightarrow> healthy (snd (finalize_loop n work sh)) \<and> forgotten x (snd (finalize_loop n work sh))"
proof (induction n arbitrary: work sh)
  case (Suc n)
  obtain work' sh' where one: "finalize_one (last work) (butlast work) sh = (work', sh')" by fastforce
  from Suc.IH [of sh' work'] finalize_one_forgets(1, 2) [OF Suc.prems(1) one] Suc.prems show ?case
    by (simp add: one)
qed simp

section \<open>Properties\<close>

lemma shared_new_healthy: "healthy (shared_new workers quantum cfg max_flows quota g clock)"
  by (simp add: healthy_def shared_new_def directory_ok_new cap_table_new_def mutex_new_def monitors_ok_new links_ok_new
      registry_ok_new asks_ok_new)

definition demo_shared :: "nat shared" where
  "demo_shared = (shared_new 1 100 tiny_config 0 quota_default 0 (\<lambda>n. n))
     \<lparr>sh_links := mutex_new three_links, sh_registry := mutex_new two_names\<rparr>"

lemma demo_shared_healthy: "healthy demo_shared"
proof -
  have "reg_reach two_names"
    unfolding two_names_def by (metis rr_new rr_register prod.collapse)
  from reg_reach_ok [OF this] link_reach_ok [OF three_links_reach] show ?thesis
    by (simp add: healthy_def demo_shared_def shared_new_def directory_ok_new cap_table_new_def mutex_new_def monitors_ok_new
        asks_ok_new)
qed

text \<open>C32: ending a flow ends: however wide the graph of links and waiting senders is, the finalizer's work list is empty
  after at most one round per flow held in a mailbox plus one, and running it longer changes nothing.\<close>
theorem finalize_flow_terminates:
  assumes "length (sh_directory sh) = SHARDS" "flows_held sh < m"
  shows "finalize_loop m [\<lparr>pe_flow = fl, pe_outcome = outcome, pe_reason = reason\<rparr>] sh = ([], finalize_flow fl outcome reason sh)"
proof -
  let ?work = "[\<lparr>pe_flow = fl, pe_outcome = outcome, pe_reason = reason\<rparr>]"
  have "fst (finalize_loop (Suc (flows_held sh)) ?work sh) = []"
    by (rule finalize_loop_done [OF assms(1)]) simp
  then have "finalize_loop m ?work sh = ([], finalize_flow fl outcome reason sh)"
    unfolding finalize_flow_def using finalize_loop_stable [of "Suc (flows_held sh)" ?work sh m] assms(2)
    by (simp add: prod_eq_iff del: finalize_loop.simps)
  then show ?thesis .
qed

text \<open>C31: an exited flow is forgotten: after finalization no table of a runtime whose locks are healthy knows the flow: it has
  no directory entry, quota, revocation cell, capability held or targeting it, registered name, link, monitor in either
  direction, pending ask of or towards it, wait entry or kill signal; and the runtime stays healthy.\<close>
theorem exited_flow_is_forgotten:
  assumes "healthy sh" "\<not> is_host (fl_id fl)"
  shows "forgotten (fl_id fl) (finalize_flow fl outcome reason sh) \<and> healthy (finalize_flow fl outcome reason sh)"
proof -
  let ?p = "\<lparr>pe_flow = fl, pe_outcome = outcome, pe_reason = reason\<rparr>"
  obtain work' sh' where one: "finalize_one ?p [] sh = (work', sh')" by fastforce
  have "finalize_flow fl outcome reason sh = snd (finalize_loop (flows_held sh) work' sh')"
    by (simp add: finalize_flow_def one)
  moreover have "healthy sh'" "forgotten (fl_id fl) sh'"
    using finalize_one_forgets(1, 3) [OF assms(1) one] assms(2) by simp_all
  ultimately show ?thesis using finalize_loop_forgets [of sh' "fl_id fl"] by metis
qed

theorem finalize_flow_terminates_witness:
  "finalize_loop 7 [\<lparr>pe_flow = idle_flow 3, pe_outcome = Failed [], pe_reason = RKilled\<rparr>] demo_shared =
     ([], finalize_flow (idle_flow 3) (Failed []) RKilled demo_shared)"
proof (rule finalize_flow_terminates)
  show "length (sh_directory demo_shared) = SHARDS"
    by (simp add: demo_shared_def shared_new_def directory_new_def)
  show "flows_held demo_shared < 7"
    by (simp add: flows_held_def directory_mailboxes_def demo_shared_def shared_new_def directory_new_def mutex_new_def)
qed

theorem exited_flow_is_forgotten_witness:
  "forgotten 3 (finalize_flow (idle_flow 3) (Failed []) RKilled demo_shared) \<and> \<not> forgotten 3 demo_shared"
proof
  have id: "fl_id (idle_flow 3) = 3" "\<not> is_host 3" by (simp_all add: idle_flow_def flow_new_def is_host_def)
  show "forgotten 3 (finalize_flow (idle_flow 3) (Failed []) RKilled demo_shared)"
    using exited_flow_is_forgotten [OF demo_shared_healthy, of "idle_flow 3" "Failed []" RKilled] id by simp
  have "reg_target [97] two_names = Some 3"
    by (simp add: two_names_def reg_register_def registry_new_def reg_add_def reg_target_def)
  then show "\<not> forgotten 3 demo_shared"
    by (auto simp: forgotten_def no_entries_def demo_shared_def mutex_new_def)
qed

end
