(* ===== verification/BF_Timer.thy ===== *)
theory BF_Timer
  imports BF_Finalize
begin

text \<open>
  \<open>scheduler/timer.rs\<close>: the deadline queue and the loop of its thread. Deadlines are nanoseconds of the clock. The binary
  heap is the list of its entries in order of insertion; the loop takes the first entry of least deadline (the order among
  equal deadlines is the heap's own in the source). \<open>Instant + Duration\<close> cannot overflow here: a delay is below \<open>2 ^ 63\<close>
  milliseconds. \<open>timer_turn\<close> is one turn of the loop; other threads act between turns.
\<close>

section \<open>Definitions\<close>

definition on_heap :: "string \<Rightarrow> (timer_entry list \<Rightarrow> 'r \<times> timer_entry list) \<Rightarrow> 'g shared \<Rightarrow> (runtime_error + 'r) \<times> 'g shared" where
  "on_heap loc f sh =
     (case locked loc (tw_heap (sh_timer sh)) f of (r, h) \<Rightarrow> (r, sh\<lparr>sh_timer := (sh_timer sh)\<lparr>tw_heap := h\<rparr>\<rparr>))"

definition timer_push :: "timer_entry \<Rightarrow> 'g shared \<Rightarrow> 'g shared" where
  "timer_push e sh = (case on_heap ''TimerWheel::push'' (\<lambda>h. ((), h @ [e])) sh of (r, sh) \<Rightarrow> report_err r sh)"

text \<open>A delay is in milliseconds, as the virtual machine hands it over.\<close>

definition deadline_after :: "u64 \<Rightarrow> nat \<Rightarrow> nat" where
  "deadline_after ms now = now + unat ms * 1000000"

definition schedule_sleep :: "u64 \<Rightarrow> flow \<Rightarrow> 'g shared \<Rightarrow> 'g shared" where
  "schedule_sleep delay fl sh =
     (case instant_now sh of (now, sh) \<Rightarrow>
        timer_push \<lparr>te_deadline = deadline_after delay now, te_payload = WakeSleeper fl\<rparr> sh)"

definition schedule_receive_timeout :: "u64 \<Rightarrow> flow_id \<Rightarrow> nat \<Rightarrow> u8 \<Rightarrow> wait_epoch \<Rightarrow> 'g shared \<Rightarrow> 'g shared" where
  "schedule_receive_timeout delay pid mailbox dest_reg epoch sh =
     (case instant_now sh of (now, sh) \<Rightarrow>
        timer_push \<lparr>te_deadline = deadline_after delay now, te_payload = WakeReceiver pid mailbox dest_reg epoch\<rparr> sh)"

definition timer_shutdown :: "'g shared \<Rightarrow> 'g shared" where
  "timer_shutdown sh =
     (case locked ''TimerWheel::shutdown'' (tw_shutdown (sh_timer sh)) (\<lambda>_. ((), True)) of
        (r, m) \<Rightarrow> report_err r (sh\<lparr>sh_timer := (sh_timer sh)\<lparr>tw_shutdown := m\<rparr>\<rparr>))"

definition timer_fire :: "timer_entry \<Rightarrow> 'g shared \<Rightarrow> 'g shared" where
  "timer_fire e sh =
     (case te_payload e of
        WakeSleeper fl \<Rightarrow> inject fl sh
      | WakeReceiver pid mb dest_reg epoch \<Rightarrow>
          (case on_mailbox mb (\<lambda>m. take_parked_at m epoch) sh of
             (Inr (Some fl), sh) \<Rightarrow>
               (case on_asks (remove_asker (fl_id fl)) sh of (r, sh) \<Rightarrow>
               (case resume dest_reg VUnit (fl, report_err r sh) of (fl, sh) \<Rightarrow> inject fl sh))
           | (Inr None, sh) \<Rightarrow> sh
           | (Inl er, sh) \<Rightarrow> report_fault er sh))"

text \<open>The top of the heap and the heap without it.\<close>

fun pop_min :: "timer_entry list \<Rightarrow> (timer_entry \<times> timer_entry list) option" where
  "pop_min [] = None"
| "pop_min (e # es) =
     (case pop_min es of
        Some (f, fs) \<Rightarrow> if te_deadline f < te_deadline e then Some (f, e # fs) else Some (e, es)
      | None \<Rightarrow> Some (e, es))"

datatype timer_turn_result = TimerExit | TimerWait string | TimerFired timer_entry

definition timer_turn :: "'g shared \<Rightarrow> timer_turn_result \<times> 'g shared" where
  "timer_turn sh =
     (case lock (tw_heap (sh_timer sh)) ''TimerWheel::drive'' of
        Inl e \<Rightarrow> (TimerExit, report_fault e sh)
      | Inr heap \<Rightarrow>
          (case lock (tw_shutdown (sh_timer sh)) ''TimerWheel::drive/shutdown'' of
             Inl e \<Rightarrow> (TimerExit, report_fault e sh)
           | Inr True \<Rightarrow> (TimerExit, sh)
           | Inr False \<Rightarrow>
               (case pop_min heap of
                  None \<Rightarrow> (TimerWait ''TimerWheel::idle'', sh)
                | Some (e, rest) \<Rightarrow>
                    (case instant_now sh of (now, sh) \<Rightarrow>
                       if te_deadline e \<le> now
                       then (TimerFired e,
                             timer_fire e (sh\<lparr>sh_timer := (sh_timer sh)\<lparr>tw_heap := (tw_heap (sh_timer sh))\<lparr>mx_inner := rest\<rparr>\<rparr>\<rparr>))
                       else (TimerWait ''TimerWheel::wait'', sh)))))"

text \<open>The loop of \<open>drive\<close>: \<open>env k\<close> is what the other threads do in turn \<open>k\<close>. A wait that finds the heap's lock poisoned
  ends the loop. The flag says whether the loop has returned.\<close>

fun timer_drive :: "nat \<Rightarrow> (nat \<Rightarrow> 'g shared \<Rightarrow> 'g shared) \<Rightarrow> nat \<Rightarrow> 'g shared \<Rightarrow> bool \<times> 'g shared" where
  "timer_drive 0 env k sh = (False, sh)"
| "timer_drive (Suc n) env k sh =
     (case timer_turn sh of
        (TimerExit, sh) \<Rightarrow> (True, sh)
      | (TimerFired _, sh) \<Rightarrow> timer_drive n env (Suc k) (env k sh)
      | (TimerWait loc, sh) \<Rightarrow>
          (let sh = env k sh in
           if mx_poisoned (tw_heap (sh_timer sh)) then (True, report_fault (PoisonedLock loc) sh)
           else timer_drive n env (Suc k) sh))"

section \<open>The queue is served in order\<close>

lemma pop_min_None [simp]: "pop_min es = None \<longleftrightarrow> es = []"
  by (cases es) (auto split: option.splits prod.splits if_splits)

lemma pop_min_split: "pop_min es = Some (e, rest) \<Longrightarrow> \<exists>us vs. es = us @ e # vs \<and> rest = us @ vs"
proof (induction es arbitrary: e rest)
  case (Cons x xs)
  then show ?case
  proof (cases "pop_min xs")
    case (Some p)
    obtain f fs where p: "p = (f, fs)" by (cases p)
    then obtain us vs where "xs = us @ f # vs" "fs = us @ vs" using Cons.IH Some by blast
    then have "x # xs = (x # us) @ f # vs" "x # fs = (x # us) @ vs" by simp_all
    moreover have "(e, rest) = (f, x # fs) \<or> (e, rest) = (x, xs)"
      using Cons.prems Some p by (auto split: if_splits)
    moreover have "x # xs = [] @ x # xs" "xs = [] @ xs" by simp_all
    ultimately show ?thesis by blast
  qed auto
qed simp

lemma pop_min_sort: "pop_min es = Some (e, rest) \<Longrightarrow> sort_key te_deadline es = e # sort_key te_deadline rest"
proof (induction es arbitrary: e rest)
  case (Cons x xs)
  then show ?case
  proof (cases "pop_min xs")
    case (Some p)
    obtain f fs where p: "p = (f, fs)" by (cases p)
    then show ?thesis using Cons.IH [of f fs] Cons.prems Some by (auto split: if_splits)
  qed simp
qed simp

lemma pop_min_least: "pop_min es = Some (e, rest) \<Longrightarrow> f \<in> set es \<Longrightarrow> te_deadline e \<le> te_deadline f"
proof (induction es arbitrary: e rest)
  case (Cons x xs)
  then show ?case by (cases "pop_min xs") (fastforce split: if_splits)+
qed simp

text \<open>Firing an entry leaves the heap and the clock alone, and does not look at them.\<close>

definition retime :: "nat \<Rightarrow> timer_wheel \<Rightarrow> 'g shared \<Rightarrow> 'g shared" where
  "retime r t sh = sh\<lparr>sh_reads := r, sh_timer := t\<rparr>"

lemma retime_commutes:
  "on_mailbox i f (retime r t sh) = apsnd (retime r t) (on_mailbox i f sh)"
  "on_asks g (retime r t sh) = apsnd (retime r t) (on_asks g sh)"
  "report_err x (retime r t sh) = retime r t (report_err x sh)"
  "report_fault er (retime r t sh) = retime r t (report_fault er sh)"
  "inject fl (retime r t sh) = retime r t (inject fl sh)"
  "resume d v (fl, retime r t sh) = apsnd (retime r t) (resume d v (fl, sh))"
  by (simp_all add: retime_def on_mailbox_def on_asks_def report_err_def report_fault_def inject_def resume_def on_vm_def
      split: sum.split prod.split option.split)

lemma timer_fire_retime: "timer_fire e (retime r t sh) = retime r t (timer_fire e sh)"
  by (simp add: timer_fire_def retime_commutes split_beta split: timer_payload.split sum.split option.split)

lemma retime_self: "retime (sh_reads sh) (sh_timer sh) sh = sh"
  by (simp add: retime_def)

lemma timer_fire_frame:
  "sh_timer (timer_fire e sh) = sh_timer sh" "sh_reads (timer_fire e sh) = sh_reads sh"
proof -
  let ?sh = "retime (sh_reads sh) (sh_timer sh) sh"
  have "sh_timer (timer_fire e ?sh) = sh_timer sh" "sh_reads (timer_fire e ?sh) = sh_reads sh"
    by (simp_all only: timer_fire_retime) (simp_all add: retime_def)
  then show "sh_timer (timer_fire e sh) = sh_timer sh" "sh_reads (timer_fire e sh) = sh_reads sh"
    by (simp_all only: retime_self)
qed

lemma timer_fire_clock: "sh_clock (timer_fire e sh) = sh_clock sh"
proof -
  have "sh_clock (snd (on_mailbox i f sh)) = sh_clock sh" "sh_clock (snd (on_asks g sh)) = sh_clock sh"
    "sh_clock (report_err x sh) = sh_clock sh" "sh_clock (report_fault er sh) = sh_clock sh"
    "sh_clock (inject fl sh) = sh_clock sh" "sh_clock (snd (resume d v (fl, sh))) = sh_clock sh"
    for i f g x er fl d v and sh :: "'a shared"
    by (simp_all add: on_mailbox_def on_asks_def report_err_def report_fault_def inject_def resume_def on_vm_def
        split: sum.split prod.split option.split)
  note * = this
  show ?thesis
    by (simp add: timer_fire_def * split_beta split: timer_payload.split sum.split option.split)
qed

definition timer_ready :: "'g shared \<Rightarrow> bool" where
  "timer_ready sh \<longleftrightarrow> \<not> mx_poisoned (tw_heap (sh_timer sh)) \<and> tw_shutdown (sh_timer sh) = mutex_new False"

definition with_heap :: "timer_entry list \<Rightarrow> nat \<Rightarrow> 'g shared \<Rightarrow> 'g shared" where
  "with_heap h r sh =
     sh\<lparr>sh_reads := r, sh_timer := (sh_timer sh)\<lparr>tw_heap := (tw_heap (sh_timer sh))\<lparr>mx_inner := h\<rparr>\<rparr>\<rparr>"

abbreviation heap_of :: "'g shared \<Rightarrow> timer_entry list" where
  "heap_of sh \<equiv> mx_inner (tw_heap (sh_timer sh))"

lemma timer_fire_with_heap: "timer_fire e (with_heap h r sh) = with_heap h r (timer_fire e sh)"
  by (simp add: with_heap_def timer_fire_frame flip: retime_def) (simp add: timer_fire_retime timer_fire_frame)

lemma with_heap_simps [simp]:
  "timer_ready (with_heap h r sh) = timer_ready sh" "heap_of (with_heap h r sh) = h" "sh_reads (with_heap h r sh) = r"
  "sh_clock (with_heap h r sh) = sh_clock sh" "with_heap h r (with_heap h' r' sh) = with_heap h r sh"
  by (simp_all add: with_heap_def timer_ready_def)

lemma timer_ready_fire [simp]: "timer_ready (timer_fire e sh) = timer_ready sh"
  by (simp add: timer_ready_def timer_fire_frame)

lemma timer_turn_fires:
  assumes "timer_ready sh" "pop_min (heap_of sh) = Some (e, rest)" "te_deadline e \<le> sh_clock sh (sh_reads sh)"
  shows "timer_turn sh = (TimerFired e, timer_fire e (with_heap rest (Suc (sh_reads sh)) sh))"
  using assms by (simp add: timer_turn_def timer_ready_def instant_now_def with_heap_def)

lemma drive_fires_due:
  assumes "timer_ready sh" "mono (sh_clock sh)" "now \<le> sh_clock sh (sh_reads sh)"
    and "length (filter (\<lambda>e. te_deadline e \<le> now) (heap_of sh)) = n"
  shows "timer_drive n (\<lambda>_ s. s) k sh =
     (False, fold timer_fire (sort_key te_deadline (filter (\<lambda>e. te_deadline e \<le> now) (heap_of sh)))
        (with_heap (filter (\<lambda>e. \<not> te_deadline e \<le> now) (heap_of sh)) (sh_reads sh + n) sh))"
  using assms
proof (induction n arbitrary: sh k)
  case 0
  then have "filter (\<lambda>e. te_deadline e \<le> now) (heap_of sh) = []" by simp
  moreover from this have "filter (\<lambda>e. \<not> te_deadline e \<le> now) (heap_of sh) = heap_of sh"
    by (simp add: filter_empty_conv)
  ultimately show ?case by (simp add: with_heap_def)
next
  case (Suc n)
  let ?due = "\<lambda>e. te_deadline e \<le> now"
  from Suc.prems(4) obtain f where f: "f \<in> set (heap_of sh)" "?due f"
    by (metis filter_False length_0_conv nat.simps(3))
  then obtain e rest where pop: "pop_min (heap_of sh) = Some (e, rest)"
    by (metis pop_min_None empty_iff list.set(1) not_Some_eq surj_pair)
  have e: "?due e" using pop_min_least [OF pop f(1)] f(2) by simp
  obtain us vs where "heap_of sh = us @ e # vs" "rest = us @ vs" using pop_min_split [OF pop] by blast
  then have rest: "filter (\<lambda>e. \<not> ?due e) (heap_of sh) = filter (\<lambda>e. \<not> ?due e) rest"
    "length (filter ?due rest) = n" using e Suc.prems(4) by simp_all
  have srt: "sort_key te_deadline (filter ?due (heap_of sh)) = e # sort_key te_deadline (filter ?due rest)"
    using pop_min_sort [OF pop] e by (simp flip: filter_sort)
  let ?sh = "with_heap rest (Suc (sh_reads sh)) (timer_fire e sh)"
  have turn: "timer_turn sh = (TimerFired e, ?sh)"
    using timer_turn_fires [OF Suc.prems(1) pop] e Suc.prems(3) by (simp add: timer_fire_with_heap)
  have "now \<le> sh_clock sh (Suc (sh_reads sh))" using Suc.prems(2,3) by (meson le_SucI monoD order_refl order_trans)
  then show ?case
    using Suc.IH [of ?sh "Suc k"] Suc.prems rest srt turn
    by (simp add: timer_fire_frame timer_fire_clock timer_fire_with_heap)
qed

section \<open>Properties\<close>


definition three_timers :: "nat shared" where
  "three_timers =
     schedule_sleep 1 (idle_flow 7) (schedule_sleep 9 (idle_flow 8) (schedule_sleep 2 (idle_flow 9)
       (shared_new 1 100 tiny_config 0 quota_default 0 (\<lambda>n. if n < 3 then 0 else 2000000))))"

lemma three_timers_eq:
  "timer_ready three_timers" "sh_reads three_timers = 3" "mono (sh_clock three_timers)"
  "sh_clock three_timers 3 = 2000000" "sh_injector three_timers = []"
  "heap_of three_timers = [\<lparr>te_deadline = 2000000, te_payload = WakeSleeper (idle_flow 9)\<rparr>,
     \<lparr>te_deadline = 9000000, te_payload = WakeSleeper (idle_flow 8)\<rparr>, \<lparr>te_deadline = 1000000, te_payload = WakeSleeper (idle_flow 7)\<rparr>]"
  by (simp_all add: three_timers_def schedule_sleep_def instant_now_def timer_push_def on_heap_def shared_new_def timer_new_def
      report_err_def deadline_after_def timer_ready_def mutex_new_def mono_def)


end
