(* ===== verification/BF_Spawn.thy ===== *)
theory BF_Spawn
  imports BF_Timer
begin

text \<open>
  \<open>scheduler/spawn.rs\<close> and the spawning half of \<open>scheduler/runtime.rs\<close>: the authority a child is born with, the
  capabilities its arguments carry over, and \<open>spawn_on\<close>, which registers the new flow and queues it. A step that fails
  leaves behind what the earlier steps did, as in the source.
\<close>

section \<open>Child authority\<close>

datatype confined_spawn_error = RateLimited | SourceCapRevoked | MissingSpawnRight

fun confined_spawn_error_string :: "confined_spawn_error \<Rightarrow> string" where
  "confined_spawn_error_string RateLimited = ''spawn rate exceeded''"
| "confined_spawn_error_string SourceCapRevoked = ''parent capability revoked''"
| "confined_spawn_error_string MissingSpawnRight = ''parent lacks SPAWN right''"

text \<open>\<open>parent_cell\<close> and \<open>child_cell\<close> are the values of the two cells; \<open>now\<close> and \<open>now'\<close> the two clock readings of the bucket.\<close>

definition exec_spawn_authority ::
  "cap \<Rightarrow> revocation_cell \<Rightarrow> flow_quota \<Rightarrow> u64 \<Rightarrow> cap_rights \<Rightarrow> native_mask option \<Rightarrow> revocation_cell \<Rightarrow> nat \<Rightarrow> nat \<Rightarrow>
     (confined_spawn_error + cap) \<times> flow_quota" where
  "exec_spawn_authority parent_cap parent_cell parent_quota new_child_id requested_rights requested_native child_cell now now' =
     (if \<not> cap_is_valid parent_cap parent_cell then (Inl SourceCapRevoked, parent_quota)
      else if \<not> contains (c_rights parent_cap) SPAWN then (Inl MissingSpawnRight, parent_quota)
      else case check_spawn parent_quota now now' of
        (Inl _, q) \<Rightarrow> (Inl RateLimited, q)
      | (Inr _, q) \<Rightarrow>
          (let attenuated = cap_attenuate parent_cap requested_rights requested_native in
           (Inr (cap_root (TFlow new_child_id) (c_rights attenuated) (c_native_mask attenuated) child_cell), q)))"

record bytecode_spawn =
  bs_authority :: cap
  bs_cell :: cell_id
  bs_quota :: nat
  bs_requested_rights :: cap_rights

definition spawn_authority ::
  "native_table \<Rightarrow> flow_id \<Rightarrow> cell_id \<Rightarrow> bytecode_spawn option \<Rightarrow> 'g shared \<Rightarrow> (spawn_error + cap) \<times> 'g shared" where
  "spawn_authority natives fid cell bytecode sh =
     (let cells = ct_cells (sh_caps sh) in
      case bytecode of
        None \<Rightarrow> (Inr (cap_root (TFlow fid) ROOT (Some (mask_full (length natives))) (cells cell)), sh)
      | Some ctx \<Rightarrow>
          (case instant_now sh of (now, sh) \<Rightarrow>
          (case instant_now sh of (now', sh) \<Rightarrow>
             err_as (\<lambda>e. SpawnDenied (confined_spawn_error_string e))
               (on_quota (bs_quota ctx) (\<lambda>q. exec_spawn_authority (bs_authority ctx) (cells (bs_cell ctx)) q fid
                  (bs_requested_rights ctx) None (cells cell) now now') sh))))"

section \<open>Arguments\<close>

text \<open>Every capability among the arguments is reissued to the child: by the trusted path for the host, by delegation for a flow.\<close>

fun grant_caps_in_args ::
  "'g getrandom \<Rightarrow> flow_id option \<Rightarrow> flow_id \<Rightarrow> value list \<Rightarrow> 'g shared \<Rightarrow> (spawn_error + value list) \<times> 'g shared" where
  "grant_caps_in_args rng parent child [] sh = (Inr [], sh)"
| "grant_caps_in_args rng parent child (arg # args) sh =
     and_then
       (case arg of
          VCap cid \<Rightarrow>
            err_as (\<lambda>_. SpawnInvalidCapability)
              (on_caps (\<lambda>t. case (case parent of
                    None \<Rightarrow> reissue_for rng cid child t
                  | Some p \<Rightarrow> cap_delegate_in rng cid p child t) of
                  (Inr c, t) \<Rightarrow> (Inr (VCap c), t) | (Inl e, t) \<Rightarrow> (Inl e, t)) sh)
        | other \<Rightarrow> (Inr other, sh)) (\<lambda>v sh.
     and_then (grant_caps_in_args rng parent child args sh) (\<lambda>vs sh. (Inr (v # vs), sh)))"

section \<open>Spawning\<close>

definition spawn_limit :: "'g shared \<Rightarrow> (spawn_error + unit) \<times> 'g shared" where
  "spawn_limit sh =
     (if 0 < sh_max_flows sh then
        (let sh' = (if \<exists>s\<in>set (sh_directory sh). mx_poisoned s then report_fault (PoisonedLock ''Directory::len'') sh else sh);
             current = directory_len (sh_directory sh) in
         if unat (sh_max_flows sh) \<le> current then (Inl (FlowLimit current (sh_max_flows sh)), sh') else (Inr (), sh'))
      else (Inr (), sh))"

text \<open>The flow's objects: its quota (charged for the arguments), then its mailbox and completion channel.\<close>

definition spawn_vm ::
  "chunk \<Rightarrow> native_table \<Rightarrow> cap \<Rightarrow> cell_id \<Rightarrow> u32 \<Rightarrow> value list \<Rightarrow> 'g shared \<Rightarrow> (spawn_error + (vm \<times> nat)) \<times> 'g shared" where
  "spawn_vm ch natives authority cell function args sh =
     (let gate = gate_from_authority authority cell (ct_native_cell (sh_caps sh)) (ct_cells (sh_caps sh)) (length natives) in
      case fresh_obj sh of (obj, sh) \<Rightarrow>
      (case instant_now sh of (now, sh) \<Rightarrow>
        (let sh = snd (on_quota obj (\<lambda>_. ((), quota_from_config (sh_quota_config sh) now)) sh) in
         and_then (err_as spawn_error_from_fault (vm_with_native_gate ch natives gate function args, sh)) (\<lambda>m sh.
           case on_quota obj (\<lambda>q. case set_quota m q of (r, q', m') \<Rightarrow> ((r, m'), q')) sh of
             ((Inl f, _), sh) \<Rightarrow> (Inl (spawn_error_from_fault f), sh)
           | ((Inr _, m), sh) \<Rightarrow> (Inr (m, obj), sh)))))"

definition spawn_register :: "flow_id \<Rightarrow> nat \<Rightarrow> 'g shared \<Rightarrow> (spawn_error + unit) \<times> 'g shared" where
  "spawn_register fid obj sh =
     (let sh = sh\<lparr>sh_mailboxes := (sh_mailboxes sh)(obj := mailbox_with_config (sh_mailbox_config sh))\<rparr> in
      case on_directory (directory_register fid obj) sh of
        (Inl e, sh) \<Rightarrow> (Inl SpawnUnavailable, report_fault e sh)
      | (Inr _, sh) \<Rightarrow>
          (case quotas_insert fid obj sh of
             (Inl e, sh) \<Rightarrow> (Inl SpawnUnavailable, report_fault e sh)
           | (Inr _, sh) \<Rightarrow> (Inr (), sh\<lparr>sh_channels := (sh_channels sh)(obj := channel)\<rparr>)))"

text \<open>The result names the flow and its completion channel (a \<open>FlowHandle\<close>).\<close>

type_synonym flow_handle = "flow_id \<times> nat"

definition spawn_on ::
  "'g getrandom \<Rightarrow> chunk \<Rightarrow> native_table \<Rightarrow> u32 \<Rightarrow> value list \<Rightarrow> restart_policy \<Rightarrow> nat option \<Rightarrow> flow_id option \<Rightarrow>
     bytecode_spawn option \<Rightarrow> 'g shared \<Rightarrow> (spawn_error + flow_handle) \<times> 'g shared" where
  "spawn_on rng ch natives function args policy supervisor parent bytecode sh =
     and_then (spawn_limit sh) (\<lambda>_ sh.
     case next_flow_id (sh_next_flow sh) of (fid, counter) \<Rightarrow>
     and_then (err_as (\<lambda>_. SpawnUnavailable) (on_caps (bind_flow fid) (sh\<lparr>sh_next_flow := counter\<rparr>))) (\<lambda>cell sh.
     and_then (spawn_authority natives fid cell bytecode sh) (\<lambda>authority sh.
     and_then (grant_caps_in_args rng parent fid args sh) (\<lambda>args sh.
     and_then (spawn_vm ch natives authority cell function args sh) (\<lambda>(m, obj) sh.
     and_then (spawn_register fid obj sh) (\<lambda>_ sh.
       let fl = (flow_new fid m obj policy obj cell obj)\<lparr>fl_authority := authority, fl_supervisor := supervisor\<rparr>;
           sh = upd_metrics (\<lambda>r. r\<lparr>rm_processes_spawned := rm_processes_spawned r + 1\<rparr>) sh
       in (Inr (fid, obj), inject fl sh)))))))"

end
