(* ===== verification/BF_Worker.thy ===== *)
theory BF_Worker
  imports BF_Spawn
begin

text \<open>
  \<open>scheduler/worker.rs\<close>: one worker's turn. A handler of a scheduler effect either keeps the flow, which the drive loop
  then runs again, or gives it up (\<open>None\<close>): finalized, parked, put on a queue or on the timer. Logging is left out, and a
  slice does not panic in this model, so \<open>catch_unwind\<close> always finds a result.
\<close>

section \<open>Hop authentication\<close>

text \<open>Reissue every capability of a value along its nested messages; the null capability is left alone.\<close>

fun reissue_caps :: "(cap_id \<Rightarrow> 'g cap_table \<Rightarrow> ('g, cap_error, cap_id) ct_res) \<Rightarrow> value \<Rightarrow> 'g cap_table \<Rightarrow> ('g, cap_error, value) ct_res" where
  "reissue_caps re (VCap cid) t =
     (if cap_id_is_none cid then (Inr (VCap cid), t) else and_then (re cid t) (\<lambda>c t. (Inr (VCap c), t)))"
| "reissue_caps re (VMessage (Msg s rc rid tg inner)) t =
     and_then (reissue_caps re inner t) (\<lambda>v t. (Inr (VMessage (with_payload (Msg s rc rid tg inner) v)), t))"
| "reissue_caps re other t = (Inr other, t)"

definition reissue_caps_in_value ::
  "'g getrandom \<Rightarrow> flow_id \<Rightarrow> flow_id \<Rightarrow> value \<Rightarrow> 'g cap_table \<Rightarrow> ('g, cap_error, value) ct_res" where
  "reissue_caps_in_value rng sender recipient v t = reissue_caps (\<lambda>cid. cap_delegate_in rng cid sender recipient) v t"

definition reissue_caps_from_host :: "'g getrandom \<Rightarrow> flow_id \<Rightarrow> value \<Rightarrow> 'g cap_table \<Rightarrow> ('g, cap_error, value) ct_res" where
  "reissue_caps_from_host rng recipient v t = reissue_caps (\<lambda>cid. reissue_for rng cid recipient) v t"

definition set_request_id :: "message \<Rightarrow> u64 \<Rightarrow> message" where
  "set_request_id msg rid = Msg (m_sender msg) (m_reply_cap msg) rid (m_tag msg) (m_payload msg)"

text \<open>The request id is drawn from the sender's virtual machine when it is unset.\<close>

definition authenticate_outgoing_message ::
  "'g getrandom \<Rightarrow> flow_id \<Rightarrow> flow_id \<Rightarrow> message \<Rightarrow> flow \<times> 'g shared \<Rightarrow> (cap_error + message) \<times> flow \<times> 'g shared" where
  "authenticate_outgoing_message rng sender recipient msg s =
     (case s of (fl, sh) \<Rightarrow>
      case (if m_request_id msg = 0
            then (case fresh_request_id (fl_vm fl) of (rid, m) \<Rightarrow> (set_request_id msg rid, fl\<lparr>fl_vm := m\<rparr>))
            else (msg, fl)) of (msg, fl) \<Rightarrow>
      (case on_caps (\<lambda>t.
          and_then (reissue_caps_in_value rng sender recipient (m_payload msg) t) (\<lambda>payload t.
          and_then (from_runtime (mint_or_reuse rng recipient sender SEND t)) (\<lambda>reply t.
            (Inr (authenticate (with_payload msg payload) sender reply), t)))) sh of
         (r, sh) \<Rightarrow> (r, fl, sh)))"

text \<open>The host draws request ids from a shared counter that skips 0.\<close>

definition authenticate_host_outgoing_message ::
  "'g getrandom \<Rightarrow> flow_id \<Rightarrow> message \<Rightarrow> 'g shared \<Rightarrow> (cap_error + message) \<times> 'g shared" where
  "authenticate_host_outgoing_message rng recipient msg sh =
     (case (if m_request_id msg = 0
            then (let rid = sh_host_next_request_id sh in
                  (set_request_id msg (if rid = 0 then 1 else rid), sh\<lparr>sh_host_next_request_id := rid + 1\<rparr>))
            else (msg, sh)) of (msg, sh) \<Rightarrow>
      on_caps (\<lambda>t.
        and_then (reissue_caps_from_host rng recipient (m_payload msg) t) (\<lambda>payload t.
          (Inr (authenticate (with_payload msg payload) HOST CAP_NONE), t))) sh)"

section \<open>Filters and capability resolution\<close>

fun receive_filter :: "u16 option \<Rightarrow> u64 option \<Rightarrow> wait_filter" where
  "receive_filter (Some tg) (Some rid) = FTaggedCorrelation tg rid"
| "receive_filter (Some tg) None = FTag tg"
| "receive_filter None (Some rid) = FCorrelation rid None"
| "receive_filter None None = FAny"

definition resolve_cap_held :: "cap_id \<Rightarrow> flow_id \<Rightarrow> cap_rights \<Rightarrow> 'g shared \<Rightarrow> cap_error + flow_id" where
  "resolve_cap_held cid holder need sh =
     bind_res (resolve cid holder need (sh_caps sh)) (\<lambda>e. ok_or (capability_target e) WrongTarget)"

definition map_error :: "('e \<Rightarrow> 'f) \<Rightarrow> 'e + 'a \<Rightarrow> 'f + 'a" where
  "map_error f r = (case r of Inl e \<Rightarrow> Inl (f e) | Inr x \<Rightarrow> Inr x)"

definition resolve_relation_cap :: "cap_id \<Rightarrow> flow_id \<Rightarrow> cap_rights \<Rightarrow> 'g shared \<Rightarrow> string + flow_id" where
  "resolve_relation_cap cid holder need sh =
     bind_res (map_error cap_error_string (resolve cid holder need (sh_caps sh))) (\<lambda>entry.
     bind_res (ok_or (capability_target entry) (cap_error_string WrongTarget)) (\<lambda>target.
     bind_res (map_error runtime_error_string (flow_cell target (sh_caps sh))) (\<lambda>found.
     bind_res (ok_or found (cap_error_string CapUnknown)) (\<lambda>cell.
     bind_res
       (map_error link_error_string
          (if need = LINK then check_link (cy_cap entry) (ct_cells (sh_caps sh) cell) target
           else check_monitor (cy_cap entry) (ct_cells (sh_caps sh) cell) target)) (\<lambda>_.
       Inr target)))))"

section \<open>The end of a flow\<close>

definition finish_ok :: "flow \<Rightarrow> value \<Rightarrow> 'g shared \<Rightarrow> 'g shared" where
  "finish_ok fl v sh = finalize_flow fl (Completed v) RNormal sh"

definition finish_failed :: "flow \<Rightarrow> string \<Rightarrow> 'g shared \<Rightarrow> 'g shared" where
  "finish_failed fl msg sh = finalize_flow fl (Failed msg) RFault sh"

section \<open>Finding work\<close>

fun steal_from :: "nat \<Rightarrow> flow list list \<Rightarrow> (flow \<times> nat) option" where
  "steal_from i [] = None"
| "steal_from i (q # qs) = (case q of [] \<Rightarrow> steal_from (Suc i) qs | fl # _ \<Rightarrow> Some (fl, i))"

text \<open>The worker's own deque, then the injector, then the other deques in their order. \<open>Steal::Retry\<close> loops until the
  race is over.\<close>

definition find_work :: "nat \<Rightarrow> 'g shared \<Rightarrow> flow option \<times> 'g shared" where
  "find_work w sh =
     (case sh_locals sh ! w of
        fl # rest \<Rightarrow> (Some fl, sh\<lparr>sh_locals := (sh_locals sh)[w := rest]\<rparr>)
      | [] \<Rightarrow>
          (case sh_injector sh of
             fl # rest \<Rightarrow> (Some fl, sh\<lparr>sh_injector := rest\<rparr>)
           | [] \<Rightarrow>
               (case steal_from 0 (sh_locals sh) of
                  Some (fl, i) \<Rightarrow>
                    (Some fl, upd_metrics (\<lambda>m. m\<lparr>rm_steals := rm_steals m + 1\<rparr>)
                       (sh\<lparr>sh_locals := (sh_locals sh)[i := tl (sh_locals sh ! i)]\<rparr>))
                | None \<Rightarrow> (None, sh))))"

section \<open>Waiting for a hop\<close>

definition start_timeout :: "u64 option \<Rightarrow> flow_id \<Rightarrow> nat \<Rightarrow> u8 \<Rightarrow> wait_epoch \<Rightarrow> 'g shared \<Rightarrow> 'g shared" where
  "start_timeout timeout fid mb dest epoch sh =
     (case timeout of Some delay \<Rightarrow> schedule_receive_timeout delay fid mb dest epoch sh | None \<Rightarrow> sh)"

text \<open>A hop was queued between the look and the park: the flow takes it and runs on.\<close>

definition resume_pending :: "u8 \<Rightarrow> flow \<Rightarrow> 'g shared \<Rightarrow> 'g shared" where
  "resume_pending dest fl sh =
     (case fl_pending_message fl of
        Some msg \<Rightarrow>
          (case resume_received dest msg (fl\<lparr>fl_pending_message := None\<rparr>, sh) of (fl, sh) \<Rightarrow> inject fl sh)
      | None \<Rightarrow> inject fl sh)"

definition park_on_mailbox :: "flow \<Rightarrow> u8 \<Rightarrow> u64 option \<Rightarrow> wait_filter \<Rightarrow> 'g shared \<Rightarrow> 'g shared" where
  "park_on_mailbox fl dest timeout filt sh =
     (case on_mailbox (fl_mailbox fl) (\<lambda>m. park_filter m fl filt) sh of
        (Inr (Inr epoch), sh) \<Rightarrow> start_timeout timeout (fl_id fl) (fl_mailbox fl) dest epoch sh
      | (Inr (Inl fl), sh) \<Rightarrow> resume_pending dest fl sh
      | (Inl e, sh) \<Rightarrow> report_fault e (drop_flow fl sh))"

text \<open>The target of an ask is gone by the time the asker is parked: wake it with the exit message.\<close>

definition wake_stranded_asker :: "flow \<Rightarrow> u8 \<Rightarrow> flow_id \<Rightarrow> 'g shared \<Rightarrow> 'g shared" where
  "wake_stranded_asker fl dest target sh =
     (case on_mailbox (fl_mailbox fl) take_parked sh of
        (Inr (Some parked), sh) \<Rightarrow>
          (case resume_received dest (VMessage (message_linked_exit target (exit_reason_as_u64 RFault)))
              (parked, snd (on_asks (remove_asker (fl_id fl)) sh)) of
             (parked, sh) \<Rightarrow> inject parked sh)
      | (_, sh) \<Rightarrow> sh)"

definition park_asker :: "flow \<Rightarrow> u8 \<Rightarrow> u64 option \<Rightarrow> wait_filter \<Rightarrow> flow_id \<Rightarrow> 'g shared \<Rightarrow> 'g shared" where
  "park_asker fl dest timeout filt target sh =
     (case on_mailbox (fl_mailbox fl) (\<lambda>m. park_filter m fl filt) sh of
        (Inr (Inr epoch), sh) \<Rightarrow>
          (case directory_lookup target (sh_directory sh) of
             Inr (Some _) \<Rightarrow> start_timeout timeout (fl_id fl) (fl_mailbox fl) dest epoch sh
           | _ \<Rightarrow> wake_stranded_asker fl dest target sh)
      | (Inr (Inl parked), sh) \<Rightarrow> resume_pending dest parked (snd (on_asks (remove_asker (fl_id fl)) sh))
      | (Inl e, sh) \<Rightarrow> report_fault e (snd (on_asks (remove_asker (fl_id fl)) (drop_flow fl sh))))"

fun filter_request_id :: "wait_filter \<Rightarrow> u64" where
  "filter_request_id (FCorrelation rid _) = rid"
| "filter_request_id (FTaggedCorrelation _ rid) = rid"
| "filter_request_id _ = 0"

definition park_ask :: "flow \<Rightarrow> u8 \<Rightarrow> u64 option \<Rightarrow> wait_filter \<Rightarrow> flow_id \<Rightarrow> 'g shared \<Rightarrow> 'g shared" where
  "park_ask fl dest timeout filt target sh =
     (case on_asks (ask_insert (fl_id fl) target (filter_request_id filt)) sh of
        (Inr (Inr _), sh) \<Rightarrow> park_asker fl dest timeout filt target sh
      | (Inr (Inl _), sh) \<Rightarrow> finish_failed fl (cap_error_string DuplicateRequestId) sh
      | (Inl e, sh) \<Rightarrow> finish_failed fl ''ask-wait index'' (report_fault e sh))"

section \<open>Delivery\<close>

text \<open>A slot became free: the first waiting sender's hop enters, and the sender runs on or starts to wait for its reply.\<close>

definition admit_waiting_on :: "nat \<Rightarrow> nat \<Rightarrow> 'g shared \<Rightarrow> 'g shared" where
  "admit_waiting_on w mb sh =
     (case on_mailbox mb admit_waiting_sender sh of
        (Inr (Some sender), sh) \<Rightarrow>
          (case on_waiting (waiting_remove (fl_id sender)) sh of (r, sh) \<Rightarrow>
             (case fl_pending_send sender of
                Some (PendingAsk dest rid expect timeout) \<Rightarrow>
                  park_ask (sender\<lparr>fl_pending_send := None\<rparr>) dest timeout (FCorrelation rid (Some expect)) expect (report_err r sh)
              | _ \<Rightarrow> local_push w (sender\<lparr>fl_pending_send := None\<rparr>) (report_err r sh)))
      | (Inr None, sh) \<Rightarrow> sh
      | (Inl e, sh) \<Rightarrow> report_fault e sh)"

datatype deliver_status = DeliverOk | DeliverFull

definition deliver :: "nat \<Rightarrow> flow_id \<Rightarrow> value \<Rightarrow> 'g shared \<Rightarrow> deliver_status \<times> 'g shared" where
  "deliver w target hop sh =
     (case directory_lookup target (sh_directory sh) of
        Inl e \<Rightarrow> (DeliverOk, report_fault e sh)
      | Inr None \<Rightarrow> (DeliverOk, sh)
      | Inr (Some mb) \<Rightarrow>
          (case on_mailbox mb (\<lambda>m. mailbox_push m hop) sh of
             (Inr (Inr (Handoff fl)), sh) \<Rightarrow>
               (case on_asks (remove_asker (fl_id fl)) sh of (r, sh) \<Rightarrow>
               (case resume_last hop (fl, report_err r sh) of (fl, sh) \<Rightarrow> (DeliverOk, local_push w fl sh)))
           | (Inr (Inr _), sh) \<Rightarrow> (DeliverOk, sh)
           | (Inr (Inl _), sh) \<Rightarrow> (DeliverFull, sh)
           | (Inl e, sh) \<Rightarrow> (DeliverOk, report_fault e sh)))"

text \<open>The target's inbox is full: the sender waits there with its stamped hop.\<close>

definition park_waiting_send :: "flow \<Rightarrow> flow_id \<Rightarrow> value \<Rightarrow> pending_send \<Rightarrow> 'g shared \<Rightarrow> 'g shared" where
  "park_waiting_send fl target stamped pending sh =
     (let fl = fl\<lparr>fl_pending_send := Some pending\<rparr>;
          gone = (\<lambda>fl sh. finalize_flow fl (Failed ''send target gone'') RFault (snd (on_waiting (waiting_remove (fl_id fl)) sh))) in
      case on_waiting (waiting_insert (fl_id fl) target) sh of
        (Inl e, sh) \<Rightarrow> finalize_flow fl (Failed ''waiting-send index'') RFault (report_fault e sh)
      | (Inr _, sh) \<Rightarrow>
          (case directory_lookup target (sh_directory sh) of
             Inl e \<Rightarrow> gone fl (report_fault e sh)
           | Inr None \<Rightarrow> gone fl sh
           | Inr (Some mb) \<Rightarrow>
               (case on_mailbox mb (\<lambda>m. park_sender m fl stamped) sh of
                  (Parked, sh) \<Rightarrow> sh
                | (Closed fl, sh) \<Rightarrow> gone fl sh)))"

end
