(* ===== verification/BF_Drive.thy ===== *)
theory BF_Drive
  imports BF_Worker
begin

text \<open>
  The drive loop of \<open>scheduler/worker.rs\<close>: run the flow for a slice, charge its CPU budget and apply the effect the slice
  ended in. Every arm of the source's \<open>match\<close> is a function here. A handler returns the flow when the loop goes on, and
  \<open>None\<close> when the flow left the worker. Revocation cells are read once per slice, since no other thread steps in between.
  \<open>dbg\<close> is the standard library's \<open>Debug\<close> printer of a string.
\<close>

section \<open>Handlers\<close>

type_synonym 'g effect = "flow option \<times> 'g shared"

definition fail_flow :: "flow \<Rightarrow> string \<Rightarrow> 'g shared \<Rightarrow> 'g effect" where
  "fail_flow fl msg sh = (None, finish_failed fl msg sh)"

text \<open>\<open>match r { Ok(x) => ..., Err(e) => { finish_failed(shared, *flow, e.to_string()); return; } }\<close>\<close>

definition or_fail :: "('e \<Rightarrow> string) \<Rightarrow> flow \<Rightarrow> ('e + 'a) \<times> 'g shared \<Rightarrow> ('a \<Rightarrow> 'g shared \<Rightarrow> 'g effect) \<Rightarrow> 'g effect" where
  "or_fail str fl r k = (case r of (Inl e, sh) \<Rightarrow> fail_flow fl (str e) sh | (Inr x, sh) \<Rightarrow> k x sh)"

definition keep_with :: "u8 \<Rightarrow> value \<Rightarrow> flow \<Rightarrow> 'g shared \<Rightarrow> 'g effect" where
  "keep_with dest v fl sh = (case resume dest v (fl, sh) of (fl, sh) \<Rightarrow> (Some fl, sh))"

definition eff_self_pid :: "'g getrandom \<Rightarrow> u8 \<Rightarrow> flow \<Rightarrow> 'g shared \<Rightarrow> 'g effect" where
  "eff_self_pid rng dest fl sh =
     or_fail runtime_error_string fl (on_caps (mint rng (fl_id fl) (fl_id fl) ADDRESSING) sh) (\<lambda>cap sh. keep_with dest (VCap cap) fl sh)"

definition eff_spawn ::
  "'g getrandom \<Rightarrow> (bytes \<Rightarrow> string) \<Rightarrow> u32 \<Rightarrow> value list \<Rightarrow> u8 \<Rightarrow> cap_rights \<Rightarrow> flow \<Rightarrow> 'g shared \<Rightarrow> 'g effect" where
  "eff_spawn rng dbg function args dest rights fl sh =
     (let ctx = \<lparr>bs_authority = fl_authority fl, bs_cell = fl_cell fl, bs_quota = fl_quota fl, bs_requested_rights = rights\<rparr> in
      or_fail (spawn_error_string dbg) fl
        (spawn_on rng (vm_chunk (fl_vm fl)) (vm_natives (fl_vm fl)) function args (fl_restart_policy fl) None (Some (fl_id fl))
           (Some ctx) sh) (\<lambda>child sh.
      or_fail runtime_error_string fl (on_caps (mint rng (fl_id fl) (fst child) ADDRESSING) sh) (\<lambda>cap sh.
        keep_with dest (VCap cap) fl sh)))"

text \<open>What \<open>Send\<close> and \<open>Ask\<close> do before delivery: resolve, charge, authenticate, count.\<close>

definition stamp_hop ::
  "'g getrandom \<Rightarrow> cap_rights \<Rightarrow> cap_id \<Rightarrow> message \<Rightarrow> usize \<Rightarrow> flow \<Rightarrow> 'g shared \<Rightarrow> (string + (flow_id \<times> message)) \<times> flow \<times> 'g shared" where
  "stamp_hop rng need target_cap msg hop_cost fl sh =
     (case resolve_cap_held target_cap (fl_id fl) need sh of
        Inl e \<Rightarrow> (Inl (cap_error_string e), fl, sh)
      | Inr target \<Rightarrow>
          (case instant_now sh of (now, sh) \<Rightarrow>
          (case instant_now sh of (now', sh) \<Rightarrow>
          (case on_quota (fl_quota fl) (\<lambda>q. check_send q now now') sh of
             (Inl e, sh) \<Rightarrow> (Inl (quota_error_string e), fl, sh)
           | (Inr _, sh) \<Rightarrow>
               (case on_quota (fl_quota fl) (\<lambda>q. quota_alloc q hop_cost) sh of
                  (Inl e, sh) \<Rightarrow> (Inl (quota_error_string e), fl, sh)
                | (Inr _, sh) \<Rightarrow>
                    (case authenticate_outgoing_message rng (fl_id fl) target msg (fl, sh) of
                       (Inl e, fl, sh) \<Rightarrow>
                         (Inl (cap_error_string e), fl, snd (on_quota (fl_quota fl) (\<lambda>q. ((), quota_free q hop_cost)) sh))
                     | (Inr m, fl, sh) \<Rightarrow>
                         (Inr (target, m),
                          fl\<lparr>fl_metrics := (fl_metrics fl)\<lparr>fm_messages_sent := fm_messages_sent (fl_metrics fl) + 1\<rparr>\<rparr>,
                          upd_metrics (\<lambda>r. r\<lparr>rm_messages_sent := rm_messages_sent r + 1\<rparr>) sh)))))))"

definition free_hop :: "flow \<Rightarrow> usize \<Rightarrow> 'g shared \<Rightarrow> 'g shared" where
  "free_hop fl hop_cost sh = snd (on_quota (fl_quota fl) (\<lambda>q. ((), quota_free q hop_cost)) sh)"

definition eff_send :: "'g getrandom \<Rightarrow> nat \<Rightarrow> cap_id \<Rightarrow> value \<Rightarrow> flow \<Rightarrow> 'g shared \<Rightarrow> 'g effect" where
  "eff_send rng w target_cap hop fl sh =
     (case as_message hop of
        None \<Rightarrow> fail_flow fl ''Send invariant broken: hop is not Value::Message'' sh
      | Some msg \<Rightarrow>
          (case stamp_hop rng SEND target_cap msg (memory_size hop) fl sh of
             (Inl err, fl, sh) \<Rightarrow> fail_flow fl err sh
           | (Inr (target, m), fl, sh) \<Rightarrow>
               (case deliver w target (VMessage m) sh of
                  (DeliverOk, sh) \<Rightarrow> (Some fl, free_hop fl (memory_size hop) sh)
                | (DeliverFull, sh) \<Rightarrow> (None, park_waiting_send fl target (VMessage m) FireAndForget sh))))"

definition eff_receive :: "nat \<Rightarrow> u8 \<Rightarrow> u64 option \<Rightarrow> u16 option \<Rightarrow> u64 option \<Rightarrow> flow \<Rightarrow> 'g shared \<Rightarrow> 'g effect" where
  "eff_receive w dest timeout match_tag match_request_id fl sh =
     (if \<not> contains (c_rights (fl_authority fl)) RECV then fail_flow fl ''receive denied: flow lacks RECV right'' sh
      else
        let fl = fl\<lparr>fl_last_receive_dest := Some dest\<rparr>; filt = receive_filter match_tag match_request_id in
        case on_mailbox (fl_mailbox fl) (\<lambda>m. try_pop_filter m filt) sh of
          (Inr (Some msg), sh) \<Rightarrow>
            (case resume dest msg (count_received fl, sh) of (fl, sh) \<Rightarrow> (Some fl, admit_waiting_on w (fl_mailbox fl) sh))
        | (Inr None, sh) \<Rightarrow> (None, park_on_mailbox fl dest timeout filt sh)
        | (Inl e, sh) \<Rightarrow> (None, drop_flow fl (report_fault e sh)))"

definition eff_ask :: "'g getrandom \<Rightarrow> nat \<Rightarrow> u8 \<Rightarrow> cap_id \<Rightarrow> value \<Rightarrow> u64 option \<Rightarrow> flow \<Rightarrow> 'g shared \<Rightarrow> 'g effect" where
  "eff_ask rng w dest target_cap request timeout fl sh =
     (case as_message request of
        None \<Rightarrow> fail_flow fl ''Ask invariant broken: request is not Value::Message'' sh
      | Some msg \<Rightarrow>
          (case stamp_hop rng ASK target_cap msg (memory_size request) fl sh of
             (Inl err, fl, sh) \<Rightarrow> fail_flow fl err sh
           | (Inr (target, m), fl, sh) \<Rightarrow>
               (let filt = FCorrelation (m_request_id m) (Some target); fl = fl\<lparr>fl_last_receive_dest := Some dest\<rparr> in
                case deliver w target (VMessage m) sh of
                  (DeliverFull, sh) \<Rightarrow>
                    (None, park_waiting_send fl target (VMessage m) (PendingAsk dest (m_request_id m) target timeout) sh)
                | (DeliverOk, sh) \<Rightarrow>
                    (case on_mailbox (fl_mailbox fl) (\<lambda>m. try_pop_filter m filt) (free_hop fl (memory_size request) sh) of
                       (Inr (Some reply), sh) \<Rightarrow> keep_with dest reply (count_received fl) sh
                     | (Inr None, sh) \<Rightarrow> (None, park_ask fl dest timeout filt target sh)
                     | (Inl e, sh) \<Rightarrow> (None, drop_flow fl (report_fault e sh))))))"

text \<open>A monitor reference or link id as an \<open>Int\<close>: \<open>i64::try_from\<close>, clamped.\<close>

definition ref_value :: "u64 \<Rightarrow> value" where
  "ref_value n = VInt (if unat n < 2 ^ 63 then n else 2 ^ 63 - 1)"

definition reg_ref :: "flow \<Rightarrow> u8 \<Rightarrow> u64 option" where
  "reg_ref fl reg =
     (case peek_reg (fl_vm fl) reg of Some (VInt n) \<Rightarrow> if 0 \<le> sint n then Some n else None | _ \<Rightarrow> None)"

definition eff_monitor :: "u8 \<Rightarrow> cap_id \<Rightarrow> flow \<Rightarrow> 'g shared \<Rightarrow> 'g effect" where
  "eff_monitor dest target_cap fl sh =
     or_fail id fl (resolve_relation_cap target_cap (fl_id fl) MONITOR sh, sh) (\<lambda>target sh.
       if target = fl_id fl then fail_flow fl ''cannot monitor self'' sh
       else or_fail runtime_error_string fl (on_monitors (monitors_create (fl_id fl) target) sh) (\<lambda>mon sh.
         keep_with dest (ref_value mon) fl sh))"

definition eff_demonitor :: "u8 \<Rightarrow> flow \<Rightarrow> 'g shared \<Rightarrow> 'g effect" where
  "eff_demonitor reg fl sh =
     (case reg_ref fl reg of
        None \<Rightarrow> fail_flow fl ''demonitor: expected Int ref'' sh
      | Some raw \<Rightarrow>
          or_fail runtime_error_string fl (on_monitors (monitors_remove_owned (fl_id fl) raw) sh) (\<lambda>r sh.
          or_fail lifecycle_error_string fl (r, sh) (\<lambda>_ sh. (Some fl, sh))))"

definition eff_link :: "u8 \<Rightarrow> cap_id \<Rightarrow> flow \<Rightarrow> 'g shared \<Rightarrow> 'g effect" where
  "eff_link dest target_cap fl sh =
     or_fail id fl (resolve_relation_cap target_cap (fl_id fl) LINK sh, sh) (\<lambda>target sh.
       if target = fl_id fl then fail_flow fl ''cannot link self'' sh
       else or_fail runtime_error_string fl (on_links (links_link (fl_id fl) target) sh) (\<lambda>r sh.
         or_fail lifecycle_error_string fl (r, sh) (\<lambda>lid sh. keep_with dest (ref_value lid) fl sh)))"

definition eff_unlink :: "u8 \<Rightarrow> flow \<Rightarrow> 'g shared \<Rightarrow> 'g effect" where
  "eff_unlink reg fl sh =
     (case reg_ref fl reg of
        None \<Rightarrow> fail_flow fl ''unlink: expected Int id'' sh
      | Some raw \<Rightarrow>
          or_fail runtime_error_string fl (on_links (links_unlink_owned (fl_id fl) raw) sh) (\<lambda>r sh.
          or_fail lifecycle_error_string fl (r, sh) (\<lambda>_ sh. (Some fl, sh))))"

definition eff_register_name :: "'g getrandom \<Rightarrow> bytes \<Rightarrow> flow \<Rightarrow> 'g shared \<Rightarrow> 'g effect" where
  "eff_register_name rng nm fl sh =
     (if \<not> contains (c_rights (fl_authority fl)) SEND then fail_flow fl ''register_name denied: flow lacks SEND right'' sh
      else if nm = [] then fail_flow fl ''register_name: name must be non-empty'' sh
      else
        or_fail runtime_error_string fl (on_caps (mint rng (fl_id fl) (fl_id fl) ADDRESSING) sh) (\<lambda>cap sh.
        or_fail runtime_error_string fl (on_registry (registry_register nm cap (fl_id fl)) sh) (\<lambda>r sh.
        or_fail lifecycle_error_string fl (r, sh) (\<lambda>_ sh. (Some fl, sh)))))"

definition eff_whereis :: "'g getrandom \<Rightarrow> u8 \<Rightarrow> bytes \<Rightarrow> flow \<Rightarrow> 'g shared \<Rightarrow> 'g effect" where
  "eff_whereis rng dest nm fl sh =
     or_fail runtime_error_string fl (registry_target nm (sh_registry sh), sh) (\<lambda>found sh.
       case found of
         None \<Rightarrow> keep_with dest VUnit fl sh
       | Some target \<Rightarrow>
           or_fail runtime_error_string fl (directory_lookup target (sh_directory sh), sh) (\<lambda>live sh.
             if live = None then keep_with dest VUnit fl sh
             else or_fail runtime_error_string fl (on_caps (mint_or_reuse rng (fl_id fl) target SEND) sh) (\<lambda>cap sh.
               keep_with dest (VCap cap) fl sh)))"

definition eff_delegate :: "'g getrandom \<Rightarrow> u8 \<Rightarrow> cap_id \<Rightarrow> cap_rights \<Rightarrow> cap_id option \<Rightarrow> flow \<Rightarrow> 'g shared \<Rightarrow> 'g effect" where
  "eff_delegate rng dest src_cap want_rights want_native_cap fl sh =
     or_fail cap_error_string fl
       ((case want_native_cap of
           None \<Rightarrow> Inr None
         | Some cid \<Rightarrow> bind_res (resolve cid (fl_id fl) NATIVE (sh_caps sh)) (\<lambda>entry. Inr (c_native_mask (cy_cap entry)))), sh)
       (\<lambda>want_native sh.
     or_fail cap_error_string fl (on_caps (cap_attenuate_in rng src_cap (fl_id fl) (fl_id fl) want_rights want_native) sh) (\<lambda>cid sh.
       keep_with dest (VCap cid) fl sh))"

definition eff_yield :: "nat \<Rightarrow> flow \<Rightarrow> 'g shared \<Rightarrow> 'g effect" where
  "eff_yield w fl sh =
     (None,
      local_push w (fl\<lparr>fl_metrics := (fl_metrics fl)\<lparr>fm_reschedules := fm_reschedules (fl_metrics fl) + 1\<rparr>\<rparr>)
        (upd_metrics (\<lambda>r. r\<lparr>rm_reschedules := rm_reschedules r + 1\<rparr>) sh))"

definition drive_effect :: "'g getrandom \<Rightarrow> (bytes \<Rightarrow> string) \<Rightarrow> nat \<Rightarrow> vm_result \<Rightarrow> flow \<Rightarrow> 'g shared \<Rightarrow> 'g effect" where
  "drive_effect rng dbg w res fl sh =
     (case res of
        VmComplete v \<Rightarrow> (None, finish_ok fl v sh)
      | VmTrap f \<Rightarrow> fail_flow fl (fault_string f) sh
      | VmYield \<Rightarrow> eff_yield w fl sh
      | VmSleep delay \<Rightarrow> (None, schedule_sleep delay fl sh)
      | VmSelfPid dest \<Rightarrow> eff_self_pid rng dest fl sh
      | VmSpawn function args dest rights \<Rightarrow> eff_spawn rng dbg function args dest rights fl sh
      | VmSend target_cap hop \<Rightarrow> eff_send rng w target_cap hop fl sh
      | VmReceive dest timeout tg rid \<Rightarrow> eff_receive w dest timeout tg rid fl sh
      | VmAsk dest target_cap request timeout \<Rightarrow> eff_ask rng w dest target_cap request timeout fl sh
      | VmMonitor dest target_cap \<Rightarrow> eff_monitor dest target_cap fl sh
      | VmDemonitor reg \<Rightarrow> eff_demonitor reg fl sh
      | VmLink dest target_cap \<Rightarrow> eff_link dest target_cap fl sh
      | VmUnlink reg \<Rightarrow> eff_unlink reg fl sh
      | VmRegisterName _ nm \<Rightarrow> eff_register_name rng nm fl sh
      | VmWhereis dest _ nm \<Rightarrow> eff_whereis rng dest nm fl sh
      | VmDelegate dest src want native \<Rightarrow> eff_delegate rng dest src want native fl sh)"

section \<open>The loop\<close>

definition slice_budget :: "u32 \<Rightarrow> i64 \<Rightarrow> nat" where
  "slice_budget quantum remaining =
     (let q = (ucast quantum :: i64) in unat (ucast (if sint q \<le> sint remaining then q else remaining) :: u32))"

definition drive_turn :: "'g getrandom \<Rightarrow> (bytes \<Rightarrow> string) \<Rightarrow> nat \<Rightarrow> flow \<Rightarrow> 'g shared \<Rightarrow> 'g effect" where
  "drive_turn rng dbg w fl sh =
     (if sh_shutdown sh then (None, local_push w fl sh)
      else
        let remaining = remaining_cpu (sh_quota_objs sh (fl_quota fl)) in
        if sint remaining \<le> 0 then fail_flow fl (quota_error_string CpuExhausted) sh
        else
          let before = vm_instructions_executed (fl_vm fl) in
          case on_vm fl (\<lambda>m. prod.swap (vm_run (\<lambda>_. ct_cells (sh_caps sh)) (slice_budget (sh_quantum sh) remaining) m)) sh of
            (res, fl, sh) \<Rightarrow>
              let executed = vm_instructions_executed (fl_vm fl); delta = (if before \<le> executed then executed - before else 0) in
              or_fail quota_error_string fl (on_quota (fl_quota fl) (\<lambda>q. charge_cpu q delta) sh) (\<lambda>_ sh.
                drive_effect rng dbg w res (fl\<lparr>fl_metrics := (fl_metrics fl)\<lparr>fm_instructions := executed\<rparr>\<rparr>) sh))"

fun drive_loop :: "nat \<Rightarrow> 'g getrandom \<Rightarrow> (bytes \<Rightarrow> string) \<Rightarrow> nat \<Rightarrow> flow \<Rightarrow> 'g shared \<Rightarrow> 'g shared option" where
  "drive_loop 0 rng dbg w fl sh = None"
| "drive_loop (Suc n) rng dbg w fl sh =
     (case drive_turn rng dbg w fl sh of
        (None, sh) \<Rightarrow> Some sh
      | (Some fl, sh) \<Rightarrow> drive_loop n rng dbg w fl sh)"

definition take_pending :: "flow \<Rightarrow> 'g shared \<Rightarrow> flow \<times> 'g shared" where
  "take_pending fl sh =
     (case fl_pending_message fl of
        Some msg \<Rightarrow> resume_last msg (fl\<lparr>fl_pending_message := None\<rparr>, sh)
      | None \<Rightarrow> (fl, sh))"

definition drive_process :: "nat \<Rightarrow> 'g getrandom \<Rightarrow> (bytes \<Rightarrow> string) \<Rightarrow> nat \<Rightarrow> flow \<Rightarrow> 'g shared \<Rightarrow> 'g shared option" where
  "drive_process fuel rng dbg w fl sh =
     (case take_pending fl sh of (fl, sh) \<Rightarrow>
      (case on_kills (kill_take (fl_id fl)) sh of
         (Inr (Some reason), sh) \<Rightarrow>
           Some (finalize_flow fl (Failed (''linked exit ('' @ exit_reason_string reason @ '')'')) reason sh)
       | (Inr None, sh) \<Rightarrow> drive_loop fuel rng dbg w fl sh
       | (Inl e, sh) \<Rightarrow> Some (drop_flow fl (report_fault e sh))))"

text \<open>One turn of a worker's main loop; an idle worker waits, which changes nothing.\<close>

definition worker_turn :: "nat \<Rightarrow> 'g getrandom \<Rightarrow> (bytes \<Rightarrow> string) \<Rightarrow> nat \<Rightarrow> 'g shared \<Rightarrow> 'g shared option" where
  "worker_turn fuel rng dbg w sh =
     (if sh_shutdown sh then Some sh
      else case find_work w sh of
        (Some fl, sh) \<Rightarrow> drive_process fuel rng dbg w fl sh
      | (None, sh) \<Rightarrow> Some sh)"

end
