(* ===== verification/BF_Drive_Safety.thy ===== *)
theory BF_Drive_Safety
  imports BF_Drive BF_Machine_Safety
begin

text \<open>
  What holds of a whole turn of a worker. \<open>runtime_invariant\<close> is the contract of an invariant over the capability table and
  the quota objects: kept by every step that leaves both alone, by the table's own operations with the rights the scheduler
  uses, by charges other than CPU, and by the allocation of a new quota object. Every handler then keeps it. The
  interpretations are: a flow's CPU budget (the drive loop ends), and the absence of a privilege from the table.
\<close>

section \<open>Steps of the capability table\<close>

text \<open>The operations the scheduler runs on the capability table; it mints addressing and reply capabilities only.\<close>

inductive caps_step :: "'g getrandom \<Rightarrow> 'g cap_table \<Rightarrow> 'g cap_table \<Rightarrow> bool" for rng where
  cs_bind: "caps_step rng t (snd (bind_flow fid t))"
| cs_mint: "caps_step rng t (snd (mint rng h tg ADDRESSING t))"
| cs_reply: "caps_step rng t (snd (mint_or_reuse rng h tg SEND t))"
| cs_derive: "derive_step rng t t' \<Longrightarrow> caps_step rng t t'"

lemma caps_step_ok: "caps_step rng t t' \<Longrightarrow> table_ok t \<Longrightarrow> table_ok t'"
  by (erule caps_step.cases)
    (metis bind_flow_ok mint_ok mint_or_reuse_ok prod.collapse derive_step_ok)+

lemma caps_step_derived:
  "caps_step rng t (snd (cap_attenuate_in rng cid h h' rights nm t))"
  "caps_step rng t (snd (cap_delegate_in rng cid h h' t))"
  "caps_step rng t (snd (reissue_for rng cid h t))"
  "caps_step rng t (snd (revoke_flow fid t))"
  by (rule cs_derive; metis derive_step.intros prod.collapse)+

lemma snd_and_then: "snd (and_then r k) = (case fst r of Inl e \<Rightarrow> snd r | Inr x \<Rightarrow> snd (k x (snd r)))"
  by (simp add: and_then_def case_prod_beta split: sum.split)

lemma snd_err_as [simp]: "snd (err_as f r) = snd r"
  by (simp add: err_as_def case_prod_beta split: sum.split)

lemma reissue_chain:
  "(\<And>cid t. R\<^sup>*\<^sup>* t (snd (re cid t))) \<Longrightarrow> R\<^sup>*\<^sup>* t (snd (reissue_caps re v t))"
  by (induction re v t rule: reissue_caps.induct) (simp_all add: snd_and_then split: sum.split)

lemma authenticate_chain:
  "(caps_step rng)\<^sup>*\<^sup>* t (snd (and_then (reissue_caps_in_value rng sender recipient v t) (\<lambda>payload t.
     and_then (from_runtime (mint_or_reuse rng recipient sender SEND t)) (\<lambda>reply t. (Inr (f payload reply), t)))))"
proof -
  have "(caps_step rng)\<^sup>*\<^sup>* t (snd (reissue_caps_in_value rng sender recipient v t))"
    unfolding reissue_caps_in_value_def by (rule reissue_chain) (blast intro: caps_step_derived)
  moreover have "(caps_step rng)\<^sup>*\<^sup>* t t1 \<Longrightarrow> (caps_step rng)\<^sup>*\<^sup>* t (snd (mint_or_reuse rng recipient sender SEND t1))" for t1
    by (erule rtranclp.rtrancl_into_rtrancl) (rule cs_reply)
  ultimately show ?thesis by (simp add: snd_and_then split: sum.split)
qed

lemma host_chain:
  "(caps_step rng)\<^sup>*\<^sup>* t (snd (and_then (reissue_caps_from_host rng recipient v t) (\<lambda>payload t. (Inr (f payload), t))))"
proof -
  have "(caps_step rng)\<^sup>*\<^sup>* t (snd (reissue_caps_from_host rng recipient v t))"
    unfolding reissue_caps_from_host_def by (rule reissue_chain) (blast intro: caps_step_derived)
  then show ?thesis by (simp add: snd_and_then split: sum.split)
qed

section \<open>The contract\<close>

definition view :: "'g shared \<Rightarrow> 'g cap_table \<times> (nat \<Rightarrow> flow_quota) \<times> nat" where
  "view sh = (sh_caps sh, sh_quota_objs sh, sh_next_obj sh)"

lemma view_simps [simp]:
  "view (report_fault e sh) = view sh" "view (report_err r sh) = view sh" "view (inject fl sh) = view sh"
  "view (local_push w fl sh) = view sh" "view (upd_metrics h sh) = view sh" "view (drop_flow fl sh) = view sh"
  "view (snd (instant_now sh)) = view sh" "view (flow_complete fl oc sh) = view sh" "view (sup_notify spv fid oc sh) = view sh"
  by (simp_all add: view_def report_fault_def report_err_def inject_def local_push_def upd_metrics_def drop_flow_def
      instant_now_def flow_complete_def sup_notify_def case_prod_beta split: sum.split)

lemma view_access [simp]:
  "view (snd (on_mailbox mb f1 sh)) = view sh" "view (snd (on_directory f2 sh)) = view sh"
  "view (snd (on_monitors f3 sh)) = view sh" "view (snd (on_links f4 sh)) = view sh" "view (snd (on_registry f5 sh)) = view sh"
  "view (snd (on_kills f6 sh)) = view sh" "view (snd (on_waiting f7 sh)) = view sh" "view (snd (on_asks f8 sh)) = view sh"
  "view (snd (quotas_remove fid sh)) = view sh" "view (snd (quotas_insert fid q sh)) = view sh"
  "view (snd (on_heap loc f9 sh)) = view sh"
  by (simp_all add: view_def access_defs quotas_remove_def quotas_insert_def on_heap_def case_prod_beta)

lemma view_timer [simp]:
  "view (timer_push e sh) = view sh" "view (schedule_sleep d fl sh) = view sh"
  "view (schedule_receive_timeout d fid mb dest ep sh) = view sh" "view (start_timeout tm fid mb dest ep sh) = view sh"
  by (simp_all add: timer_push_def schedule_sleep_def schedule_receive_timeout_def start_timeout_def case_prod_beta split: option.split)

lemma view_report_outcome [simp]: "view (report_outcome p sh) = view sh"
  by (simp add: report_outcome_def Let_def split: flow_outcome.split option.split)

lemma quota_grows_cpu:
  assumes "quota_grows (Some q) y"
  shows "\<exists>q'. y = Some q' \<and> fq_cpu_budget q' = fq_cpu_budget q"
proof -
  obtain q' where q': "y = Some q'" "q' = q\<lparr>fq_mem_used := fq_mem_used q'\<rparr>"
    using assms by (auto simp: quota_grows_def split: option.splits)
  have "fq_cpu_budget q' = fq_cpu_budget (q\<lparr>fq_mem_used := fq_mem_used q'\<rparr>)" by (rule arg_cong [OF q'(2)])
  with q'(1) show ?thesis by simp
qed

locale runtime_invariant =
  fixes K :: "'g shared \<Rightarrow> bool" and rng :: "'g getrandom"
  assumes K_view: "K sh \<Longrightarrow> view sh' = view sh \<Longrightarrow> K sh'"
    and K_table: "K sh \<Longrightarrow> caps_step rng (sh_caps sh) t \<Longrightarrow> K (sh\<lparr>sh_caps := t\<rparr>)"
    and K_quota: "K sh \<Longrightarrow> fq_cpu_budget x = fq_cpu_budget (sh_quota_objs sh q) \<Longrightarrow> K (sh\<lparr>sh_quota_objs := (sh_quota_objs sh)(q := x)\<rparr>)"
    and K_alloc: "K sh \<Longrightarrow> K (sh\<lparr>sh_next_obj := Suc (sh_next_obj sh), sh_quota_objs := (sh_quota_objs sh)(sh_next_obj sh := x)\<rparr>)"
begin

lemma K_eq: "view sh' = view sh \<Longrightarrow> K sh' = K sh"
  by (metis K_view)

lemma K_same [simp]:
  "K (report_fault e sh) = K sh" "K (report_err r sh) = K sh" "K (inject fl sh) = K sh" "K (local_push w fl sh) = K sh"
  "K (upd_metrics h sh) = K sh" "K (drop_flow fl sh) = K sh" "K (snd (instant_now sh)) = K sh"
  "K (snd (on_mailbox mb f1 sh)) = K sh" "K (snd (on_directory f2 sh)) = K sh" "K (snd (on_monitors f3 sh)) = K sh"
  "K (snd (on_links f4 sh)) = K sh" "K (snd (on_registry f5 sh)) = K sh" "K (snd (on_kills f6 sh)) = K sh"
  "K (snd (on_waiting f7 sh)) = K sh" "K (snd (on_asks f8 sh)) = K sh" "K (snd (quotas_remove fid sh)) = K sh"
  "K (snd (quotas_insert fid q sh)) = K sh" "K (schedule_sleep d fl sh) = K sh" "K (start_timeout tm fid mb dest ep sh) = K sh"
  "K (report_outcome p sh) = K sh"
  by (rule K_eq; simp)+

lemma K_on_quota: "K sh \<Longrightarrow> (\<And>x. fq_cpu_budget (snd (f x)) = fq_cpu_budget x) \<Longrightarrow> K (snd (on_quota q f sh))"
  by (simp add: on_quota_def case_prod_beta K_quota)

lemma K_on_vm:
  assumes "K sh" "\<And>m. quota_grows (vm_quota m) (vm_quota (snd (f m)))"
  shows "K (snd (snd (on_vm fl f sh)))"
proof -
  let ?m = "(fl_vm fl)\<lparr>vm_quota := Some (sh_quota_objs sh (fl_quota fl))\<rparr>"
  have "quota_grows (Some (sh_quota_objs sh (fl_quota fl))) (vm_quota (snd (f ?m)))" using assms(2) [of ?m] by simp
  then obtain q where "vm_quota (snd (f ?m)) = Some q" "fq_cpu_budget q = fq_cpu_budget (sh_quota_objs sh (fl_quota fl))"
    using quota_grows_cpu by blast
  then show ?thesis using assms(1) by (simp add: on_vm_def case_prod_beta K_quota)
qed

lemma K_resume [simp]: "K sh \<Longrightarrow> K (snd (resume d v (fl, sh)))"
proof -
  have "quota_grows (vm_quota m) (vm_quota (snd (resume_with m d v)))" for m
    using mem.set_reg_R [of m d v] by (metis prod.collapse resume_with_def)
  then show "K sh \<Longrightarrow> K (snd (resume d v (fl, sh)))" by (simp add: resume_def K_on_vm)
qed

lemma K_resume_received [simp]: "K sh \<Longrightarrow> K (snd (resume_received d v (fl, sh)))"
  by (simp add: resume_received_def case_prod_beta)

lemma K_resume_last [simp]: "K sh \<Longrightarrow> K (snd (resume_last v (fl, sh)))"
  by (simp add: resume_last_def split: option.split)

subsection \<open>Finalization\<close>

lemma K_fold: "(\<And>x sh. K sh \<Longrightarrow> K (f x sh)) \<Longrightarrow> K sh \<Longrightarrow> K (fold f xs sh)"
  by (induction xs arbitrary: sh) simp_all

lemma K_fold_work: "(\<And>x work sh. K sh \<Longrightarrow> K (snd (f x (work, sh)))) \<Longrightarrow> K sh \<Longrightarrow> K (snd (fold f xs (work, sh)))"
proof (induction xs arbitrary: work sh)
  case (Cons x xs)
  obtain work1 sh1 where one: "f x (work, sh) = (work1, sh1)" by fastforce
  have "K sh1" using Cons.prems(1) [OF Cons.prems(2), of x work] by (simp add: one)
  then show ?case using Cons.IH [OF Cons.prems(1)] by (simp add: one)
qed simp

lemma K_deliver_down: "K sh \<Longrightarrow> K (deliver_down ev sh)"
  by (simp add: deliver_down_def Let_def case_prod_beta split: sum.split option.split delivery.split)

lemma K_wake_asker: "K sh \<Longrightarrow> K (wake_asker hop a sh)"
  by (simp add: wake_asker_def case_prod_beta split: sum.split option.split)

lemma K_wake_orphaned: "K sh \<Longrightarrow> K (wake_orphaned_asks fid reason sh)"
  by (simp add: wake_orphaned_asks_def case_prod_beta K_fold K_wake_asker split: sum.split)

lemma K_extract: "K sh \<Longrightarrow> K (snd (extract_for_kill fid reason sh))"
  by (simp add: extract_for_kill_def extract_waiting_def case_prod_beta split: sum.split option.split)

lemma K_close: "K sh \<Longrightarrow> K (snd (close_mailbox fid (work, sh)))"
  by (simp add: close_mailbox_def case_prod_beta K_fold_work strand_sender_def split: sum.split option.split)

lemma K_propagate: "K sh \<Longrightarrow> K (snd (propagate_links fid reason (work, sh)))"
  by (simp add: propagate_links_def case_prod_beta K_fold_work collect_link_exit_def K_extract split: sum.split option.split)

lemma K_notify: "K sh \<Longrightarrow> K (notify_monitors fid reason sh)"
  by (simp add: notify_monitors_def case_prod_beta K_fold K_deliver_down split: sum.split)

lemma K_on_caps: "K sh \<Longrightarrow> caps_step rng (sh_caps sh) (snd (f (sh_caps sh))) \<Longrightarrow> K (snd (on_caps f sh))"
  by (simp add: on_caps_def case_prod_beta K_table)

lemma K_sweep: "K sh \<Longrightarrow> K (sweep_waits fid sh)" "K sh \<Longrightarrow> K (sweep_tables fid sh)"
  by (simp_all add: sweep_waits_def sweep_tables_def case_prod_beta K_on_caps caps_step_derived)

lemma K_finalize_one: "K sh \<Longrightarrow> K (snd (finalize_one p work sh))"
  by (simp add: finalize_one_def Let_def case_prod_beta K_propagate K_notify K_sweep K_wake_orphaned
      K_close [where work = work and sh = "sweep_waits fid sh" for fid sh, simplified])

lemma K_finalize_loop: "K sh \<Longrightarrow> K (snd (finalize_loop n work sh))"
proof (induction n arbitrary: work sh)
  case (Suc n)
  then show ?case using K_finalize_one [OF Suc.prems] by (simp add: case_prod_beta)
qed simp

lemma K_finalize_flow: "K sh \<Longrightarrow> K (finalize_flow fl oc reason sh)"
  by (simp add: finalize_flow_def K_finalize_loop del: finalize_loop.simps)

lemma K_finish [simp]: "K sh \<Longrightarrow> K (finish_ok fl v sh)" "K sh \<Longrightarrow> K (finish_failed fl msg sh)"
  by (simp_all add: finish_ok_def finish_failed_def K_finalize_flow)

subsection \<open>Hops and parking\<close>

lemma K_park_on_mailbox: "K sh \<Longrightarrow> K (park_on_mailbox fl d tm filt sh)"
  by (simp add: park_on_mailbox_def resume_pending_def case_prod_beta split: sum.split option.split)

lemma K_park_asker: "K sh \<Longrightarrow> K (park_asker fl d tm filt tg sh)"
  by (simp add: park_asker_def wake_stranded_asker_def resume_pending_def case_prod_beta split: sum.split option.split)

lemma K_park_ask: "K sh \<Longrightarrow> K (park_ask fl d tm filt tg sh)"
  by (simp add: park_ask_def case_prod_beta K_park_asker split: sum.split)

lemma K_admit: "K sh \<Longrightarrow> K (admit_waiting_on w mb sh)"
  by (simp add: admit_waiting_on_def case_prod_beta K_park_ask split: sum.split option.split pending_send.split)

lemma K_deliver: "K sh \<Longrightarrow> K (snd (deliver w tg hop sh))"
  by (simp add: deliver_def case_prod_beta split: sum.split option.split delivery.split)

lemma K_park_waiting_send: "K sh \<Longrightarrow> K (park_waiting_send fl tg st pending sh)"
  by (simp add: park_waiting_send_def Let_def case_prod_beta K_finalize_flow split: sum.split option.split park_sender_result.split)

subsection \<open>Capabilities in hops and arguments\<close>

lemma K_chain: "(caps_step rng)\<^sup>*\<^sup>* t t' \<Longrightarrow> K (sh\<lparr>sh_caps := t\<rparr>) \<Longrightarrow> K (sh\<lparr>sh_caps := t'\<rparr>)"
proof (induction rule: rtranclp_induct)
  case (step t1 t2)
  then show ?case using K_table [of "sh\<lparr>sh_caps := t1\<rparr>" t2] by simp
qed simp

lemma K_on_caps_chain: "K sh \<Longrightarrow> (caps_step rng)\<^sup>*\<^sup>* (sh_caps sh) (snd (f (sh_caps sh))) \<Longrightarrow> K (snd (on_caps f sh))"
  using K_chain [of "sh_caps sh" "snd (f (sh_caps sh))" sh] by (simp add: on_caps_def case_prod_beta)

lemma K_authenticate: "K sh \<Longrightarrow> K (snd (snd (authenticate_outgoing_message rng sender recipient msg (fl, sh))))"
  by (simp add: authenticate_outgoing_message_def case_prod_beta K_on_caps_chain authenticate_chain)

lemma K_authenticate_host: "K sh \<Longrightarrow> K (snd (authenticate_host_outgoing_message rng recipient msg sh))"
proof -
  assume "K sh"
  moreover from this have "K (sh\<lparr>sh_host_next_request_id := n\<rparr>)" for n by (rule K_view) (simp add: view_def)
  ultimately show ?thesis
    by (simp add: authenticate_host_outgoing_message_def case_prod_beta Let_def K_on_caps_chain host_chain)
qed

lemma K_grant_args: "K sh \<Longrightarrow> K (snd (grant_caps_in_args rng parent child args sh))"
proof (induction args arbitrary: sh)
  case (Cons arg args)
  let ?one = "case arg of
      VCap cid \<Rightarrow> err_as (\<lambda>_. SpawnInvalidCapability)
          (on_caps (\<lambda>t. case (case parent of None \<Rightarrow> reissue_for rng cid child t | Some p \<Rightarrow> cap_delegate_in rng cid p child t) of
              (Inr c, t) \<Rightarrow> (Inr (VCap c), t) | (Inl e, t) \<Rightarrow> (Inl e, t)) sh)
    | other \<Rightarrow> (Inr other, sh)"
  have "K (snd ?one)"
    using Cons.prems
    by (auto simp: case_prod_beta caps_step_derived intro!: K_on_caps split: val_splits option.split sum.split)
  then show ?case
    using Cons.IH [of "snd ?one"] by (simp add: snd_and_then split: sum.split)
qed simp

subsection \<open>Spawning\<close>

lemma K_spawn_vm: "K sh \<Longrightarrow> K (snd (spawn_vm ch natives authority cell function args sh))"
proof -
  assume K: "K sh"
  have "K (sh\<lparr>sh_next_obj := Suc (sh_next_obj sh), sh_reads := Suc (sh_reads sh),
      sh_quota_objs := (sh_quota_objs sh)(sh_next_obj sh := x)\<rparr>)" for x
    by (rule K_view [OF K_alloc [OF K, of x]]) (simp add: view_def)
  then show ?thesis
    by (simp add: spawn_vm_def Let_def fresh_obj_def instant_now_def on_quota_def case_prod_beta snd_and_then split: sum.split)
qed

lemma K_spawn_on: "K sh \<Longrightarrow> K (snd (spawn_on rng ch natives function args policy spv parent bytecode sh))"
proof -
  assume K: "K sh"
  have lim: "K sh \<Longrightarrow> K (snd (spawn_limit sh))" for sh by (simp add: spawn_limit_def Let_def)
  have bind: "K sh \<Longrightarrow> K (snd (on_caps (bind_flow fid) (sh\<lparr>sh_next_flow := n\<rparr>)))" for sh fid n
  proof -
    assume "K sh"
    then have "K (sh\<lparr>sh_next_flow := n\<rparr>)" by (rule K_view) (simp add: view_def)
    then show ?thesis by (rule K_on_caps) (simp add: cs_bind)
  qed
  have cpu: "fq_cpu_budget (snd (exec_spawn_authority pc pcell q cid rr rn cc now now')) = fq_cpu_budget q" for pc pcell q cid rr rn cc now now'
    by (simp add: exec_spawn_authority_def check_spawn_def case_prod_beta Let_def split: sum.split)
  have auth: "K sh \<Longrightarrow> K (snd (spawn_authority natives fid cell bytecode sh))" for sh fid cell
    by (simp add: spawn_authority_def Let_def case_prod_beta K_on_quota cpu split: option.split)
  have reg: "K sh \<Longrightarrow> K (snd (spawn_register fid obj sh))" for sh fid obj
  proof -
    assume "K sh"
    moreover have "K (sh\<lparr>sh_mailboxes := x\<rparr>) = K sh" "K (sh\<lparr>sh_channels := y\<rparr>) = K sh" for x y sh
      by (rule K_eq; simp add: view_def)+
    ultimately show ?thesis by (simp add: spawn_register_def Let_def case_prod_beta split: sum.split)
  qed
  show ?thesis
    by (simp add: spawn_on_def next_flow_id_def Let_def case_prod_beta K lim bind auth reg K_grant_args K_spawn_vm snd_and_then
        split: sum.split)
qed

subsection \<open>The effects of a slice\<close>

lemma K_or_fail:
  "K (snd r) \<Longrightarrow> (\<And>x. fst r = Inr x \<Longrightarrow> K (snd r) \<Longrightarrow> K (snd (k x (snd r)))) \<Longrightarrow> K (snd (or_fail str fl r k))"
  by (auto simp: or_fail_def fail_flow_def case_prod_beta split: sum.split)

lemma K_fail [simp]: "K sh \<Longrightarrow> K (snd (fail_flow fl msg sh))"
  by (simp add: fail_flow_def)

lemma K_keep_with [simp]: "K sh \<Longrightarrow> K (snd (keep_with d v fl sh))"
  by (simp add: keep_with_def case_prod_beta)

lemma K_free_hop [simp]: "K sh \<Longrightarrow> K (free_hop fl n sh)"
  by (simp add: free_hop_def K_on_quota quota_free_def)

lemma K_stamp: "K sh \<Longrightarrow> K (snd (snd (stamp_hop rng need c msg n fl sh)))"
  by (auto simp: stamp_hop_def case_prod_beta K_on_quota K_authenticate check_send_def quota_alloc_def quota_free_def Let_def
      split: sum.split)

lemma K_self_pid: "K sh \<Longrightarrow> K (snd (eff_self_pid rng d fl sh))"
  unfolding eff_self_pid_def by (intro K_or_fail K_on_caps cs_mint K_keep_with)

lemma K_spawn: "K sh \<Longrightarrow> K (snd (eff_spawn rng dbg fn args d rights fl sh))"
  unfolding eff_spawn_def Let_def by (intro K_or_fail K_spawn_on K_on_caps cs_mint K_keep_with)

lemma K_send: "K sh \<Longrightarrow> K (snd (eff_send rng w c hop fl sh))"
  by (simp add: eff_send_def case_prod_beta K_stamp K_deliver K_park_waiting_send split: option.split sum.split deliver_status.split)

lemma K_receive: "K sh \<Longrightarrow> K (snd (eff_receive w d tm tg rid fl sh))"
  by (simp add: eff_receive_def Let_def case_prod_beta K_admit K_park_on_mailbox split: sum.split option.split)

lemma K_ask: "K sh \<Longrightarrow> K (snd (eff_ask rng w d c request tm fl sh))"
  by (simp add: eff_ask_def Let_def case_prod_beta K_stamp K_deliver K_park_waiting_send K_park_ask
      split: option.split sum.split deliver_status.split)

lemma K_relation: "K sh \<Longrightarrow> K (snd (eff_monitor d c fl sh))" "K sh \<Longrightarrow> K (snd (eff_link d c fl sh))"
  by (simp_all add: eff_monitor_def eff_link_def K_or_fail)

lemma K_unrelation: "K sh \<Longrightarrow> K (snd (eff_demonitor r fl sh))" "K sh \<Longrightarrow> K (snd (eff_unlink r fl sh))"
  by (simp_all add: eff_demonitor_def eff_unlink_def K_or_fail split: option.split)

lemma K_register_name: "K sh \<Longrightarrow> K (snd (eff_register_name rng nm fl sh))"
  by (simp add: eff_register_name_def K_or_fail K_on_caps cs_mint)

lemma K_whereis: "K sh \<Longrightarrow> K (snd (eff_whereis rng d nm fl sh))"
  by (simp add: eff_whereis_def K_or_fail K_on_caps cs_reply split: option.split)

lemma K_delegate: "K sh \<Longrightarrow> K (snd (eff_delegate rng d c want native fl sh))"
  by (simp add: eff_delegate_def K_or_fail K_on_caps caps_step_derived)

lemma K_yield: "K sh \<Longrightarrow> K (snd (eff_yield w fl sh))"
  by (simp add: eff_yield_def)

lemma K_drive_effect: "K sh \<Longrightarrow> K (snd (drive_effect rng dbg w res fl sh))"
  by (cases res) (simp_all add: drive_effect_def K_self_pid K_spawn K_send K_receive K_ask K_relation K_unrelation
      K_register_name K_whereis K_delegate K_yield)

lemma K_vm_run: "K sh \<Longrightarrow> K (snd (snd (on_vm fl (\<lambda>m. prod.swap (vm_run cells n m)) sh)))"
  by (simp add: K_on_vm mem.vm_run_R)

end

section \<open>The drive loop ends\<close>

lemma slice_budget_min:
  assumes "0 \<le> sint r"
  shows "slice_budget quantum r = min (unat quantum) (nat (sint r))"
proof -
  have q: "sint (ucast quantum :: i64) = int (unat quantum)"
  proof -
    have "0 \<le> uint quantum" "uint quantum < 2 ^ 32" using uint_lt2p [of quantum] by simp_all
    then have "signed_take_bit 63 (uint quantum) = uint quantum"
      by (intro signed_take_bit_int_eq_self order_trans [OF _ uint_ge_0]) simp_all
    with \<open>uint quantum < 2 ^ 32\<close> show ?thesis by (simp add: sint_uint unsigned_ucast_eq take_bit_int_eq_self)
  qed
  have r: "int (unat r) = sint r" 
  proof -
    have "sint r < 2 ^ 63" using sint_lt [of r] by simp
    with assms have "take_bit 64 (sint r) = sint r" by (simp add: take_bit_int_eq_self_iff)
    then show ?thesis by (simp add: uint_sint)
  qed
  show ?thesis
  proof (cases "sint (ucast quantum :: i64) \<le> sint r")
    case True
    have "(ucast (ucast quantum :: i64) :: u32) = quantum" by (rule bit_word_eqI) (simp add: bit_ucast_iff)
    moreover have "unat quantum \<le> nat (sint r)" using True q by linarith
    ultimately show ?thesis using True by (simp add: slice_budget_def Let_def)
  next
    case False
    then have "unat r < unat quantum" using q r by linarith
    then have "unat r < 2 ^ 32" using unsigned_less [of quantum, where ?'a = nat] by simp
    then have "unat (ucast r :: u32) = unat r" by (simp add: unsigned_ucast_eq take_bit_nat_eq_self)
    moreover have "\<not> unat quantum \<le> nat (sint r)" "unat r = nat (sint r)" using False q r by linarith+
    ultimately show ?thesis using False by (simp add: slice_budget_def Let_def min_def)
  qed
qed


lemma vm_run_executes:
  assumes "0 < n"
  shows "\<exists>k. 0 < k \<and> k \<le> n \<and> vm_instructions_executed (fst (vm_run cells n m)) = vm_instructions_executed m + of_nat k"
proof -
  obtain n' where n: "n = Suc n'" using assms gr0_implies_Suc by blast
  obtain m1 c where st: "vm_step cells m = (m1, c)" by fastforce
  have m1: "vm_instructions_executed m1 = vm_instructions_executed m + 1"
    using vm_step_counts [of cells m] st by simp
  show ?thesis
  proof (cases c)
    case Next
    obtain k where "k \<le> n'"
      "vm_instructions_executed (fst (vm_run cells n' m1)) = vm_instructions_executed m1 + of_nat k"
      using vm_run_counts by blast
    then show ?thesis using st Next m1 n by (intro exI [of _ "Suc k"]) simp
  next
    case (Stop r)
    then show ?thesis using st m1 n by (intro exI [of _ 1]) simp
  qed
qed

text \<open>What a handler that keeps the flow does not change of it.\<close>

definition same_flow :: "flow \<Rightarrow> flow \<Rightarrow> bool" where
  "same_flow fl fl' \<longleftrightarrow> fl_id fl' = fl_id fl \<and> fl_quota fl' = fl_quota fl \<and>
     vm_instructions_executed (fl_vm fl') = vm_instructions_executed (fl_vm fl)"

lemma same_flow_refl [simp]: "same_flow fl fl"
  by (simp add: same_flow_def)

lemma same_flow_trans: "same_flow a b \<Longrightarrow> same_flow b c \<Longrightarrow> same_flow a c"
  by (simp add: same_flow_def)

lemma resume_executed: "vm_instructions_executed (snd (resume_with m d v)) = vm_instructions_executed m"
  using count.set_reg_R [of m d v] by (metis prod.collapse resume_with_def)

lemma same_flow_resume: "same_flow fl (fst (resume d v (fl, sh)))"
  by (simp add: same_flow_def resume_def on_vm_def case_prod_beta resume_executed)

lemma same_flow_keep: "keep_with d v fl sh = (Some fl', sh') \<Longrightarrow> same_flow fl fl'"
  using same_flow_resume [of fl d v sh] by (auto simp: keep_with_def case_prod_beta)

lemma or_fail_Some: "or_fail str fl r k = (Some fl', sh') \<Longrightarrow> \<exists>x. fst r = Inr x \<and> k x (snd r) = (Some fl', sh')"
  by (auto simp: or_fail_def fail_flow_def split: prod.splits sum.splits)

lemma fail_flow_None [simp]: "fail_flow fl msg sh \<noteq> (Some fl', sh')"
  by (simp add: fail_flow_def)

lemma same_flow_stamp: "same_flow fl (fst (snd (stamp_hop rng need c msg n fl sh)))"
  by (simp add: stamp_hop_def authenticate_outgoing_message_def case_prod_beta fresh_request_id_eq same_flow_def Let_def split: sum.split)


lemma same_flow_stampD: "stamp_hop rng need c msg n fl sh = (r, fl', sh') \<Longrightarrow> same_flow fl fl'"
  using same_flow_stamp [of fl rng need c msg n sh] by simp

lemma same_flow_resumeD: "resume d v (fl, sh) = (fl', sh') \<Longrightarrow> same_flow fl fl'"
  using same_flow_resume [of fl d v sh] by simp

lemma same_flow_sets [simp]:
  "same_flow fl (fl'\<lparr>fl_last_receive_dest := x\<rparr>) = same_flow fl fl'"
  "same_flow (fl\<lparr>fl_last_receive_dest := x\<rparr>) fl' = same_flow fl fl'"
  "same_flow fl (count_received fl') = same_flow fl fl'" "same_flow (count_received fl) fl' = same_flow fl fl'"
  "same_flow (fl\<lparr>fl_metrics := y\<rparr>) fl' = same_flow fl fl'"
  by (simp_all add: same_flow_def count_received_def)

lemma same_flow_hops:
  "eff_send rng w c hop fl sh = (Some fl', sh') \<Longrightarrow> same_flow fl fl'"
  "eff_ask rng w d c hop tm fl sh = (Some fl', sh') \<Longrightarrow> same_flow fl fl'"
  "eff_receive w d tm tg rid fl sh = (Some fl', sh') \<Longrightarrow> same_flow fl fl'"
  by (auto simp: eff_send_def eff_ask_def eff_receive_def Let_def dest!: same_flow_stampD same_flow_resumeD same_flow_keep
      split: option.splits sum.splits prod.splits deliver_status.splits if_splits intro: same_flow_trans)

lemma same_flow_relations:
  "eff_monitor d c fl sh = (Some fl', sh') \<Longrightarrow> same_flow fl fl'"
  "eff_link d c fl sh = (Some fl', sh') \<Longrightarrow> same_flow fl fl'"
  "eff_demonitor r fl sh = (Some fl', sh') \<Longrightarrow> same_flow fl fl'"
  "eff_unlink r fl sh = (Some fl', sh') \<Longrightarrow> same_flow fl fl'"
  by (auto simp: eff_monitor_def eff_link_def eff_demonitor_def eff_unlink_def dest!: or_fail_Some same_flow_keep
      split: option.splits if_splits)

lemma same_flow_caps:
  "eff_self_pid rng d fl sh = (Some fl', sh') \<Longrightarrow> same_flow fl fl'"
  "eff_spawn rng dbg fn args d rights fl sh = (Some fl', sh') \<Longrightarrow> same_flow fl fl'"
  "eff_register_name rng nm fl sh = (Some fl', sh') \<Longrightarrow> same_flow fl fl'"
  "eff_whereis rng d nm fl sh = (Some fl', sh') \<Longrightarrow> same_flow fl fl'"
  "eff_delegate rng d c want native fl sh = (Some fl', sh') \<Longrightarrow> same_flow fl fl'"
  by (auto simp: eff_self_pid_def eff_spawn_def Let_def eff_register_name_def eff_whereis_def eff_delegate_def
      dest!: or_fail_Some same_flow_keep split: option.splits if_splits)

lemma same_flow_effect: "drive_effect rng dbg w res fl sh = (Some fl', sh') \<Longrightarrow> same_flow fl fl' \<and> res \<noteq> VmYield"
  by (cases res)
    (auto simp: drive_effect_def eff_yield_def dest: same_flow_hops same_flow_relations same_flow_caps)

interpretation cpu: runtime_invariant "\<lambda>sh. q < sh_next_obj sh \<and> fq_cpu_budget (sh_quota_objs sh q) = c" rng for q c rng
  by unfold_locales (auto simp: view_def)


abbreviation cpu_left :: "flow \<Rightarrow> 'g shared \<Rightarrow> nat" where
  "cpu_left fl sh \<equiv> nat (sint (fq_cpu_budget (sh_quota_objs sh (fl_quota fl))))"

abbreviation executed :: "flow \<Rightarrow> nat" where
  "executed fl \<equiv> unat (vm_instructions_executed (fl_vm fl))"

lemma sint_of_nat_small:
  assumes "k < 2 ^ 63"
  shows "sint (of_nat k :: i64) = int k"
proof -
  have "take_bit 64 k = k" using assms by (simp add: take_bit_nat_eq_self)
  moreover have "signed_take_bit 63 (int k) = int k"
    using assms by (intro signed_take_bit_int_eq_self) simp_all
  ultimately show ?thesis by (simp add: sint_uint unsigned_of_nat)
qed

lemma charge_cpu_exact:
  assumes "k \<le> nat (sint (fq_cpu_budget q))" "0 \<le> sint (fq_cpu_budget q)"
  shows "\<exists>q'. charge_cpu q (of_nat k) = (Inr (), q') \<and> nat (sint (fq_cpu_budget q')) = nat (sint (fq_cpu_budget q)) - k"
proof -
  have lt: "sint (fq_cpu_budget q) < 2 ^ 63" using sint_lt [of "fq_cpu_budget q"] by simp
  have k: "int k \<le> sint (fq_cpu_budget q)" using assms by linarith
  then have "k < 2 ^ 63" using lt by simp
  then have "sint (of_nat k :: i64) = int k" by (rule sint_of_nat_small)
  with k lt have "sint (fq_cpu_budget q - of_nat k) = sint (fq_cpu_budget q) - int k"
    by (subst sint_sub_no_wrap) linarith+
  then show ?thesis using k by (simp add: charge_cpu_def Let_def)
qed


lemma drive_turn_spends:
  assumes turn: "drive_turn rng dbg w fl sh = (Some fl', sh')" and q: "fl_quota fl < sh_next_obj sh"
    and room: "executed fl + cpu_left fl sh < 2 ^ 64"
  shows "fl_quota fl' < sh_next_obj sh' \<and> cpu_left fl' sh' < cpu_left fl sh \<and>
     executed fl' + cpu_left fl' sh' = executed fl + cpu_left fl sh"
proof -
  let ?q = "fl_quota fl" and ?n = "slice_budget (sh_quantum sh) (fq_cpu_budget (sh_quota_objs sh (fl_quota fl)))"
  let ?m = "(fl_vm fl)\<lparr>vm_quota := Some (sh_quota_objs sh ?q)\<rparr>"
  let ?run = "\<lambda>m. vm_run (\<lambda>_. ct_cells (sh_caps sh)) ?n m"
  have pos: "0 < sint (fq_cpu_budget (sh_quota_objs sh ?q))" and nosh: "\<not> sh_shutdown sh"
    using turn by (auto simp: drive_turn_def remaining_cpu_def Let_def split: if_splits)
  then have rem: "remaining_cpu (sh_quota_objs sh ?q) = fq_cpu_budget (sh_quota_objs sh ?q)" by (simp add: remaining_cpu_def)
  obtain res fl1 sh1 where vm: "on_vm fl (\<lambda>m. prod.swap (?run m)) sh = (res, fl1, sh1)" by (metis prod.collapse)
  have q1: "?q < sh_next_obj sh1" "fq_cpu_budget (sh_quota_objs sh1 ?q) = fq_cpu_budget (sh_quota_objs sh ?q)"
    using cpu.K_vm_run [of ?q sh "fq_cpu_budget (sh_quota_objs sh ?q)" fl] q vm by (metis snd_conv)+
  have fl1: "fl_quota fl1 = ?q" "vm_instructions_executed (fl_vm fl1) = vm_instructions_executed (fst (?run ?m))" "res = snd (?run ?m)"
    using vm by (auto simp: on_vm_def case_prod_beta)
  define delta where "delta = (if vm_instructions_executed (fl_vm fl) \<le> vm_instructions_executed (fl_vm fl1)
    then vm_instructions_executed (fl_vm fl1) - vm_instructions_executed (fl_vm fl) else 0)"
  define sh2 where "sh2 = snd (on_quota ?q (\<lambda>x. charge_cpu x delta) sh1)"
  define fl2 where "fl2 = fl1\<lparr>fl_metrics := (fl_metrics fl1)\<lparr>fm_instructions := vm_instructions_executed (fl_vm fl1)\<rparr>\<rparr>"
  have eff: "drive_effect rng dbg w res fl2 sh2 = (Some fl', sh')"
    using turn nosh pos rem vm fl1(1)
    by (auto simp: drive_turn_def Let_def fl2_def sh2_def delta_def dest!: or_fail_Some)
  have same: "same_flow fl1 fl'" and "res \<noteq> VmYield" using same_flow_effect [OF eff] by (simp_all add: fl2_def)
  then have n: "0 < ?n" using fl1(3) by (metis gr0I snd_conv vm_run.simps(1))
  obtain k where k: "0 < k" "k \<le> ?n" "vm_instructions_executed (fl_vm fl1) = vm_instructions_executed (fl_vm fl) + of_nat k"
    using vm_run_executes [OF n, of "\<lambda>_. ct_cells (sh_caps sh)" ?m] fl1(2) by auto
  have le: "k \<le> cpu_left fl sh" using k(2) pos slice_budget_min [of "fq_cpu_budget (sh_quota_objs sh ?q)"] by simp
  have ex: "executed fl1 = executed fl + k"
    using room le k(3) by (simp add: unat_word_ariths unsigned_of_nat take_bit_nat_eq_self)
  then have "delta = of_nat k" using k(3) by (simp add: delta_def word_le_nat_alt)
  then obtain x where x: "charge_cpu (sh_quota_objs sh1 ?q) delta = (Inr (), x)"
    "nat (sint (fq_cpu_budget x)) = cpu_left fl sh - k"
    using charge_cpu_exact [of k "sh_quota_objs sh1 ?q"] le pos q1(2) by auto
  then have sh2: "?q < sh_next_obj sh2" "nat (sint (fq_cpu_budget (sh_quota_objs sh2 ?q))) = cpu_left fl sh - k"
    using q1 by (auto simp: sh2_def on_quota_def)
  have "?q < sh_next_obj sh' \<and> fq_cpu_budget (sh_quota_objs sh' ?q) = fq_cpu_budget (sh_quota_objs sh2 ?q)"
    using cpu.K_drive_effect [of ?q sh2 _ rng dbg w res fl2] sh2(1) eff by simp
  with same fl1(1) sh2(2) ex k(1) le show ?thesis by (simp add: same_flow_def)
qed

lemma drive_loop_ends:
  "fl_quota fl < sh_next_obj sh \<Longrightarrow> executed fl + cpu_left fl sh < 2 ^ 64 \<Longrightarrow> cpu_left fl sh < n \<Longrightarrow>
     \<exists>sh'. drive_loop n rng dbg w fl sh = Some sh'"
proof (induction n arbitrary: fl sh)
  case (Suc n)
  obtain r sh1 where turn: "drive_turn rng dbg w fl sh = (r, sh1)" by fastforce
  show ?case
  proof (cases r)
    case (Some fl1)
    with turn have *: "drive_turn rng dbg w fl sh = (Some fl1, sh1)" by simp
    show ?thesis using Suc.IH [of fl1 sh1] drive_turn_spends [OF * Suc.prems(1, 2)] Suc.prems * by simp
  qed (simp add: turn)
qed simp

lemma take_pending_keeps:
  assumes "take_pending fl sh = (fl1, sh1)" and "fl_quota fl < sh_next_obj sh"
  shows "same_flow fl fl1 \<and> fl_quota fl1 < sh_next_obj sh1 \<and> cpu_left fl1 sh1 = cpu_left fl sh"
proof -
  have same: "same_flow fl fl1"
  proof -
    have "same_flow (fl\<lparr>fl_pending_message := None\<rparr>) x = same_flow fl x" for x by (simp add: same_flow_def)
    moreover have "fl1 = fst (take_pending fl sh)" using assms(1) by simp
    ultimately show ?thesis
      using same_flow_resume [of "fl\<lparr>fl_pending_message := None\<rparr>"]
      by (auto simp: take_pending_def resume_last_def resume_received_def case_prod_beta same_flow_def count_received_def
          split: option.split)
  qed
  have "fl_quota fl < sh_next_obj sh1 \<and>
      fq_cpu_budget (sh_quota_objs sh1 (fl_quota fl)) = fq_cpu_budget (sh_quota_objs sh (fl_quota fl))"
  proof -
    let ?c = "fq_cpu_budget (sh_quota_objs sh (fl_quota fl))"
    have "sh1 = snd (take_pending fl sh)" using assms(1) by simp
    moreover have "fl_quota fl < sh_next_obj (snd (take_pending fl sh)) \<and> fq_cpu_budget (sh_quota_objs (snd (take_pending fl sh)) (fl_quota fl)) = ?c"
      using assms(2) by (simp add: take_pending_def cpu.K_resume_received split: option.split)
    ultimately show ?thesis by simp
  qed
  with same show ?thesis by (simp add: same_flow_def)
qed

text \<open>C10: a flow's CPU budget bounds how long a worker stays with it. Every slice charges what it ran, so once the drive
  loop has made as many turns as the flow has instructions left it has given the flow up: finished, parked, queued or
  put on the timer. (The instruction counter must not wrap while the budget lasts.)\<close>

theorem drive_process_returns:
  assumes "fl_quota fl < sh_next_obj sh" and "executed fl + cpu_left fl sh < 2 ^ 64" and "cpu_left fl sh < n"
  shows "\<exists>sh'. drive_process n rng dbg w fl sh = Some sh'"
proof -
  obtain fl1 sh1 where p: "take_pending fl sh = (fl1, sh1)" by fastforce
  obtain r sh2 where k: "on_kills (kill_take (fl_id fl1)) sh1 = (r, sh2)" by fastforce
  have same: "sh_quota_objs sh2 = sh_quota_objs sh1" "sh_next_obj sh2 = sh_next_obj sh1"
    using k by (auto simp: on_kills_def split: prod.splits)
  note keep = take_pending_keeps [OF p assms(1)]
  then have "executed fl1 = executed fl" by (simp add: same_flow_def)
  then have "\<exists>sh'. drive_loop n rng dbg w fl1 sh2 = Some sh'"
    using keep assms(2, 3) by (intro drive_loop_ends) (simp_all add: same)
  then show ?thesis using p k by (auto simp: drive_process_def split: sum.split option.split)
qed

theorem drive_process_returns_witness:
  "\<exists>sh'. drive_process 1000000001 (\<lambda>g. (None, g)) (\<lambda>_. []) 0 (idle_flow 7)
     ((shared_new 1 10 config_default 0 quota_default () (\<lambda>_. 0))\<lparr>sh_next_obj := 1\<rparr>) = Some sh'"
  by (rule drive_process_returns)
    (simp_all add: idle_flow_def flow_new_def shared_new_def quota_from_config_def quota_default_def
      quota_new_def quota_permissive_def)

end
