(* ===== verification/BF_Hop_Safety.thy ===== *)
theory BF_Hop_Safety
  imports BF_Drive_Safety
begin

text \<open>
  What the scheduler guarantees about a hop it delivers and about a flow it spawns: the sender and the reply capability of a
  hop are the scheduler's, a carried capability arrives as a new one the recipient holds and no stronger than the sender's,
  and a child's authority is confined to its parent's and to what was asked for.
\<close>

section \<open>Reissued capabilities\<close>

definition ct_extends :: "'g cap_table \<Rightarrow> 'g cap_table \<Rightarrow> bool" where
  "ct_extends t t' \<longleftrightarrow> (\<forall>c e. ct_get t c = Some e \<longrightarrow> ct_get t' c = Some e)"

lemma ct_extends_refl [simp]: "ct_extends t t"
  by (simp add: ct_extends_def)

lemma insert_extends:
  assumes "ct_insert rng h c t = (r, t')"
  shows "ct_extends t t' \<and> (\<forall>cid. r = Inr cid \<longrightarrow> cid \<noteq> CAP_NONE \<and> ct_get t' cid = Some \<lparr>cy_holder = h, cy_cap = c\<rparr>)"
proof (cases "ct_poisoned t")
  case False
  then have i: "insert_fresh rng \<lparr>cy_holder = h, cy_cap = c\<rparr> t = (r, t')" using assms by (simp add: ct_insert_def)
  show ?thesis
  proof (cases r)
    case (Inl e)
    then show ?thesis using insert_fresh_spec(2) [OF i] by (auto simp: ct_extends_def)
  next
    case (Inr cid)
    then show ?thesis using insert_fresh_spec(1) [OF i] by (auto simp: ct_extends_def)
  qed
qed (use assms in \<open>auto simp: ct_insert_def\<close>)

lemma reuse_extends:
  assumes "mint_or_reuse rng h tg rights t = (r, t')"
  shows "ct_extends t t'"
proof (cases "ct_poisoned t \<or> (\<exists>cid. ct_reply_index t (h, tg) = Some cid \<and> reply_cap_is_live t cid h tg rights)")
  case True
  then have "t' = t" using assms by (auto simp: mint_or_reuse_def split: if_splits)
  then show ?thesis by simp
next
  case False
  let ?t0 = "t\<lparr>ct_reply_index := (ct_reply_index t)((h, tg) := None)\<rparr>"
  obtain c t1 where g: "get_or_create_cell tg ?t0 = (c, t1)" by fastforce
  let ?e = "\<lparr>cy_holder = h, cy_cap = cap_root (TFlow tg) rights None (ct_cells t1 c)\<rparr>"
  obtain r2 t2 where i: "insert_fresh rng ?e t1 = (r2, t2)" by fastforce
  have "ct_get t1 = ct_get t" using get_or_create_cell_spec(2) [OF g] by (intro ct_get_cong) simp
  moreover have "(r, t') = (case r2 of Inl e \<Rightarrow> (Inl e, t2)
      | Inr cid \<Rightarrow> (Inr cid, t2\<lparr>ct_reply_index := (ct_reply_index t2)((h, tg) \<mapsto> cid)\<rparr>))"
    using assms False g i by (auto simp: mint_or_reuse_def Let_def split: option.splits sum.splits)
  then have "ct_get t' = ct_get t2" by (auto split: sum.splits)
  ultimately show ?thesis
    using insert_fresh_spec [OF i] by (cases r2) (auto simp: ct_extends_def)
qed

lemma attenuate_in_spec:
  assumes "cap_attenuate_in rng cid h h' rights nm t = (Inr c, t')"
  shows "\<exists>src e. resolve cid h NONE t = Inr src \<and> c \<noteq> CAP_NONE \<and> ct_get t' c = Some e \<and> cy_holder e = h' \<and>
    cap_le (cy_cap e) (cy_cap src)"
proof -
  obtain src fid cell nw where res: "resolve cid h NONE t = Inr src"
    and ex: "exec_delegate (cy_cap src) (ct_cells t cell) rights nm = Inr nw"
    and ins: "(Inr c, t') = from_runtime (ct_insert rng h' nw t)"
    using assms
    by (auto simp: cap_attenuate_in_def split: sum.splits cap_target.splits option.splits delegate_error.splits if_splits)
  have "ct_insert rng h' nw t = (Inr c, t')" using ins by (auto simp: from_runtime_def split: prod.splits sum.splits)
  from insert_extends [OF this] exec_delegate_le [OF ex] res show ?thesis by auto
qed

lemma delegate_spec:
  "cap_delegate_in rng cid h h' t = (Inr c, t') \<Longrightarrow>
   \<exists>src e. resolve cid h NONE t = Inr src \<and> c \<noteq> CAP_NONE \<and> ct_get t' c = Some e \<and> cy_holder e = h' \<and> cap_le (cy_cap e) (cy_cap src)"
  by (auto simp: cap_delegate_in_def dest: attenuate_in_spec split: sum.splits)

text \<open>The capability a value carries at the end of its chain of nested messages.\<close>

fun carried_cap :: "value \<Rightarrow> cap_id option" where
  "carried_cap (VCap c) = (if c = CAP_NONE then None else Some c)"
| "carried_cap (VMessage (Msg s rc rid tg v)) = carried_cap v"
| "carried_cap other = None"

lemma reissue_in_value_spec:
  "reissue_caps_in_value rng s r v t = (Inr v', t') \<Longrightarrow>
   (case carried_cap v of
      None \<Rightarrow> carried_cap v' = None
    | Some c0 \<Rightarrow> \<exists>src c e. resolve c0 s NONE t = Inr src \<and> carried_cap v' = Some c \<and> ct_get t' c = Some e \<and>
        cy_holder e = r \<and> cap_le (cy_cap e) (cy_cap src))"
proof (induction v arbitrary: v' rule: carried_cap.induct)
  case (1 c)
  then show ?case
    by (fastforce simp: reissue_caps_in_value_def cap_id_is_none_def CAP_NONE_def and_then_def dest: delegate_spec
        split: if_splits prod.splits sum.splits)
next
  case (2 s0 rc rid tg v)
  then show ?case
    by (cases "carried_cap v") (auto simp: reissue_caps_in_value_def and_then_def split: prod.splits sum.splits)
qed (auto simp: reissue_caps_in_value_def)

section \<open>Authenticated hops\<close>

text \<open>C9: a hop the scheduler has authenticated cannot lie. Whatever the sending flow wrote into it, the sender field
  is the sending flow, the request id is set (to the given one where there was one), the tag is kept; the reply capability
  is live, held by the recipient, for the sender and with the right to send; and a carried capability arrives as one the
  recipient holds, no stronger than the capability the sender was holding when it sent it.\<close>

theorem hop_is_authenticated:
  assumes "table_ok (sh_caps sh)"
    and "authenticate_outgoing_message rng sender recipient msg (fl, sh) = (Inr m, fl', sh')"
  shows "m_sender m = sender \<and> m_tag m = m_tag msg \<and> m_request_id m \<noteq> 0 \<and>
    (m_request_id msg \<noteq> 0 \<longrightarrow> m_request_id m = m_request_id msg) \<and>
    reply_cap_is_live (sh_caps sh') (m_reply_cap m) recipient sender SEND \<and>
    (\<forall>c. carried_cap (m_payload m) = Some c \<longrightarrow>
       (\<exists>c0 src e. carried_cap (m_payload msg) = Some c0 \<and> resolve c0 sender NONE (sh_caps sh) = Inr src \<and>
          ct_get (sh_caps sh') c = Some e \<and> cy_holder e = recipient \<and> cap_le (cy_cap e) (cy_cap src)))"
proof -
  obtain msg1 where msg1: "m_request_id msg1 \<noteq> 0" "m_request_id msg \<noteq> 0 \<longrightarrow> m_request_id msg1 = m_request_id msg"
    "m_tag msg1 = m_tag msg" "m_payload msg1 = m_payload msg"
    and auth: "and_then (reissue_caps_in_value rng sender recipient (m_payload msg1) (sh_caps sh)) (\<lambda>payload t.
        and_then (from_runtime (mint_or_reuse rng recipient sender SEND t)) (\<lambda>reply t.
          (Inr (authenticate (with_payload msg1 payload) sender reply), t))) = (Inr m, sh_caps sh')"
  proof (cases "m_request_id msg = 0")
    case True
    obtain rid m1 where f: "fresh_request_id (fl_vm fl) = (rid, m1)" by fastforce
    then have "rid \<noteq> 0" by (auto simp: fresh_request_id_eq Let_def split: if_splits)
    with True f assms(2) show ?thesis
      by (intro that [of "set_request_id msg rid"])
        (auto simp: authenticate_outgoing_message_def set_request_id_def on_caps_def split: prod.splits)
  next
    case False
    with assms(2) show ?thesis
      by (intro that [of msg]) (auto simp: authenticate_outgoing_message_def on_caps_def split: prod.splits)
  qed
  obtain payload t1 where p: "reissue_caps_in_value rng sender recipient (m_payload msg) (sh_caps sh) = (Inr payload, t1)"
    using auth msg1(4) by (auto simp: and_then_def split: prod.splits sum.splits)
  obtain reply where r: "mint_or_reuse rng recipient sender SEND t1 = (Inr reply, sh_caps sh')"
    and m: "m = authenticate (with_payload msg1 payload) sender reply"
    using auth p msg1(4) by (auto simp: and_then_def from_runtime_def split: prod.splits sum.splits)
  have "(caps_step rng)\<^sup>*\<^sup>* (sh_caps sh) (snd (reissue_caps_in_value rng sender recipient (m_payload msg) (sh_caps sh)))"
    unfolding reissue_caps_in_value_def by (rule reissue_chain) (blast intro: caps_step_derived)
  then have "(caps_step rng)\<^sup>*\<^sup>* (sh_caps sh) t1" using p by simp
  then have "table_ok t1" using assms(1) by (induction rule: rtranclp_induct) (auto dest: caps_step_ok)
  from mint_or_reuse_live [OF this r] have live: "reply_cap_is_live (sh_caps sh') reply recipient sender SEND" by simp
  have ext: "ct_extends t1 (sh_caps sh')" by (rule reuse_extends [OF r])
  have fields: "m_sender m = sender" "m_tag m = m_tag msg" "m_request_id m = m_request_id msg1" "m_reply_cap m = reply"
    "m_payload m = payload"
    using msg1(3) unfolding m by (cases msg1; simp)+
  have "\<exists>c0 src e. carried_cap (m_payload msg) = Some c0 \<and> resolve c0 sender NONE (sh_caps sh) = Inr src \<and>
      ct_get (sh_caps sh') c = Some e \<and> cy_holder e = recipient \<and> cap_le (cy_cap e) (cy_cap src)"
    if "carried_cap payload = Some c" for c
    using reissue_in_value_spec [OF p] that ext unfolding ct_extends_def by (fastforce split: option.splits)
  with live msg1 show ?thesis by (simp add: fields)
qed

text \<open>Flow 1 sends flow 2 the capability on flow 2 it holds, in a hop that claims to come from flow 9.\<close>

definition demo_hop :: message where
  "demo_hop = Msg 9 77 0 5 (VCap 1)"

definition demo_table :: "nat shared" where
  "demo_table = (shared_new 1 10 config_default 0 quota_default 0 (\<lambda>_. 0))\<lparr>sh_caps := one_cap_table\<rparr>"

definition delegated_table :: "nat cap_table" where
  "delegated_table = one_cap_table\<lparr>ct_rng := 2, ct_entries :=
     (2, \<lparr>cy_holder = 2, cy_cap = \<lparr>c_target = TFlow 2, c_rights = SEND_ASK, c_native_mask = None, c_epoch = 0\<rparr>\<rparr>) # ct_entries one_cap_table\<rparr>"

lemma demo_delegate: "cap_delegate_in counting_rng 1 1 2 one_cap_table = (Inr 2, delegated_table)"
  by (simp add: cap_delegate_in_def resolve_def cap_attenuate_in_def entry_valid_def cap_is_valid_def exec_delegate_def
        cap_attenuate_def contains_def rights_defs rights_intersect_def table_eval delegated_table_def from_runtime_def)

lemma demo_reply: "fst (mint_or_reuse counting_rng 2 1 SEND delegated_table) = Inr 3"
  by (simp add: mint_or_reuse_def delegated_table_def table_eval Let_def)

lemma demo_hop_sent: "fst (authenticate_outgoing_message counting_rng 1 2 demo_hop (idle_flow 1, demo_table)) = Inr (Msg 1 3 1 5 (VCap 2))"
proof -
  obtain t where "mint_or_reuse counting_rng 2 1 SEND delegated_table = (Inr 3, t)" using demo_reply by (metis prod.collapse)
  then show ?thesis
    by (simp add: authenticate_outgoing_message_def demo_hop_def idle_flow_def flow_new_def fresh_request_id_eq Let_def
      set_request_id_def on_caps_def demo_table_def reissue_caps_in_value_def and_then_def cap_id_is_none_def demo_delegate from_runtime_def)
qed

theorem hop_is_authenticated_witness:
  "\<exists>m fl' sh' e. authenticate_outgoing_message counting_rng 1 2 demo_hop (idle_flow 1, demo_table) = (Inr m, fl', sh') \<and>
     m_sender m = 1 \<and> reply_cap_is_live (sh_caps sh') (m_reply_cap m) 2 1 SEND \<and>
     ct_get (sh_caps sh') 2 = Some e \<and> cy_holder e = 2"
proof -
  obtain fl' sh' where auth: "authenticate_outgoing_message counting_rng 1 2 demo_hop (idle_flow 1, demo_table) =
      (Inr (Msg 1 3 1 5 (VCap 2)), fl', sh')"
    using demo_hop_sent by (metis prod.collapse)
  have "table_ok (sh_caps demo_table)" by (simp add: demo_table_def one_cap_table_ok)
  from hop_is_authenticated [OF this auth] auth show ?thesis by (auto simp: CAP_NONE_def)
qed

section \<open>Spawned flows\<close>

lemma and_then_Inr: "and_then r k = (Inr y, s') \<Longrightarrow> \<exists>x s. r = (Inr x, s) \<and> k x s = (Inr y, s')"
  by (auto simp: and_then_def split: prod.splits sum.splits)

lemma injector_frames [simp]:
  "sh_injector (snd (spawn_limit sh)) = sh_injector sh" "sh_injector (snd (on_caps f sh)) = sh_injector sh"
  "sh_injector (snd (on_quota q g sh)) = sh_injector sh" "sh_injector (snd (quotas_insert fid q sh)) = sh_injector sh"
  "sh_injector (snd (on_directory h sh)) = sh_injector sh" "sh_injector (report_fault e sh) = sh_injector sh"
  by (simp_all add: spawn_limit_def Let_def on_caps_def on_quota_def quotas_insert_def on_directory_def report_fault_def case_prod_beta)

lemma injector_spawn [simp]:
  "sh_injector (snd (spawn_authority natives fid cell ctx sh)) = sh_injector sh"
  "sh_injector (snd (spawn_register fid obj sh)) = sh_injector sh"
  "sh_injector (snd (spawn_vm ch natives authority cell fn args sh)) = sh_injector sh"
  by (simp_all add: spawn_authority_def spawn_register_def spawn_vm_def Let_def instant_now_def fresh_obj_def case_prod_beta
      snd_and_then split: option.split sum.split)

lemma injector_args [simp]: "sh_injector (snd (grant_caps_in_args rng parent child args sh)) = sh_injector sh"
proof (induction args arbitrary: sh)
  case (Cons arg args)
  let ?one = "case arg of
      VCap cid \<Rightarrow> err_as (\<lambda>_. SpawnInvalidCapability)
          (on_caps (\<lambda>t. case (case parent of None \<Rightarrow> reissue_for rng cid child t | Some p \<Rightarrow> cap_delegate_in rng cid p child t) of
              (Inr c, t) \<Rightarrow> (Inr (VCap c), t) | (Inl e, t) \<Rightarrow> (Inl e, t)) sh)
    | other \<Rightarrow> (Inr other, sh)"
  have "sh_injector (snd ?one) = sh_injector sh" by (simp split: val_splits)
  then show ?case using Cons.IH by (simp add: snd_and_then split: sum.split)
qed simp

text \<open>What a successful spawn queues.\<close>

lemma spawn_on_queues:
  assumes "spawn_on rng ch natives fn args policy spv parent ctx sh = (Inr (fid, obj), sh')"
  shows "\<exists>fl cell sh1 sh2. sh_injector sh' = sh_injector sh @ [fl] \<and> fl_id fl = fid \<and> fl_cell fl = cell \<and>
    fl_supervisor fl = spv \<and> spawn_authority natives fid cell ctx sh1 = (Inr (fl_authority fl), sh2) \<and>
    sh_caps sh1 = snd (bind_flow fid (sh_caps sh))"
proof -
  obtain sh0 where lim: "spawn_limit sh = (Inr (), sh0)"
    using assms by (auto simp: spawn_on_def dest!: and_then_Inr)
  have caps0: "sh_caps sh0 = sh_caps sh" and next0: "sh_next_flow sh0 = sh_next_flow sh"
    using arg_cong [OF lim, of "sh_caps \<circ> snd"] arg_cong [OF lim, of "sh_next_flow \<circ> snd"]
    by (simp_all add: spawn_limit_def Let_def report_fault_def split: if_splits)
  obtain cell sh1 authority sh2 args3 sh3 m sh4 sh5 where
    bind: "err_as (\<lambda>_. SpawnUnavailable) (on_caps (bind_flow (sh_next_flow sh0)) (sh0\<lparr>sh_next_flow := sh_next_flow sh0 + 1\<rparr>)) = (Inr cell, sh1)"
    and auth: "spawn_authority natives (sh_next_flow sh0) cell ctx sh1 = (Inr authority, sh2)"
    and args: "grant_caps_in_args rng parent (sh_next_flow sh0) args sh2 = (Inr args3, sh3)"
    and vm: "spawn_vm ch natives authority cell fn args3 sh3 = (Inr (m, obj), sh4)"
    and reg: "spawn_register (sh_next_flow sh0) obj sh4 = (Inr (), sh5)"
    and fid: "fid = sh_next_flow sh0"
    and sh': "sh' = inject ((flow_new fid m obj policy obj cell obj)\<lparr>fl_authority := authority, fl_supervisor := spv\<rparr>)
      (upd_metrics (\<lambda>r. r\<lparr>rm_processes_spawned := rm_processes_spawned r + 1\<rparr>) sh5)"
    using assms lim by (auto simp: spawn_on_def next_flow_id_def Let_def dest!: and_then_Inr)
  have "sh_injector sh0 = sh_injector sh" using injector_frames(1) [of sh] lim by simp
  moreover have "sh_injector sh1 = sh_injector sh0"
    using arg_cong [OF bind, of "sh_injector \<circ> snd"] by simp
  moreover have "sh_injector sh2 = sh_injector sh1" using injector_spawn(1) [of natives "sh_next_flow sh0" cell ctx sh1] auth by simp
  moreover have "sh_injector sh3 = sh_injector sh2" using injector_args [of rng parent "sh_next_flow sh0" args sh2] args by simp
  moreover have "sh_injector sh4 = sh_injector sh3" using injector_spawn(3) [of ch natives authority cell fn args3 sh3] vm by simp
  moreover have "sh_injector sh5 = sh_injector sh4" using injector_spawn(2) [of "sh_next_flow sh0" obj sh4] reg by simp
  moreover have "sh_caps sh1 = snd (bind_flow fid (sh_caps sh))"
    using arg_cong [OF bind, of "sh_caps \<circ> snd"] by (simp add: on_caps_def case_prod_beta fid caps0)
  ultimately show ?thesis
    using auth unfolding sh' fid by (auto simp: inject_def upd_metrics_def flow_new_def)
qed

text \<open>C11: a child is never more than its parent. When bytecode spawns, the parent's own authority must be live and carry
  the right to spawn; the flow that is queued is named by the handle, and its authority, on itself, has exactly the rights
  that both the parent has and the instruction asked for, with the parent's natives.\<close>

theorem child_authority_is_confined:
  assumes "spawn_on rng ch natives fn args policy spv parent (Some ctx) sh = (Inr (fid, obj), sh')"
    and "bs_cell ctx < ct_next_cell (sh_caps sh)"
  shows "\<exists>fl. sh_injector sh' = sh_injector sh @ [fl] \<and> fl_id fl = fid \<and> c_target (fl_authority fl) = TFlow fid \<and>
    c_rights (fl_authority fl) = rights_intersect (c_rights (bs_authority ctx)) (bs_requested_rights ctx) \<and>
    c_native_mask (fl_authority fl) = c_native_mask (bs_authority ctx) \<and>
    contains (c_rights (bs_authority ctx)) SPAWN \<and> cap_is_valid (bs_authority ctx) (ct_cells (sh_caps sh) (bs_cell ctx))"
proof -
  obtain fl cell sh1 sh2 where fl: "sh_injector sh' = sh_injector sh @ [fl]" "fl_id fl = fid"
    and auth: "spawn_authority natives fid cell (Some ctx) sh1 = (Inr (fl_authority fl), sh2)"
    and caps: "sh_caps sh1 = snd (bind_flow fid (sh_caps sh))"
    using spawn_on_queues [OF assms(1)] by blast
  obtain q now now' cells where cells: "cells = ct_cells (sh_caps sh1)"
    and ex: "fst (exec_spawn_authority (bs_authority ctx) (cells (bs_cell ctx)) q fid (bs_requested_rights ctx) None (cells cell) now now') =
      Inr (fl_authority fl)"
    using auth by (auto simp: spawn_authority_def Let_def instant_now_def err_as_def on_quota_def split: prod.splits sum.splits) (metis fst_conv)
  have "cells (bs_cell ctx) = ct_cells (sh_caps sh) (bs_cell ctx)"
    using assms(2) by (simp add: cells caps bind_flow_def get_or_create_cell_def split: option.split)
  moreover have "fl_authority fl = cap_root (TFlow fid) (rights_intersect (c_rights (bs_authority ctx)) (bs_requested_rights ctx))
      (c_native_mask (bs_authority ctx)) (cells cell)"
    "contains (c_rights (bs_authority ctx)) SPAWN" "cap_is_valid (bs_authority ctx) (cells (bs_cell ctx))"
    using ex by (auto simp: exec_spawn_authority_def cap_attenuate_def Let_def split: if_splits prod.splits sum.splits option.splits)
  ultimately show ?thesis using fl by (auto simp: cap_root_def)
qed

text \<open>A parent that may do everything asks for a child that may only send.\<close>

definition root_context :: bytecode_spawn where
  "root_context = \<lparr>bs_authority = cap_root (TFlow 1) ROOT None 0, bs_cell = 0, bs_quota = 0, bs_requested_rights = SEND\<rparr>"

definition one_instruction :: chunk where
  "one_instruction = \<lparr>ch_name = [], ch_constants = [], ch_code = [instr_nullary Halt],
     ch_functions = [\<lparr>f_name = [], f_entry = 0, f_arity = 0, f_num_registers = 1\<rparr>]\<rparr>"

lemma root_context_charge:
  "check_spawn (quota_from_config quota_default 0) 0 0 =
     (Inr (), (quota_from_config quota_default 0)\<lparr>fq_spawn_bucket := bucket_new 10000 10000 0\<lparr>tb_tokens := 9999\<rparr>\<rparr>)"
  by (simp add: check_spawn_def quota_from_config_def quota_new_def bucket_new_def quota_default_def quota_permissive_def try_consume_def
      bucket_refill_def Let_def)

lemma root_context_spawns:
  "fst (spawn_on counting_rng one_instruction [] 0 [] Never None (Some 1) (Some root_context) demo_table) = Inr (1, 0)"
proof -
  have auth: "exec_spawn_authority (cap_root (TFlow 1) ROOT None 0) 0 (quota_from_config quota_default 0) 1 SEND None cc 0 0 =
     (Inr (cap_root (TFlow 1) (rights_intersect ROOT SEND) None cc), snd (check_spawn (quota_from_config quota_default 0) 0 0))" for cc
    by (simp add: exec_spawn_authority_def root_context_charge)
      (simp add: cap_root_def cap_attenuate_def cap_is_valid_def contains_def rights_defs)
  show ?thesis
    by (simp add: spawn_on_def spawn_limit_def demo_table_def shared_new_def and_then_def next_flow_id_def err_as_def
        on_caps_def bind_flow_def get_or_create_cell_def one_cap_table_def spawn_authority_def Let_def instant_now_def on_quota_def
        root_context_def cell_new_def auth,
      simp add: spawn_vm_def fresh_obj_def instant_now_def Let_def on_quota_def vm_with_native_gate_def bind_res_def
        one_instruction_def chunk_function_def ok_or_def err_as_def set_quota_def frame_new_def and_then_def charge_heap_value_def,
      simp add: spawn_register_def Let_def on_directory_def directory_register_def directory_new_def shard_for_def SHARDS_def
        locked_def mutex_new_def quotas_insert_def)
qed

theorem child_authority_is_confined_witness:
  "\<exists>fl. sh_injector (snd (spawn_on counting_rng one_instruction [] 0 [] Never None (Some 1) (Some root_context) demo_table)) = [fl] \<and>
     fl_id fl = 1 \<and> c_rights (fl_authority fl) = SEND"
proof -
  obtain sh' where run: "spawn_on counting_rng one_instruction [] 0 [] Never None (Some 1) (Some root_context) demo_table = (Inr (1, 0), sh')"
    using root_context_spawns by (metis prod.collapse)
  have "bs_cell root_context < ct_next_cell (sh_caps demo_table)" by (simp add: root_context_def demo_table_def one_cap_table_def)
  from child_authority_is_confined [OF run this] run show ?thesis
    by (auto simp: demo_table_def shared_new_def root_context_def cap_root_def rights_intersect_def rights_defs)
qed

end
