(* ===== verification/BF_Authority.thy ===== *)
theory BF_Authority
  imports BF_Drive_Safety
begin

text \<open>
  Invariants of the capability table over whole worker and timer turns (\<open>table_invariant\<close>), and the one the scheduler's
  design rests on: a right that is not for addressing is never introduced by running flows.
\<close>

section \<open>No privilege out of nothing\<close>

locale table_invariant = runtime_invariant +
  assumes K_any_quota: "K sh \<Longrightarrow> K (sh\<lparr>sh_quota_objs := (sh_quota_objs sh)(q := x)\<rparr>)"
begin

lemma K_on_any_quota [simp]: "K sh \<Longrightarrow> K (snd (on_quota q f sh))"
  by (simp add: on_quota_def case_prod_beta K_any_quota)

lemma K_drive_turn: "K sh \<Longrightarrow> K (snd (drive_turn rng dbg w fl sh))"
proof -
  assume K: "K sh"
  have "K (snd (or_fail quota_error_string fl1 (on_quota q (\<lambda>q. charge_cpu q d) sh1) (\<lambda>_ sh. drive_effect rng dbg w res fl2 sh)))"
    if "K sh1" for fl1 q d sh1 res fl2
    using that by (intro K_or_fail K_drive_effect) simp_all
  then show ?thesis
    using K K_vm_run [OF K] by (simp add: drive_turn_def Let_def case_prod_beta)
qed

lemma K_drive_loop: "K sh \<Longrightarrow> drive_loop n rng dbg w fl sh = Some sh' \<Longrightarrow> K sh'"
proof (induction n arbitrary: fl sh)
  case (Suc n)
  then show ?case using K_drive_turn [OF Suc.prems(1), of dbg w fl] by (auto split: prod.splits option.splits)
qed simp

lemma K_take_pending: "K sh \<Longrightarrow> K (snd (take_pending fl sh))"
  by (simp add: take_pending_def split: option.split)

lemma K_drive_process: "K sh \<Longrightarrow> drive_process n rng dbg w fl sh = Some sh' \<Longrightarrow> K sh'"
proof -
  assume K: "K sh" and run: "drive_process n rng dbg w fl sh = Some sh'"
  obtain fl1 sh1 where p: "take_pending fl sh = (fl1, sh1)" by fastforce
  have "K sh1" using K_take_pending [OF K, of fl] p by simp
  moreover obtain r sh2 where k: "on_kills (kill_take (fl_id fl1)) sh1 = (r, sh2)" by fastforce
  ultimately have "K sh2" using K_same(13) [of "kill_take (fl_id fl1)" sh1] by simp
  then show ?thesis
    using run p k by (auto simp: drive_process_def K_finalize_flow dest: K_drive_loop split: sum.splits option.splits)
qed

lemma K_find_work: "K (snd (find_work w sh)) = K sh"
  by (rule K_eq) (auto simp: find_work_def view_def upd_metrics_def split: list.split option.split)

lemma K_worker_turn: "K sh \<Longrightarrow> worker_turn n rng dbg w sh = Some sh' \<Longrightarrow> K sh'"
  using K_find_work [of w sh] by (auto simp: worker_turn_def dest: K_drive_process split: if_splits prod.splits option.splits)

lemma K_timer_fire: "K sh \<Longrightarrow> K (timer_fire e sh)"
  by (simp add: timer_fire_def case_prod_beta split: timer_payload.split sum.split option.split)

lemma K_timer_turn: "K sh \<Longrightarrow> K (snd (timer_turn sh))"
proof -
  assume "K sh"
  then have "K (sh\<lparr>sh_reads := r, sh_timer := t\<rparr>)" "K (sh\<lparr>sh_reads := r\<rparr>)" for r t by (rule K_view, simp add: view_def)+
  then show ?thesis
    using \<open>K sh\<close> by (simp add: timer_turn_def instant_now_def K_timer_fire split: sum.split bool.split option.split prod.split)
qed

end

text \<open>What a step adds to the table is derived from an entry of it, or addresses a flow.\<close>

lemma insert_fresh_caps: "ct_caps (snd (insert_fresh rng e t)) \<subseteq> insert (cy_cap e) (ct_caps t)"
proof -
  obtain r t' where i: "insert_fresh rng e t = (r, t')" by fastforce
  show ?thesis using insert_fresh_spec [OF i] i by (cases r) (auto simp: ct_caps_def)
qed

lemma cell_caps [simp]: "ct_caps (snd (get_or_create_cell fid t)) = ct_caps t"
  by (simp add: get_or_create_cell_def ct_caps_def Let_def split: option.split)

lemma bind_caps [simp]: "ct_caps (snd (bind_flow fid t)) = ct_caps t"
  using cell_caps [of fid t] by (simp add: bind_flow_def case_prod_beta)

lemma grant_caps: "ct_caps (snd (grant rng h c t)) \<subseteq> insert c (ct_caps t)"
  using ct_insert_caps [of rng h c t] by (simp add: grant_def) (metis prod.collapse)

lemma mint_caps:
  assumes "c \<in> ct_caps (snd (mint rng h tg rights t))"
  shows "c \<in> ct_caps t \<or> c_rights c = rights"
proof -
  obtain r t1 where b: "bind_flow tg t = (r, t1)" by fastforce
  then have t1: "ct_caps t1 = ct_caps t" using bind_caps [of tg t] by simp
  show ?thesis
  proof (cases r)
    case (Inr cell)
    with assms b have "c \<in> ct_caps (snd (grant rng h (cap_root (TFlow tg) rights None (ct_cells t1 cell)) t1))"
      by (simp add: mint_def)
    from subsetD [OF grant_caps this] show ?thesis
      unfolding t1 insert_iff by (elim disjE) (simp_all add: cap_root_def)
  qed (use assms b t1 in \<open>simp add: mint_def\<close>)
qed

lemma reuse_caps:
  assumes "c \<in> ct_caps (snd (mint_or_reuse rng h tg rights t))"
  shows "c \<in> ct_caps t \<or> c_rights c = rights"
proof -
  have upd: "ct_caps (t\<lparr>ct_reply_index := x\<rparr>) = ct_caps t" for t :: "'a cap_table" and x by (simp add: ct_caps_def)
  have ins: "c \<in> ct_caps t \<or> c_rights c = rights"
    if i: "c \<in> ct_caps (snd (insert_fresh rng \<lparr>cy_holder = h, cy_cap = cap_root (TFlow tg) rights None e\<rparr> (snd (get_or_create_cell tg (t\<lparr>ct_reply_index := x\<rparr>)))))" for e x
    using subsetD [OF insert_fresh_caps i] by (auto simp: cap_root_def upd)
  show ?thesis
    using assms ins by (auto simp: mint_or_reuse_def Let_def case_prod_beta upd split: if_splits option.splits sum.splits)
qed

lemma caps_step_caps:
  assumes "caps_step rng t t'" "c \<in> ct_caps t'"
  shows "(\<exists>d\<in>ct_caps t. cap_le c d) \<or> c_rights c = ADDRESSING \<or> c_rights c = SEND"
  using assms
proof cases
  case (cs_derive)
  then show ?thesis using derive_step_caps assms(2) by blast
qed (use assms(2) cap_att.le_refl mint_caps reuse_caps in \<open>fastforce+\<close>)

definition no_privilege :: "cap_rights \<Rightarrow> 'g cap_table \<Rightarrow> bool" where
  "no_privilege p t \<longleftrightarrow> (\<forall>c\<in>ct_caps t. \<not> contains (c_rights c) p)"

text \<open>A right that is not for addressing.\<close>

definition privileged :: "cap_rights \<Rightarrow> bool" where
  "privileged p \<longleftrightarrow> \<not> contains ADDRESSING p \<and> \<not> contains SEND p"

lemma contains_mono: "is_subset_of a b \<Longrightarrow> contains a p \<Longrightarrow> contains b p"
  by (auto simp: is_subset_of_iff_subset contains_iff_subset)

lemma no_privilege_invariant:
  assumes "privileged p"
  shows "table_invariant (\<lambda>sh. no_privilege p (sh_caps sh)) rng"
proof unfold_locales
  show "no_privilege p (sh_caps (sh\<lparr>sh_caps := t\<rparr>))" if "no_privilege p (sh_caps sh)" "caps_step rng (sh_caps sh) t" for sh t
    unfolding no_privilege_def
  proof (intro ballI notI)
    fix c assume c: "c \<in> ct_caps (sh_caps (sh\<lparr>sh_caps := t\<rparr>))" and p: "contains (c_rights c) p"
    with caps_step_caps [OF that(2), of c] assms obtain d where "d \<in> ct_caps (sh_caps sh)" "cap_le c d"
      by (auto simp: privileged_def)
    with p that(1) show False by (auto simp: no_privilege_def cap_le_def dest: contains_mono)
  qed
qed (simp_all add: view_def)

lemma privileged_rights: "privileged ADMIN" "privileged NATIVE" "privileged SPAWN" "privileged RECV"
  by (simp_all add: privileged_def contains_def rights_defs)

interpretation admin: table_invariant "\<lambda>sh. no_privilege ADMIN (sh_caps sh)" rng for rng
  by (rule no_privilege_invariant [OF privileged_rights(1)])

interpretation native: table_invariant "\<lambda>sh. no_privilege NATIVE (sh_caps sh)" rng for rng
  by (rule no_privilege_invariant [OF privileged_rights(2)])

end
