(* ===== verification/BF_Runtime.thy ===== *)
theory BF_Runtime
  imports BF_Authority BF_Verify
begin

text \<open>
  The host's side of \<open>scheduler/runtime.rs\<close>: construction, spawning and sending from the embedder, introductions of
  capabilities, relations, names, kills and the administrative operations. A method of \<open>Runtime\<close> that only uses the shared
  state is a function on it. The operating system is a parameter: \<open>os k\<close> is the error of the \<open>k\<close>-th thread spawn, if any.
\<close>

section \<open>Construction\<close>

record runtime_config =
  rc_workers :: usize
  rc_quantum :: u32
  rc_mailbox :: mailbox_config
  rc_max_flows :: u32
  rc_trust :: trust_level
  rc_quota :: quota_config

definition DEFAULT_QUANTUM :: u32 where
  "DEFAULT_QUANTUM = 10000"

definition runtime_config_default :: "usize \<Rightarrow> runtime_config" where
  "runtime_config_default cpus =
     \<lparr>rc_workers = max cpus 1, rc_quantum = DEFAULT_QUANTUM, rc_mailbox = config_default, rc_max_flows = 0,
      rc_trust = Untrusted, rc_quota = quota_default\<rparr>"

record 'g runtime =
  rt_shared :: "'g shared"
  rt_chunk :: chunk
  rt_natives :: native_table
  rt_workers :: usize
  rt_trust :: trust_level

text \<open>The worker threads and then the timer thread; the first refusal ends the construction.\<close>

fun spawn_threads :: "(nat \<Rightarrow> string option) \<Rightarrow> nat \<Rightarrow> nat \<Rightarrow> spawn_error + unit" where
  "spawn_threads os k 0 = Inr ()"
| "spawn_threads os k (Suc n) =
     (case os k of Some msg \<Rightarrow> Inl (ThreadSpawnFailed msg) | None \<Rightarrow> spawn_threads os (Suc k) n)"

definition with_natives_and_config ::
  "(nat \<Rightarrow> string option) \<Rightarrow> 'g \<Rightarrow> (nat \<Rightarrow> nat) \<Rightarrow> chunk \<Rightarrow> native_table \<Rightarrow> runtime_config \<Rightarrow> spawn_error + 'g runtime" where
  "with_natives_and_config os g clock ch natives cfg =
     bind_res (map_error VerifyFailed (verify_with ch \<lparr>vc_trust = rc_trust cfg\<rparr>)) (\<lambda>_.
     let workers_n = max (rc_workers cfg) 1 in
     bind_res (spawn_threads os 0 (Suc workers_n)) (\<lambda>_.
       Inr \<lparr>rt_shared = shared_new workers_n (rc_quantum cfg) (rc_mailbox cfg) (rc_max_flows cfg) (rc_quota cfg) g clock,
            rt_chunk = ch, rt_natives = natives, rt_workers = workers_n, rt_trust = rc_trust cfg\<rparr>))"

definition with_config ::
  "(nat \<Rightarrow> string option) \<Rightarrow> 'g \<Rightarrow> (nat \<Rightarrow> nat) \<Rightarrow> chunk \<Rightarrow> runtime_config \<Rightarrow> spawn_error + 'g runtime" where
  "with_config os g clock ch cfg = with_natives_and_config os g clock ch native_table_empty cfg"

definition with_std_natives_and_config ::
  "(nat \<Rightarrow> string option) \<Rightarrow> 'g \<Rightarrow> (nat \<Rightarrow> nat) \<Rightarrow> string + nat \<Rightarrow> chunk \<Rightarrow> runtime_config \<Rightarrow> spawn_error + 'g runtime" where
  "with_std_natives_and_config os g clock wall ch cfg = with_natives_and_config os g clock ch (std_native_table wall) cfg"

definition runtime_spawn :: "'g getrandom \<Rightarrow> u32 \<Rightarrow> value list \<Rightarrow> 'g runtime \<Rightarrow> (spawn_error + flow_handle) \<times> 'g runtime" where
  "runtime_spawn rng function args rt =
     (case spawn_on rng (rt_chunk rt) (rt_natives rt) function args Never None None None (rt_shared rt) of
        (r, sh) \<Rightarrow> (r, rt\<lparr>rt_shared := sh\<rparr>))"

definition spawner_spawn_linked ::
  "'g getrandom \<Rightarrow> u32 \<Rightarrow> value list \<Rightarrow> restart_policy \<Rightarrow> nat \<Rightarrow> 'g runtime \<Rightarrow> (spawn_error + flow_handle) \<times> 'g runtime" where
  "spawner_spawn_linked rng function args policy spv rt =
     (case spawn_on rng (rt_chunk rt) (rt_natives rt) function args policy (Some spv) None None (rt_shared rt) of
        (r, sh) \<Rightarrow> (r, rt\<lparr>rt_shared := sh\<rparr>))"

definition function_named :: "bytes \<Rightarrow> 'g runtime \<Rightarrow> u32 option" where
  "function_named nm rt = map_option word_of_nat (position (\<lambda>f. f_name f = nm) (ch_functions (rt_chunk rt)))"

definition reload_chunk :: "chunk \<Rightarrow> 'g runtime \<Rightarrow> (spawn_error + unit) \<times> 'g runtime" where
  "reload_chunk ch rt =
     (case verify_with ch \<lparr>vc_trust = rt_trust rt\<rparr> of
        Inl e \<Rightarrow> (Inl (VerifyFailed e), rt)
      | Inr _ \<Rightarrow> (Inr (), rt\<lparr>rt_chunk := ch\<rparr>))"

definition request_shutdown :: "'g shared \<Rightarrow> 'g shared" where
  "request_shutdown sh = timer_shutdown (sh\<lparr>sh_shutdown := True\<rparr>)"

definition live_flows :: "'g shared \<Rightarrow> usize" where
  "live_flows sh = directory_len (sh_directory sh)"

section \<open>Sending from the host\<close>

datatype send_error =
    SendNoSuchFlow flow_id
  | NotAHop string
  | SendMailboxFull flow_id mailbox_full_reason
  | SendCapability

fun full_reason_string :: "mailbox_full_reason \<Rightarrow> string" where
  "full_reason_string MessageLimit = ''hop count limit''"
| "full_reason_string ByteLimit = ''byte budget''"

fun send_error_string :: "send_error \<Rightarrow> string" where
  "send_error_string (SendNoSuchFlow fid) = ''no live flow '' @ flow_id_string fid"
| "send_error_string (NotAHop got) = ''atomic hop requires Value::Message, got '' @ got"
| "send_error_string (SendMailboxFull fid reason) =
     ''mailbox full for '' @ flow_id_string fid @ '' ('' @ full_reason_string reason @ '')''"
| "send_error_string SendCapability = ''host send could not reissue a capability in the hop''"

definition host_deliver :: "flow_id \<Rightarrow> nat \<Rightarrow> value \<Rightarrow> 'g shared \<Rightarrow> (send_error + unit) \<times> 'g shared" where
  "host_deliver target mb hop sh =
     (case on_mailbox mb (\<lambda>m. mailbox_push m hop) sh of
        (Inr (Inr (Handoff fl)), sh) \<Rightarrow>
          (let sh = snd (on_asks (remove_asker (fl_id fl)) sh) in
           case (case fl_last_receive_dest fl of Some dest \<Rightarrow> resume dest hop (fl, sh) | None \<Rightarrow> (fl, sh)) of
             (fl, sh) \<Rightarrow> (Inr (), inject fl sh))
      | (Inr (Inr _), sh) \<Rightarrow> (Inr (), sh)
      | (Inr (Inl full), sh) \<Rightarrow> (Inl (SendMailboxFull target full), sh)
      | (Inl e, sh) \<Rightarrow> (Inl (SendNoSuchFlow target), report_fault e sh))"

definition runtime_send :: "'g getrandom \<Rightarrow> flow_id \<Rightarrow> value \<Rightarrow> 'g shared \<Rightarrow> (send_error + unit) \<times> 'g shared" where
  "runtime_send rng target hop sh =
     (case as_message hop of
        None \<Rightarrow> (Inl (NotAHop (type_name hop)), sh)
      | Some msg \<Rightarrow>
          (case directory_lookup target (sh_directory sh) of
             Inl e \<Rightarrow> (Inl (SendNoSuchFlow target), report_fault e sh)
           | Inr None \<Rightarrow> (Inl (SendNoSuchFlow target), sh)
           | Inr (Some mb) \<Rightarrow>
               and_then (err_as (\<lambda>_. SendCapability) (authenticate_host_outgoing_message rng target msg sh)) (\<lambda>m sh.
                 host_deliver target mb (VMessage m) sh)))"

section \<open>Lifecycle operations\<close>

text \<open>\<open>unavailable\<close>: a poisoned table is reported and becomes one error.\<close>

definition available :: "(runtime_error + 'a) \<times> 'g shared \<Rightarrow> (lifecycle_error + 'a) \<times> 'g shared" where
  "available r = (case r of (Inl e, sh) \<Rightarrow> (Inl Unavailable, report_fault e sh) | (Inr x, sh) \<Rightarrow> (Inr x, sh))"

definition available_inner :: "(runtime_error + (lifecycle_error + 'a)) \<times> 'g shared \<Rightarrow> (lifecycle_error + 'a) \<times> 'g shared" where
  "available_inner r = and_then (available r) (\<lambda>inner sh. (inner, sh))"

definition require_live :: "flow_id \<Rightarrow> 'g shared \<Rightarrow> (lifecycle_error + unit) \<times> 'g shared" where
  "require_live fid sh =
     and_then (available (directory_lookup fid (sh_directory sh), sh)) (\<lambda>found sh.
       (case found of Some _ \<Rightarrow> Inr () | None \<Rightarrow> Inl (NoSuchFlow fid), sh))"

definition mint_cap :: "'g getrandom \<Rightarrow> flow_id \<Rightarrow> 'g shared \<Rightarrow> (lifecycle_error + cap_id) \<times> 'g shared" where
  "mint_cap rng fid sh =
     and_then (require_live fid sh) (\<lambda>_ sh. available (on_caps (mint rng fid fid ADDRESSING) sh))"

definition grant_cap :: "'g getrandom \<Rightarrow> flow_id \<Rightarrow> flow_id \<Rightarrow> 'g shared \<Rightarrow> (lifecycle_error + cap_id) \<times> 'g shared" where
  "grant_cap rng holder target sh =
     and_then (require_live holder sh) (\<lambda>_ sh.
     and_then (require_live target sh) (\<lambda>_ sh.
       available (on_caps (mint rng holder target ADDRESSING) sh)))"

definition host_monitor :: "flow_id \<Rightarrow> flow_id \<Rightarrow> 'g shared \<Rightarrow> (lifecycle_error + monitor_ref) \<times> 'g shared" where
  "host_monitor owner target sh =
     (if owner = target then (Inl SelfRelation, sh)
      else
        and_then (require_live owner sh) (\<lambda>_ sh.
        and_then (require_live target sh) (\<lambda>_ sh.
        and_then (available (on_monitors (monitors_create owner target) sh)) (\<lambda>mon sh.
          case require_live target sh of
            (Inr _, sh) \<Rightarrow> (Inr mon, sh)
          | (Inl _, sh) \<Rightarrow>
              (Inr mon,
               deliver_down \<lparr>de_monitor = mon, de_owner = owner, de_target = target, de_reason = RFault\<rparr>
                 (snd (on_monitors (monitors_remove_owned owner mon) sh)))))))"

definition host_demonitor :: "flow_id \<Rightarrow> monitor_ref \<Rightarrow> 'g shared \<Rightarrow> (lifecycle_error + unit) \<times> 'g shared" where
  "host_demonitor owner mon sh =
     and_then (require_live owner sh) (\<lambda>_ sh. available_inner (on_monitors (monitors_remove_owned owner mon) sh))"

definition host_link :: "flow_id \<Rightarrow> flow_id \<Rightarrow> 'g shared \<Rightarrow> (lifecycle_error + link_id) \<times> 'g shared" where
  "host_link a b sh =
     (if a = b then (Inl SelfRelation, sh)
      else
        and_then (require_live a sh) (\<lambda>_ sh.
        and_then (require_live b sh) (\<lambda>_ sh. available_inner (on_links (links_link a b) sh))))"

definition host_unlink :: "flow_id \<Rightarrow> link_id \<Rightarrow> 'g shared \<Rightarrow> (lifecycle_error + unit) \<times> 'g shared" where
  "host_unlink owner lid sh =
     and_then (require_live owner sh) (\<lambda>_ sh. available_inner (on_links (links_unlink_owned owner lid) sh))"

definition host_register_name :: "bytes \<Rightarrow> cap_id \<Rightarrow> 'g shared \<Rightarrow> (lifecycle_error + unit) \<times> 'g shared" where
  "host_register_name nm cid sh =
     and_then (available (ct_lookup cid (sh_caps sh), sh)) (\<lambda>found sh.
       case bind_res (ok_or found InvalidCapability) (\<lambda>e. ok_or (capability_target e) InvalidCapability) of
         Inl e \<Rightarrow> (Inl e, sh)
       | Inr target \<Rightarrow>
           and_then (require_live target sh) (\<lambda>_ sh. available_inner (on_registry (registry_register nm cid target) sh)))"

definition host_whereis :: "bytes \<Rightarrow> 'g shared \<Rightarrow> (lifecycle_error + cap_id option) \<times> 'g shared" where
  "host_whereis nm sh = available (registry_whereis nm (sh_registry sh), sh)"

definition host_unregister_name :: "bytes \<Rightarrow> 'g shared \<Rightarrow> (lifecycle_error + bool) \<times> 'g shared" where
  "host_unregister_name nm sh = available (on_registry (registry_unregister nm) sh)"

definition host_kill :: "flow_id \<Rightarrow> 'g shared \<Rightarrow> (lifecycle_error + unit) \<times> 'g shared" where
  "host_kill fid sh = and_then (require_live fid sh) (\<lambda>_ sh. (Inr (), request_kill fid RKilled sh))"

section \<open>Administration\<close>

definition mint_admin_cap :: "'g getrandom \<Rightarrow> flow_id \<Rightarrow> 'g shared \<Rightarrow> (lifecycle_error + cap_id) \<times> 'g shared" where
  "mint_admin_cap rng holder sh =
     and_then (require_live holder sh) (\<lambda>_ sh.
       let t = sh_caps sh; c = cap_root TScheduler ADMIN None (ct_cells t (ct_scheduler_cell t)) in
       available (on_caps (grant rng holder c) sh))"

definition require_admin :: "flow_id \<Rightarrow> cap_id \<Rightarrow> 'g shared \<Rightarrow> lifecycle_error + unit" where
  "require_admin holder cid sh =
     bind_res (map_error (\<lambda>_. InvalidCapability) (resolve cid holder ADMIN (sh_caps sh))) (\<lambda>entry.
       map_error (\<lambda>_. InvalidCapability)
         (check_admin (cy_cap entry) (ct_cells (sh_caps sh) (ct_scheduler_cell (sh_caps sh)))))"

definition admin_kill :: "flow_id \<Rightarrow> cap_id \<Rightarrow> flow_id \<Rightarrow> 'g shared \<Rightarrow> (lifecycle_error + unit) \<times> 'g shared" where
  "admin_kill holder cid target sh =
     and_then (require_admin holder cid sh, sh) (\<lambda>_ sh. host_kill target sh)"

definition admin_top_up :: "(flow_quota \<Rightarrow> flow_quota) \<Rightarrow> flow_id \<Rightarrow> cap_id \<Rightarrow> flow_id \<Rightarrow> 'g shared \<Rightarrow> (lifecycle_error + unit) \<times> 'g shared" where
  "admin_top_up f holder cid target sh =
     and_then (require_admin holder cid sh, sh) (\<lambda>_ sh.
     and_then (available (quotas_get target sh, sh)) (\<lambda>found sh.
       case found of
         None \<Rightarrow> (Inl (NoSuchFlow target), sh)
       | Some q \<Rightarrow> (Inr (), snd (on_quota q (\<lambda>x. ((), f x)) sh))))"

definition admin_top_up_cpu :: "flow_id \<Rightarrow> cap_id \<Rightarrow> flow_id \<Rightarrow> i64 \<Rightarrow> 'g shared \<Rightarrow> (lifecycle_error + unit) \<times> 'g shared" where
  "admin_top_up_cpu holder cid target extra sh = admin_top_up (\<lambda>q. top_up_cpu q extra) holder cid target sh"

definition admin_top_up_mem :: "flow_id \<Rightarrow> cap_id \<Rightarrow> flow_id \<Rightarrow> usize \<Rightarrow> 'g shared \<Rightarrow> (lifecycle_error + unit) \<times> 'g shared" where
  "admin_top_up_mem holder cid target extra sh = admin_top_up (\<lambda>q. top_up_mem q extra) holder cid target sh"

definition admin_top_up_send :: "flow_id \<Rightarrow> cap_id \<Rightarrow> flow_id \<Rightarrow> i64 \<Rightarrow> 'g shared \<Rightarrow> (lifecycle_error + unit) \<times> 'g shared" where
  "admin_top_up_send holder cid target extra sh = admin_top_up (\<lambda>q. top_up_send q extra) holder cid target sh"

end
