(* ===== verification/BF_Supervisor.thy ===== *)
theory BF_Supervisor
  imports BF_Runtime
begin

text \<open>
  \<open>scheduler/supervisor.rs\<close>: the table of supervised children, restart strategies and restart intensity. A supervisor's
  inbox of exits is \<open>sh_sup_events\<close> at its identity; everything else it keeps is the record \<open>supervisor\<close>. An operation acts
  on a supervisor and the runtime's shared state. The table's lock is held across \<open>spawn_child\<close>, so an exit of the new
  child is handled only after its row exists: handlers run one after the other here as they do there.
\<close>

section \<open>Data\<close>

record child_spec =
  cs_name :: bytes
  cs_function :: u32
  cs_args :: "value list"
  cs_restart :: restart_policy

definition child_spec_new :: "bytes \<Rightarrow> u32 \<Rightarrow> child_spec" where
  "child_spec_new nm function = \<lparr>cs_name = nm, cs_function = function, cs_args = [], cs_restart = OnFailure\<rparr>"

definition spec_args :: "value list \<Rightarrow> child_spec \<Rightarrow> child_spec" where
  "spec_args args spec = spec\<lparr>cs_args := args\<rparr>"

definition spec_restart :: "restart_policy \<Rightarrow> child_spec \<Rightarrow> child_spec" where
  "spec_restart policy spec = spec\<lparr>cs_restart := policy\<rparr>"

datatype restart_strategy = OneForOne | OneForAll | RestForOne

record supervisor_config =
  sc_max_restarts :: u32
  sc_max_period :: nat
  sc_strategy :: restart_strategy

text \<open>Durations and instants are in nanoseconds.\<close>

definition supervisor_config_default :: supervisor_config where
  "supervisor_config_default = \<lparr>sc_max_restarts = 3, sc_max_period = 5000000000, sc_strategy = OneForOne\<rparr>"

record live_child =
  lc_spec :: child_spec
  lc_expected_shutdown :: bool

record child_table =
  ch_by_id :: "(flow_id, live_child) hash_map"
  ch_order :: "flow_id list"

definition child_table_new :: child_table where
  "child_table_new = \<lparr>ch_by_id = [], ch_order = []\<rparr>"

definition child_insert :: "flow_id \<Rightarrow> live_child \<Rightarrow> child_table \<Rightarrow> child_table" where
  "child_insert fid child t = \<lparr>ch_by_id = hm_insert fid child (ch_by_id t), ch_order = ch_order t @ [fid]\<rparr>"

definition child_remove :: "flow_id \<Rightarrow> child_table \<Rightarrow> live_child option \<times> child_table" where
  "child_remove fid t =
     (hm_get (ch_by_id t) fid, \<lparr>ch_by_id = hm_remove fid (ch_by_id t), ch_order = filter (\<lambda>x. x \<noteq> fid) (ch_order t)\<rparr>)"

definition child_len :: "child_table \<Rightarrow> usize" where
  "child_len t = length (ch_by_id t)"

record cascade =
  ca_waiting :: "flow_id set"
  ca_specs :: "child_spec list"

record supervisor =
  sv_id :: nat
  sv_chunk :: chunk
  sv_natives :: native_table
  sv_config :: supervisor_config
  sv_children :: "child_table mutex"
  sv_cascade :: "cascade option mutex"
  sv_restart_times :: "nat list mutex"
  sv_intensity_exceeded :: bool
  sv_shutdown :: bool

text \<open>\<open>os\<close> is the refusal of the operating system to start the supervisor's thread, if it refuses.\<close>

definition supervisor_with_config ::
  "string option \<Rightarrow> nat \<Rightarrow> chunk \<Rightarrow> native_table \<Rightarrow> supervisor_config \<Rightarrow> spawn_error + supervisor" where
  "supervisor_with_config os spv ch natives cfg =
     (case os of
        Some msg \<Rightarrow> Inl (ThreadSpawnFailed msg)
      | None \<Rightarrow> Inr \<lparr>sv_id = spv, sv_chunk = ch, sv_natives = natives, sv_config = cfg, sv_children = mutex_new child_table_new,
          sv_cascade = mutex_new None, sv_restart_times = mutex_new [], sv_intensity_exceeded = False, sv_shutdown = False\<rparr>)"

type_synonym 'g sup_state = "supervisor \<times> 'g shared"

section \<open>Starting children\<close>

definition register_child_name :: "'g getrandom \<Rightarrow> flow_id \<Rightarrow> bytes \<Rightarrow> 'g shared \<Rightarrow> (spawn_error + unit) \<times> 'g shared" where
  "register_child_name rng fid nm sh =
     (case on_caps (mint rng fid fid ADDRESSING) sh of
        (Inl e, sh) \<Rightarrow> (Inl (VmInit ''cap mint failed (poisoned lock)''), report_fault e sh)
      | (Inr cap, sh) \<Rightarrow>
          (case on_registry (registry_register nm cap fid) sh of
             (Inr (Inr _), sh) \<Rightarrow> (Inr (), sh)
           | (Inr (Inl AlreadyRegistered), sh) \<Rightarrow> (Inl (NameTaken nm), sh)
           | (Inr (Inl e), sh) \<Rightarrow> (Inl (VmInit (lifecycle_error_string e)), sh)
           | (Inl e, sh) \<Rightarrow> (Inl (VmInit ''registry register failed (poisoned lock)''), report_fault e sh)))"

definition name_child :: "'g getrandom \<Rightarrow> flow_id \<Rightarrow> bytes \<Rightarrow> 'g shared \<Rightarrow> (spawn_error + unit) \<times> 'g shared" where
  "name_child rng fid nm sh = (if nm = [] then (Inr (), sh) else register_child_name rng fid nm sh)"

definition spawn_child :: "'g getrandom \<Rightarrow> child_spec \<Rightarrow> 'g sup_state \<Rightarrow> (spawn_error + flow_handle) \<times> 'g sup_state" where
  "spawn_child rng spec s =
     (case s of (sv, sh) \<Rightarrow>
      (case lock (sv_children sv) ''spawn_child'' of
         Inl e \<Rightarrow> (Inl (VmInit ''supervisor child table poisoned''), sv, report_fault e sh)
       | Inr children \<Rightarrow>
           (case spawn_on rng (sv_chunk sv) (sv_natives sv) (cs_function spec) (cs_args spec) (cs_restart spec)
               (Some (sv_id sv)) None None sh of
              (Inl e, sh) \<Rightarrow> (Inl e, sv, sh)
            | (Inr handle, sh) \<Rightarrow>
                (case name_child rng (fst handle) (cs_name spec) sh of
                   (Inl e, sh) \<Rightarrow> (Inl e, sv, request_kill (fst handle) RSupervisor sh)
                 | (Inr _, sh) \<Rightarrow>
                     (Inr handle,
                      sv\<lparr>sv_children := (sv_children sv)\<lparr>mx_inner :=
                           child_insert (fst handle) \<lparr>lc_spec = spec, lc_expected_shutdown = False\<rparr> children\<rparr>\<rparr>,
                      sh)))))"

definition live_children :: "'g sup_state \<Rightarrow> usize \<times> 'g sup_state" where
  "live_children s =
     (case s of (sv, sh) \<Rightarrow>
      (case lock (sv_children sv) ''Supervisor::live_children'' of
         Inr t \<Rightarrow> (child_len t, sv, sh)
       | Inl e \<Rightarrow> (0, sv, report_fault e sh)))"

definition supervisor_shutdown :: "supervisor \<Rightarrow> supervisor" where
  "supervisor_shutdown sv = sv\<lparr>sv_shutdown := True\<rparr>"

section \<open>Restart decisions\<close>

fun should_restart :: "restart_policy \<Rightarrow> flow_outcome \<Rightarrow> bool" where
  "should_restart Always oc = True"
| "should_restart OnFailure oc = (case oc of Failed _ \<Rightarrow> True | Completed _ \<Rightarrow> False)"
| "should_restart Never oc = False"

text \<open>The instant a period before \<open>now\<close>; \<open>checked_sub\<close> has no answer before the clock's origin, and then it is \<open>now\<close>.\<close>

definition window_start :: "nat \<Rightarrow> nat \<Rightarrow> nat" where
  "window_start period now = (if period \<le> now then now - period else now)"

definition intensity_hit :: "'g sup_state \<Rightarrow> bool \<times> 'g sup_state" where
  "intensity_hit s =
     (case s of (sv, sh) \<Rightarrow>
      (case instant_now sh of (now, sh) \<Rightarrow>
      (case lock (sv_restart_times sv) ''intensity_hit'' of
         Inl e \<Rightarrow> (True, sv, report_fault e sh)
       | Inr ts \<Rightarrow>
           (let ts = dropWhile (\<lambda>t. t < window_start (sc_max_period (sv_config sv)) now) (ts @ [now]);
                hit = (unat (sc_max_restarts (sv_config sv)) < length ts mod 2 ^ 32);
                sv = sv\<lparr>sv_restart_times := (sv_restart_times sv)\<lparr>mx_inner := ts\<rparr>\<rparr>
            in (hit, if hit then sv\<lparr>sv_intensity_exceeded := True\<rparr> else sv, sh)))))"

text \<open>The exit of a child, up to the decision to restart: its specification, its index in the start order and the siblings
  the strategy takes down with it.\<close>

definition exit_siblings :: "restart_strategy \<Rightarrow> nat option \<Rightarrow> child_table \<Rightarrow> flow_id list" where
  "exit_siblings strategy failed_idx children =
     (case strategy of
        OneForAll \<Rightarrow> ch_order children
      | RestForOne \<Rightarrow> (case failed_idx of Some i \<Rightarrow> drop i (ch_order children) | None \<Rightarrow> [])
      | OneForOne \<Rightarrow> [])"

definition take_child ::
  "flow_id \<Rightarrow> 'g sup_state \<Rightarrow> (live_child \<times> nat option \<times> flow_id list) option \<times> 'g sup_state" where
  "take_child fid s =
     (case s of (sv, sh) \<Rightarrow>
      (case lock (sv_children sv) ''handle_exit'' of
         Inl e \<Rightarrow> (None, sv, report_fault e sh)
       | Inr children \<Rightarrow>
           (let failed_idx = position (\<lambda>x. x = fid) (ch_order children) in
            case child_remove fid children of
              (None, children) \<Rightarrow> (None, sv\<lparr>sv_children := (sv_children sv)\<lparr>mx_inner := children\<rparr>\<rparr>, sh)
            | (Some live, children) \<Rightarrow>
                (Some (live, failed_idx, exit_siblings (sc_strategy (sv_config sv)) failed_idx children),
                 sv\<lparr>sv_children := (sv_children sv)\<lparr>mx_inner := children\<rparr>\<rparr>, sh))))"

section \<open>Cascades\<close>

text \<open>Mark the live siblings as going down on purpose, and collect their specifications in start order.\<close>

fun expect_shutdown :: "flow_id list \<Rightarrow> child_table \<Rightarrow> child_spec list \<times> child_table" where
  "expect_shutdown [] t = ([], t)"
| "expect_shutdown (fid # fids) t =
     (case hm_get (ch_by_id t) fid of
        None \<Rightarrow> expect_shutdown fids t
      | Some c \<Rightarrow>
          (case expect_shutdown fids (t\<lparr>ch_by_id := hm_insert fid (c\<lparr>lc_expected_shutdown := True\<rparr>) (ch_by_id t)\<rparr>) of
             (specs, t) \<Rightarrow> (lc_spec c # specs, t)))"

text \<open>\<open>Vec::insert\<close>, for an index within the vector.\<close>

definition vec_insert :: "nat \<Rightarrow> 'a \<Rightarrow> 'a list \<Rightarrow> 'a list" where
  "vec_insert i x xs = take i xs @ x # drop i xs"

definition cascade_specs :: "restart_strategy \<Rightarrow> nat option \<Rightarrow> child_spec \<Rightarrow> child_spec list \<Rightarrow> child_spec list" where
  "cascade_specs strategy failed_idx failed later_specs =
     (case strategy of
        OneForAll \<Rightarrow> vec_insert (case failed_idx of Some i \<Rightarrow> i | None \<Rightarrow> length later_specs) failed later_specs
      | RestForOne \<Rightarrow> failed # later_specs
      | OneForOne \<Rightarrow> [failed])"

fun spawn_specs :: "'g getrandom \<Rightarrow> child_spec list \<Rightarrow> 'g sup_state \<Rightarrow> 'g sup_state" where
  "spawn_specs rng [] s = s"
| "spawn_specs rng (spec # specs) s =
     (if sv_intensity_exceeded (fst s) then s else spawn_specs rng specs (snd (spawn_child rng spec s)))"

definition finish_cascade :: "'g getrandom \<Rightarrow> 'g sup_state \<Rightarrow> 'g sup_state" where
  "finish_cascade rng s =
     (case s of (sv, sh) \<Rightarrow>
      (case lock (sv_cascade sv) ''finish_cascade'' of
         Inl e \<Rightarrow> (sv, report_fault e sh)
       | Inr None \<Rightarrow> (sv, sh)
       | Inr (Some c) \<Rightarrow> spawn_specs rng (ca_specs c) (sv\<lparr>sv_cascade := (sv_cascade sv)\<lparr>mx_inner := None\<rparr>\<rparr>, sh)))"

definition on_cascade_progress :: "'g getrandom \<Rightarrow> flow_id \<Rightarrow> 'g sup_state \<Rightarrow> 'g sup_state" where
  "on_cascade_progress rng fid s =
     (case s of (sv, sh) \<Rightarrow>
      (case lock (sv_cascade sv) ''on_cascade_progress'' of
         Inl e \<Rightarrow> (sv, report_fault e sh)
       | Inr None \<Rightarrow> (sv, sh)
       | Inr (Some c) \<Rightarrow>
           (let c = c\<lparr>ca_waiting := ca_waiting c - {fid}\<rparr>;
                s = (sv\<lparr>sv_cascade := (sv_cascade sv)\<lparr>mx_inner := Some c\<rparr>\<rparr>, sh)
            in if ca_waiting c = {} then finish_cascade rng s else s)))"

definition is_live :: "'g shared \<Rightarrow> flow_id \<Rightarrow> bool" where
  "is_live sh fid = (case directory_lookup fid (sh_directory sh) of Inr (Some _) \<Rightarrow> True | _ \<Rightarrow> False)"

text \<open>The plan of a cascade goes into its slot; then the siblings are asked to die.\<close>

definition arm_cascade ::
  "child_spec \<Rightarrow> nat option \<Rightarrow> flow_id list \<Rightarrow> 'g sup_state \<Rightarrow> bool \<times> 'g sup_state" where
  "arm_cascade failed failed_idx later s =
     (case s of (sv, sh) \<Rightarrow>
      (case lock (sv_children sv) ''start_cascade'' of
         Inl e \<Rightarrow> (False, sv, report_fault e sh)
       | Inr children \<Rightarrow>
           (case expect_shutdown later children of (later_specs, children) \<Rightarrow>
           (let sv = sv\<lparr>sv_children := (sv_children sv)\<lparr>mx_inner := children\<rparr>\<rparr>;
                specs = cascade_specs (sc_strategy (sv_config sv)) failed_idx failed later_specs in
            case lock (sv_cascade sv) ''start_cascade.cascade'' of
              Inl e \<Rightarrow> (False, sv, report_fault e sh)
            | Inr _ \<Rightarrow>
                (True,
                 sv\<lparr>sv_cascade := (sv_cascade sv)\<lparr>mx_inner := Some \<lparr>ca_waiting = set later, ca_specs = specs\<rparr>\<rparr>\<rparr>,
                 fold (\<lambda>fid sh. request_kill fid RSupervisor sh) later sh)))))"

text \<open>Siblings that were parked are gone already: a cascade with nobody left to wait for finishes at once.\<close>

definition prune_cascade :: "'g getrandom \<Rightarrow> flow_id list \<Rightarrow> 'g sup_state \<Rightarrow> 'g sup_state" where
  "prune_cascade rng later s =
     (case s of (sv, sh) \<Rightarrow>
      (case lock (sv_cascade sv) ''start_cascade.prune'' of
         Inl e \<Rightarrow> (sv, report_fault e sh)
       | Inr slot \<Rightarrow>
           (let slot = map_option (\<lambda>c. c\<lparr>ca_waiting := {fid \<in> ca_waiting c. is_live sh fid}\<rparr>) slot;
                remaining = (case slot of Some c \<Rightarrow> ca_waiting c = {} | None \<Rightarrow> True);
                s = (sv\<lparr>sv_cascade := (sv_cascade sv)\<lparr>mx_inner := slot\<rparr>\<rparr>, sh)
            in if remaining \<or> later = [] then finish_cascade rng s else s)))"

definition start_cascade ::
  "'g getrandom \<Rightarrow> child_spec \<Rightarrow> nat option \<Rightarrow> flow_id list \<Rightarrow> 'g sup_state \<Rightarrow> 'g sup_state" where
  "start_cascade rng failed failed_idx later s =
     (case arm_cascade failed failed_idx later s of
        (False, s) \<Rightarrow> s
      | (True, s) \<Rightarrow> prune_cascade rng later s)"

section \<open>The drive loop\<close>

text \<open>Whether an exit that its policy wants restarted may be: the intensity is counted for these exits only.\<close>

definition restart_allowed :: "'g sup_state \<Rightarrow> bool \<times> 'g sup_state" where
  "restart_allowed s =
     (if sv_intensity_exceeded (fst s) then (False, s) else (case intensity_hit s of (hit, s) \<Rightarrow> (\<not> hit, s)))"

definition restart_child ::
  "'g getrandom \<Rightarrow> child_spec \<Rightarrow> nat option \<Rightarrow> flow_id list \<Rightarrow> 'g sup_state \<Rightarrow> 'g sup_state" where
  "restart_child rng spec failed_idx later s =
     (case sc_strategy (sv_config (fst s)) of
        OneForOne \<Rightarrow> snd (spawn_child rng spec s)
      | _ \<Rightarrow> start_cascade rng spec failed_idx later s)"

definition handle_exit :: "'g getrandom \<Rightarrow> child_exit \<Rightarrow> 'g sup_state \<Rightarrow> 'g sup_state" where
  "handle_exit rng ex s =
     (case take_child (fst ex) s of
        (None, s) \<Rightarrow> s
      | (Some (live, failed_idx, later), s) \<Rightarrow>
          if lc_expected_shutdown live then on_cascade_progress rng (fst ex) s
          else if \<not> should_restart (cs_restart (lc_spec live)) (snd ex) then s
          else (case restart_allowed s of
              (False, s) \<Rightarrow> s
            | (True, s) \<Rightarrow> restart_child rng (lc_spec live) failed_idx later s))"

text \<open>One turn of the drive loop: whether the thread goes on. With an empty inbox it waits and looks again.\<close>

definition supervisor_turn :: "'g getrandom \<Rightarrow> 'g sup_state \<Rightarrow> bool \<times> 'g sup_state" where
  "supervisor_turn rng s =
     (case s of (sv, sh) \<Rightarrow>
      if sv_shutdown sv then (False, sv, sh)
      else
        (case lock (sh_sup_events sh (sv_id sv)) ''supervisor::drive'' of
           Inl e \<Rightarrow> (False, sv, report_fault e sh)
         | Inr [] \<Rightarrow> (True, sv, sh)
         | Inr (ex # evs) \<Rightarrow>
             (True, handle_exit rng ex
               (sv, sh\<lparr>sh_sup_events := (sh_sup_events sh)(sv_id sv := (sh_sup_events sh (sv_id sv))\<lparr>mx_inner := evs\<rparr>)\<rparr>))))"

end
