(* ===== verification/BF_Supervisor_Safety.thy ===== *)
theory BF_Supervisor_Safety
  imports BF_Supervisor
begin

text \<open>
  What the supervisor promises: restarts inside any window of its period stay within the limit, a cascade plans the whole
  set of affected children in their start order, and what happens to a plan that is still pending when the next one comes.
\<close>

section \<open>Frames\<close>

text \<open>The part of a supervisor that paces restarts: only a restart decision touches it.\<close>

definition pace :: "supervisor \<Rightarrow> supervisor_config \<times> nat list mutex \<times> bool" where
  "pace sv = (sv_config sv, sv_restart_times sv, sv_intensity_exceeded sv)"

lemma pace_updates [simp]:
  "pace (sv\<lparr>sv_children := x\<rparr>) = pace sv" "pace (sv\<lparr>sv_cascade := y\<rparr>) = pace sv"
  by (simp_all add: pace_def)

lemma pace_spawn [simp]: "pace (fst (snd (spawn_child rng spec s))) = pace (fst s)"
  by (simp add: spawn_child_def case_prod_beta split: sum.split)

lemma pace_spawn_specs [simp]: "pace (fst (spawn_specs rng specs s)) = pace (fst s)"
  by (induction specs arbitrary: s) simp_all

lemma pace_finish [simp]: "pace (fst (finish_cascade rng s)) = pace (fst s)"
  by (simp add: finish_cascade_def case_prod_beta split: sum.split option.split)

lemma pace_progress [simp]: "pace (fst (on_cascade_progress rng fid s)) = pace (fst s)"
  by (simp add: on_cascade_progress_def case_prod_beta Let_def split: sum.split option.split)

lemma pace_take [simp]: "pace (fst (snd (take_child fid s))) = pace (fst s)"
  by (simp add: take_child_def case_prod_beta Let_def split: sum.split option.split)

lemma pace_arm [simp]: "pace (fst (snd (arm_cascade failed idx later s))) = pace (fst s)"
  by (simp add: arm_cascade_def case_prod_beta Let_def split: sum.split)

lemma pace_prune [simp]: "pace (fst (prune_cascade rng later s)) = pace (fst s)"
  by (simp add: prune_cascade_def case_prod_beta Let_def split: sum.split)

lemma pace_start [simp]: "pace (fst (start_cascade rng failed idx later s)) = pace (fst s)"
  by (simp add: start_cascade_def case_prod_beta split: bool.split)

lemma pace_restart [simp]: "pace (fst (restart_child rng spec idx later s)) = pace (fst s)"
  by (simp add: restart_child_def split: restart_strategy.split)

section \<open>Restart intensity\<close>

text \<open>Whether the exit leads to a restart.\<close>

definition exit_granted :: "child_exit \<Rightarrow> 'g sup_state \<Rightarrow> bool" where
  "exit_granted ex s =
     (case take_child (fst ex) s of
        (None, _) \<Rightarrow> False
      | (Some (live, _), s) \<Rightarrow>
          \<not> lc_expected_shutdown live \<and> should_restart (cs_restart (lc_spec live)) (snd ex) \<and> fst (restart_allowed s))"

lemma pace_handle_exit:
  "pace (fst (handle_exit rng ex s)) = pace (fst s) \<or>
   pace (fst (handle_exit rng ex s)) = pace (fst (snd (restart_allowed (snd (take_child (fst ex) s)))))"
  by (simp add: handle_exit_def case_prod_beta split: option.split bool.split)

lemma pace_handle_exit_granted:
  "exit_granted ex s \<Longrightarrow>
   pace (fst (handle_exit rng ex s)) = pace (fst (snd (restart_allowed (snd (take_child (fst ex) s)))))"
  by (auto simp: handle_exit_def exit_granted_def case_prod_beta split: option.splits bool.split)

text \<open>A supervisor at work beside a runtime that does anything: \<open>grants\<close> are the instants at which a restart was decided.\<close>

inductive sup_run :: "'g getrandom \<Rightarrow> 'g sup_state \<Rightarrow> nat list \<Rightarrow> 'g sup_state \<Rightarrow> bool" for rng s0 where
  sr_start: "sup_run rng s0 [] s0"
| sr_exit: "sup_run rng s0 grants s \<Longrightarrow>
    sup_run rng s0 (grants @ (if exit_granted ex s then [sh_clock (snd s) (sh_reads (snd s))] else [])) (handle_exit rng ex s)"
| sr_child: "sup_run rng s0 grants s \<Longrightarrow> sup_run rng s0 grants (snd (spawn_child rng spec s))"
| sr_runtime: "sup_run rng s0 grants s \<Longrightarrow> sup_run rng s0 grants (fst s, sh')"

lemma dropWhile_sorted: "sorted ts \<Longrightarrow> dropWhile (\<lambda>t. t < w) ts = filter (\<lambda>t. w \<le> t) (ts :: nat list)"
proof (induction ts)
  case (Cons t ts)
  show ?case
  proof (cases "t < w")
    case False
    then have "filter (\<lambda>t. w \<le> t) ts = ts" using Cons.prems by (auto simp: filter_id_conv)
    then show ?thesis using False by simp
  qed (use Cons in simp)
qed simp

definition windows_ok :: "nat \<Rightarrow> nat \<Rightarrow> nat list \<Rightarrow> bool" where
  "windows_ok m p ts \<longleftrightarrow> (\<forall>a. length (filter (\<lambda>t. a \<le> t \<and> t \<le> a + p) ts) \<le> m)"

lemma windows_ok_snoc:
  assumes ok: "windows_ok m p ts" and len: "length (filter (\<lambda>t. now - p \<le> t) (ts @ [now])) \<le> m"
  shows "windows_ok m p (ts @ [now])"
  unfolding windows_ok_def
proof
  fix a
  show "length (filter (\<lambda>t. a \<le> t \<and> t \<le> a + p) (ts @ [now])) \<le> m"
  proof (cases "a \<le> now \<and> now \<le> a + p")
    case True
    then have "filter (\<lambda>t. a \<le> t \<and> t \<le> a + p) (ts @ [now]) =
        filter (\<lambda>t. a \<le> t \<and> t \<le> a + p) (filter (\<lambda>t. now - p \<le> t) (ts @ [now]))"
      by (auto simp: filter_filter intro: filter_cong)
    then show ?thesis using len length_filter_le le_trans by metis
  next
    case False
    then show ?thesis using ok by (auto simp: windows_ok_def)
  qed
qed

lemma restart_granted:
  assumes "fst (restart_allowed s)" and "unat (sc_max_restarts (sv_config (fst s))) < 2 ^ 32 - 1"
    and "length (mx_inner (sv_restart_times (fst s))) \<le> unat (sc_max_restarts (sv_config (fst s)))"
    and "now = sh_clock (snd s) (sh_reads (snd s))"
  shows "\<exists>ts. ts = dropWhile (\<lambda>t. t < window_start (sc_max_period (sv_config (fst s))) now) (mx_inner (sv_restart_times (fst s)) @ [now]) \<and>
    length ts \<le> unat (sc_max_restarts (sv_config (fst s))) \<and>
    pace (fst (snd (restart_allowed s))) = (sv_config (fst s), (sv_restart_times (fst s))\<lparr>mx_inner := ts\<rparr>, False)"
proof -
  let ?ts = "dropWhile (\<lambda>t. t < window_start (sc_max_period (sv_config (fst s))) now) (mx_inner (sv_restart_times (fst s)) @ [now])"
  have "length ?ts \<le> Suc (length (mx_inner (sv_restart_times (fst s))))"
    using length_dropWhile_le [of _ "mx_inner (sv_restart_times (fst s)) @ [now]"] by simp
  then have "length ?ts mod 2 ^ 32 = length ?ts" using assms(2, 3) by simp
  then show ?thesis
    using assms(1, 4)
    by (auto simp: restart_allowed_def intensity_hit_def instant_now_def Let_def pace_def lock_def case_prod_beta split: if_splits)
qed

lemma restart_refused:
  "\<not> fst (restart_allowed s) \<Longrightarrow>
   pace (fst (snd (restart_allowed s))) = pace (fst s) \<or>
   (sv_config (fst (snd (restart_allowed s))) = sv_config (fst s) \<and> sv_intensity_exceeded (fst (snd (restart_allowed s))))"
  by (auto simp: restart_allowed_def intensity_hit_def instant_now_def Let_def pace_def lock_def case_prod_beta)

text \<open>The recorded instants are the restarts inside the current window, unless the supervisor has given up.\<close>

definition paced :: "supervisor_config \<Rightarrow> nat list \<Rightarrow> supervisor \<Rightarrow> bool" where
  "paced cfg ts sv \<longleftrightarrow> sv_config sv = cfg \<and>
     (sv_intensity_exceeded sv \<or>
      mx_inner (sv_restart_times sv) = (if ts = [] then [] else filter (\<lambda>t. last ts - sc_max_period cfg \<le> t) ts) \<and>
      length (mx_inner (sv_restart_times sv)) \<le> unat (sc_max_restarts cfg))"

lemma paced_pace: "pace sv' = pace sv \<Longrightarrow> paced cfg ts sv' = paced cfg ts sv"
  by (simp add: paced_def pace_def)

lemma paced_grant:
  assumes "paced cfg ts (fst s)" "fst (restart_allowed s)" "unat (sc_max_restarts cfg) < 2 ^ 32 - 1"
    and now: "now = sh_clock (snd s) (sh_reads (snd s))" and sorted: "sorted (ts @ [now])"
    and origin: "sc_max_period cfg \<le> now"
  shows "paced cfg (ts @ [now]) (fst (snd (restart_allowed s))) \<and>
    length (filter (\<lambda>t. now - sc_max_period cfg \<le> t) (ts @ [now])) \<le> unat (sc_max_restarts cfg)"
proof -
  let ?p = "sc_max_period cfg"
  have live: "\<not> sv_intensity_exceeded (fst s)" using assms(2) by (auto simp: restart_allowed_def)
  with assms(1) have cfg: "sv_config (fst s) = cfg"
    and old: "mx_inner (sv_restart_times (fst s)) = (if ts = [] then [] else filter (\<lambda>t. last ts - ?p \<le> t) ts)"
    and len: "length (mx_inner (sv_restart_times (fst s))) \<le> unat (sc_max_restarts cfg)"
    by (auto simp: paced_def)
  have "last ts \<le> now" if "ts \<noteq> []" using that sorted by (simp add: sorted_append)
  then have "filter (\<lambda>t. now - ?p \<le> t) (mx_inner (sv_restart_times (fst s)) @ [now]) = filter (\<lambda>t. now - ?p \<le> t) (ts @ [now])"
    unfolding old by (auto simp: filter_filter intro!: filter_cong)
  moreover have "sorted (mx_inner (sv_restart_times (fst s)) @ [now])"
    using sorted unfolding old by (auto simp: sorted_append sorted_wrt_filter)
  ultimately have ts: "dropWhile (\<lambda>t. t < window_start ?p now) (mx_inner (sv_restart_times (fst s)) @ [now]) =
      filter (\<lambda>t. now - ?p \<le> t) (ts @ [now])"
    using origin by (simp only: dropWhile_sorted window_start_def if_True)
  show ?thesis
    using restart_granted [OF assms(2), of now] assms(3) len now unfolding cfg ts
    by (auto simp: paced_def pace_def)
qed

lemma sup_run_paced:
  assumes "sup_run rng s0 grants s" and "paced cfg [] (fst s0)" and "unat (sc_max_restarts cfg) < 2 ^ 32 - 1"
    and "sorted grants" and "\<forall>t\<in>set grants. sc_max_period cfg \<le> t"
  shows "paced cfg grants (fst s) \<and> windows_ok (unat (sc_max_restarts cfg)) (sc_max_period cfg) grants"
  using assms
proof (induction rule: sup_run.induct)
  case (sr_exit grants s ex)
  let ?now = "sh_clock (snd s) (sh_reads (snd s))"
  have IH: "paced cfg grants (fst s)" "windows_ok (unat (sc_max_restarts cfg)) (sc_max_period cfg) grants"
    using sr_exit by (auto simp: sorted_append)
  obtain r s1 where t: "take_child (fst ex) s = (r, s1)" by (cases "take_child (fst ex) s")
  have p1: "pace (fst s1) = pace (fst s)" using pace_take [of "fst ex" s] t by simp
  have sh1: "exit_granted ex s \<Longrightarrow> snd s1 = snd s"
    using t by (auto simp: exit_granted_def take_child_def case_prod_beta Let_def split: sum.splits option.splits)
  show ?case
  proof (cases "exit_granted ex s")
    case True
    then have "fst (restart_allowed s1)" using t by (auto simp: exit_granted_def split: option.splits)
    moreover have "paced cfg grants (fst s1)" using IH(1) paced_pace [OF p1, of cfg grants] by blast
    ultimately have "paced cfg (grants @ [?now]) (fst (snd (restart_allowed s1))) \<and>
        length (filter (\<lambda>t. ?now - sc_max_period cfg \<le> t) (grants @ [?now])) \<le> unat (sc_max_restarts cfg)"
      using True sr_exit.prems(3, 4) sh1
      by (intro paced_grant [OF _ _ sr_exit.prems(2)]) simp_all
    moreover have "pace (fst (handle_exit rng ex s)) = pace (fst (snd (restart_allowed s1)))"
      using pace_handle_exit_granted [OF True, of rng] t by simp
    ultimately show ?thesis
      using IH(2) True by (simp add: windows_ok_snoc paced_pace [of "fst (handle_exit rng ex s)" "fst (snd (restart_allowed s1))"])
  next
    case False
    have "paced cfg grants (fst (handle_exit rng ex s))"
    proof (cases "\<exists>live x. r = Some (live, x) \<and> \<not> lc_expected_shutdown live \<and> should_restart (cs_restart (lc_spec live)) (snd ex)")
      case True
      then have "\<not> fst (restart_allowed s1)" using False t by (auto simp: exit_granted_def)
      with True t have "handle_exit rng ex s = snd (restart_allowed s1)" by (auto simp: handle_exit_def split: prod.splits)
      then show ?thesis
        using restart_refused [OF \<open>\<not> fst (restart_allowed s1)\<close>] IH(1) p1 by (auto simp: paced_def pace_def)
    next
      case False
      then have "pace (fst (handle_exit rng ex s)) = pace (fst s)"
        using t p1 by (auto simp: handle_exit_def split: option.split)
      from paced_pace [OF this, of cfg grants] IH(1) show ?thesis by blast
    qed
    with IH(2) False show ?thesis by simp
  qed
next
  case (sr_child grants s spec)
  then show ?case using paced_pace [OF pace_spawn, of cfg grants rng spec s] by blast
qed (auto simp: windows_ok_def)

section \<open>A supervised child\<close>

text \<open>A runtime with one worker whose clock stands at six seconds, and a supervisor with the default configuration.\<close>

definition idle_chunk :: chunk where
  "idle_chunk = \<lparr>ch_name = [], ch_constants = [], ch_code = [instr_nullary Halt],
     ch_functions = [\<lparr>f_name = [], f_entry = 0, f_arity = 0, f_num_registers = 1\<rparr>]\<rparr>"

definition demo_shared :: "nat shared" where
  "demo_shared = shared_new 1 10 config_default 0 quota_default 0 (\<lambda>_. 6000000000)"

definition demo_supervisor :: supervisor where
  "demo_supervisor = \<lparr>sv_id = 0, sv_chunk = idle_chunk, sv_natives = [], sv_config = supervisor_config_default,
     sv_children = mutex_new child_table_new, sv_cascade = mutex_new None, sv_restart_times = mutex_new [],
     sv_intensity_exceeded = False, sv_shutdown = False\<rparr>"

lemma demo_spawn: "fst (spawn_on counting_rng idle_chunk [] 0 [] policy spv None None demo_shared) = Inr (1, 0)"
  by (simp add: spawn_on_def spawn_limit_def demo_shared_def shared_new_def and_then_def next_flow_id_def err_as_def
        on_caps_def bind_flow_def get_or_create_cell_def cap_table_new_def spawn_authority_def Let_def,
      simp add: spawn_vm_def fresh_obj_def instant_now_def Let_def on_quota_def vm_with_native_gate_def bind_res_def
        idle_chunk_def chunk_function_def ok_or_def err_as_def set_quota_def frame_new_def and_then_def charge_heap_value_def,
      simp add: spawn_register_def Let_def on_directory_def directory_register_def directory_new_def shard_for_def SHARDS_def
        locked_def mutex_new_def quotas_insert_def)

text \<open>The supervisor after it has started one child, flow 1.\<close>

definition idle_child :: child_spec where
  "idle_child = child_spec_new [] 0"

definition one_child :: supervisor where
  "one_child = demo_supervisor\<lparr>sv_children := mutex_new
     \<lparr>ch_by_id = [(1, \<lparr>lc_spec = idle_child, lc_expected_shutdown = False\<rparr>)], ch_order = [1]\<rparr>\<rparr>"

lemma demo_spawn_child: "fst (snd (spawn_child counting_rng idle_child (demo_supervisor, demo_shared))) = one_child"
proof -
  obtain sh where "spawn_on counting_rng idle_chunk [] 0 [] OnFailure (Some 0) None None demo_shared = (Inr (1, 0), sh)"
    using demo_spawn [of OnFailure "Some 0"] by (metis prod.collapse)
  then show ?thesis
    by (simp add: spawn_child_def demo_supervisor_def idle_child_def child_spec_new_def mutex_new_def lock_def name_child_def
        child_insert_def child_table_new_def hm_insert_def one_child_def)
qed

lemma one_child_granted: "exit_granted (1, Failed []) (one_child, demo_shared)"
  by (simp add: exit_granted_def take_child_def one_child_def demo_supervisor_def mutex_new_def lock_def Let_def child_remove_def
      hm_get_def idle_child_def child_spec_new_def restart_allowed_def intensity_hit_def instant_now_def window_start_def
      supervisor_config_default_def demo_shared_def shared_new_def)

lemma one_child_run:
  "sup_run counting_rng (demo_supervisor, demo_shared) [6000000000] (handle_exit counting_rng (1, Failed []) (one_child, demo_shared))"
proof -
  have "sup_run counting_rng (demo_supervisor, demo_shared) [] (one_child, demo_shared)"
    using sr_runtime [OF sr_child [OF sr_start, where spec = idle_child], where sh' = demo_shared,
        of counting_rng "(demo_supervisor, demo_shared)"]
    by (simp add: demo_spawn_child)
  from sr_exit [OF this, of "(1, Failed [])"] show ?thesis
    by (simp add: one_child_granted) (simp add: demo_shared_def shared_new_def)
qed



section \<open>Cascades\<close>

text \<open>A table whose start order lists exactly the children, once each.\<close>

definition children_ok :: "child_table \<Rightarrow> bool" where
  "children_ok t \<longleftrightarrow> distinct (ch_order t) \<and> hm_ok (ch_by_id t) \<and> (\<forall>fid. fid \<in> set (ch_order t) \<longleftrightarrow> hm_get (ch_by_id t) fid \<noteq> None)"

definition child_spec_at :: "child_table \<Rightarrow> flow_id \<Rightarrow> child_spec" where
  "child_spec_at t fid = lc_spec (the (hm_get (ch_by_id t) fid))"

lemma children_ok_new: "children_ok child_table_new"
  by (simp add: children_ok_def child_table_new_def)

lemma children_ok_insert: "children_ok t \<Longrightarrow> fid \<notin> set (ch_order t) \<Longrightarrow> children_ok (child_insert fid c t)"
  by (auto simp: children_ok_def child_insert_def)

lemma children_ok_remove: "children_ok t \<Longrightarrow> children_ok (snd (child_remove fid t))"
  by (auto simp: children_ok_def child_remove_def)

lemma expect_shutdown_spec:
  assumes "children_ok t" and "set fids \<subseteq> set (ch_order t)" and "distinct fids" and "expect_shutdown fids t = (specs, t')"
  shows "specs = map (child_spec_at t) fids \<and> ch_order t' = ch_order t \<and> children_ok t' \<and>
     (\<forall>fid. hm_get (ch_by_id t') fid = map_option (\<lambda>c. if fid \<in> set fids then c\<lparr>lc_expected_shutdown := True\<rparr> else c) (hm_get (ch_by_id t) fid))"
  using assms
proof (induction fids arbitrary: t specs)
  case Nil
  then show ?case by (simp add: option.map_ident)
next
  case (Cons fid fids)
  then obtain c where c: "hm_get (ch_by_id t) fid = Some c" by (auto simp: children_ok_def)
  let ?t = "t\<lparr>ch_by_id := hm_insert fid (c\<lparr>lc_expected_shutdown := True\<rparr>) (ch_by_id t)\<rparr>"
  obtain specs1 where e: "expect_shutdown fids ?t = (specs1, t')" and specs: "specs = lc_spec c # specs1"
    using Cons.prems(4) c by (auto split: prod.splits)
  have ok: "children_ok ?t" using Cons.prems(1, 2) by (auto simp: children_ok_def)
  have at: "map (child_spec_at ?t) fids = map (child_spec_at t) fids"
    using Cons.prems(3) by (auto simp: child_spec_at_def)
  from Cons.IH [OF ok _ _ e] Cons.prems(2, 3) show ?case
    by (auto simp: specs at c child_spec_at_def)
qed

lemma position_drop:
  assumes "distinct xs" and "position (\<lambda>x. x = y) xs = Some i"
  shows "xs = take i xs @ y # drop i (filter (\<lambda>x. x \<noteq> y) xs) \<and> filter (\<lambda>x. x \<noteq> y) xs = take i xs @ drop (Suc i) xs \<and> i < length xs"
proof -
  have i: "i < length xs" "xs ! i = y" using position_Some [OF assms(2)] by auto
  have xs: "xs = take i xs @ y # drop (Suc i) xs" using i id_take_nth_drop [of i xs] by simp
  have y: "y \<notin> set (take i xs)" "y \<notin> set (drop (Suc i) xs)"
    using assms(1) by (subst (asm) xs, simp)+
  have "filter (\<lambda>x. x \<noteq> y) xs = take i xs @ drop (Suc i) xs"
  proof -
    have "filter (\<lambda>x. x \<noteq> y) (take i xs) = take i xs" "filter (\<lambda>x. x \<noteq> y) (drop (Suc i) xs) = drop (Suc i) xs"
      using y by (auto simp only: filter_id_conv)
    then show ?thesis by (subst xs) simp
  qed
  with i xs show ?thesis by simp
qed

definition cascade_from :: "restart_strategy \<Rightarrow> nat \<Rightarrow> nat" where
  "cascade_from strategy i = (case strategy of OneForAll \<Rightarrow> 0 | _ \<Rightarrow> i)"

lemma cascade_wave:
  assumes ok: "children_ok t" and live: "hm_get (ch_by_id t) fid = Some live" and st: "st \<noteq> OneForOne"
    and i: "position (\<lambda>x. x = fid) (ch_order t) = Some i"
    and t1: "t1 = snd (child_remove fid t)" and later: "later = exit_siblings st (Some i) t1"
    and wave: "wave = drop (cascade_from st i) (ch_order t)"
  shows "cascade_specs st (Some i) (lc_spec live) (map (child_spec_at t) later) = map (child_spec_at t) wave"
    and "set later = set wave - {fid}" and "set later \<subseteq> set (ch_order t1)" and "distinct later" and "i \<le> length (ch_order t1)"
proof -
  have dist: "distinct (ch_order t)" using ok by (simp add: children_ok_def)
  have order1: "ch_order t1 = filter (\<lambda>x. x \<noteq> fid) (ch_order t)" by (simp add: t1 child_remove_def)
  note split = position_drop [OF dist i]
  have drp: "drop i (ch_order t1) = drop (Suc i) (ch_order t)" "take i (ch_order t1) = take i (ch_order t)"
    using split by (simp_all add: order1)
  have at: "ch_order t ! i = fid" using position_Some [OF i] by simp
  then have tail: "drop i (ch_order t) = fid # drop (Suc i) (ch_order t)" using split by (metis Cons_nth_drop_Suc)
  then have fresh: "fid \<notin> set (drop (Suc i) (ch_order t))" using dist by (metis distinct.simps(2) distinct_drop)
  have head: "child_spec_at t fid = lc_spec live" by (simp add: child_spec_at_def live)
  have all: "ch_order t = take i (ch_order t) @ fid # drop (Suc i) (ch_order t)" using tail by (metis append_take_drop_id)
  have one: "map (child_spec_at t) (ch_order t) =
      take i (map (child_spec_at t) (ch_order t1)) @ lc_spec live # drop i (map (child_spec_at t) (ch_order t1))"
    by (subst all) (simp add: drp head take_map drop_map)
  show "cascade_specs st (Some i) (lc_spec live) (map (child_spec_at t) later) = map (child_spec_at t) wave"
    using st unfolding later wave
    by (cases st) (simp_all add: cascade_specs_def exit_siblings_def cascade_from_def vec_insert_def one drp tail head)
  show "set later = set wave - {fid}"
    using st tail fresh unfolding later wave
    by (cases st) (auto simp: exit_siblings_def cascade_from_def drp(1) simp del: order1 simp: order1 [THEN arg_cong [of _ _ set]])
  show "set later \<subseteq> set (ch_order t1)" "distinct later"
    using st dist order1 unfolding later
    by (cases st; auto simp: exit_siblings_def dest: in_set_dropD)+
  have "min (length (ch_order t1)) i = min (length (ch_order t)) i" using arg_cong [OF drp(2), of length] by simp
  then show "i \<le> length (ch_order t1)" using split by linarith
qed

text \<open>C21: a cascade plans the right set in the right order. When a child's exit starts a one-for-all or rest-for-one wave,
  the slot holds the specifications of the children from the strategy's first position on, in their start order and the
  failed one in its place; it waits for exactly the others; all of them are marked as going down on purpose; and the
  position at which the failed one is inserted lies inside the vector, so the insertion does not panic.\<close>

theorem cascade_plans_start_order:
  assumes ok: "children_ok (mx_inner (sv_children sv))" and take: "take_child fid (sv, sh) = (Some (live, idx, later), s1)"
    and st: "sc_strategy (sv_config sv) \<noteq> OneForOne" and arm: "arm_cascade (lc_spec live) idx later s1 = (True, sv2, sh2)"
  shows "\<exists>i wave. idx = Some i \<and> i \<le> length (ch_order (mx_inner (sv_children (fst s1)))) \<and>
     wave = drop (cascade_from (sc_strategy (sv_config sv)) i) (ch_order (mx_inner (sv_children sv))) \<and>
     mx_inner (sv_cascade sv2) = Some \<lparr>ca_waiting = set wave - {fid}, ca_specs = map (child_spec_at (mx_inner (sv_children sv))) wave\<rparr> \<and>
     (\<forall>f c. f \<in> set wave - {fid} \<and> hm_get (ch_by_id (mx_inner (sv_children sv2))) f = Some c \<longrightarrow> lc_expected_shutdown c)"
proof -
  define t where "t = mx_inner (sv_children sv)"
  define t1 where "t1 = snd (child_remove fid t)"
  have live: "hm_get (ch_by_id t) fid = Some live"
    and later: "later = exit_siblings (sc_strategy (sv_config sv)) idx t1"
    and idx: "idx = position (\<lambda>x. x = fid) (ch_order t)"
    and s1: "s1 = (sv\<lparr>sv_children := (sv_children sv)\<lparr>mx_inner := t1\<rparr>\<rparr>, sh)"
    using take by (auto simp: take_child_def t_def t1_def child_remove_def Let_def split: sum.splits option.splits)
      (auto simp: lock_def split: if_splits)
  have ok1: "children_ok t1" using ok by (simp add: t1_def t_def children_ok_remove)
  have "fid \<in> set (ch_order t)" using ok live by (simp add: children_ok_def t_def)
  then obtain i where i: "idx = Some i" unfolding idx by (cases "position (\<lambda>x. x = fid) (ch_order t)") (auto simp: position_None_iff)
  let ?wave = "drop (cascade_from (sc_strategy (sv_config sv)) i) (ch_order t)"
  note wave = cascade_wave [OF ok [folded t_def] live st idx [symmetric, unfolded i] t1_def later [unfolded i] refl]
  obtain specs t2 where e: "expect_shutdown later t1 = (specs, t2)" by fastforce
  note sp = expect_shutdown_spec [OF ok1 wave(3, 4) e]
  have "child_spec_at t1 f = child_spec_at t f" if "f \<in> set later" for f
    using that unfolding wave(2) by (simp add: child_spec_at_def t1_def child_remove_def)
  then have specs: "specs = map (child_spec_at t) later" using sp by simp
  have sv2: "mx_inner (sv_cascade sv2) = Some \<lparr>ca_waiting = set later, ca_specs = cascade_specs (sc_strategy (sv_config sv)) idx (lc_spec live) specs\<rparr>"
    "mx_inner (sv_children sv2) = t2"
    using arm by (auto simp: arm_cascade_def s1 e Let_def lock_def split: if_splits)
  have "lc_expected_shutdown c" if "f \<in> set ?wave - {fid}" "hm_get (ch_by_id t2) f = Some c" for f c
    using that sp by (auto simp: wave(2) [symmetric])
  then show ?thesis
    using i s1 sv2 wave(1, 2, 5) specs unfolding t_def [symmetric] by auto
qed

text \<open>A supervisor with three children, flows 1, 2 and 3, whose functions are 10, 20 and 30, under rest-for-one.\<close>

definition three_children :: supervisor where
  "three_children = demo_supervisor\<lparr>sv_config := supervisor_config_default\<lparr>sc_strategy := RestForOne\<rparr>,
     sv_children := mutex_new
       \<lparr>ch_by_id = map (\<lambda>(fid, fn). (fid, \<lparr>lc_spec = child_spec_new [] fn, lc_expected_shutdown = False\<rparr>)) [(1, 10), (2, 20), (3, 30)],
        ch_order = [1, 2, 3]\<rparr>\<rparr>"

lemma three_children_ok: "children_ok (mx_inner (sv_children three_children))"
  by (auto simp: children_ok_def three_children_def mutex_new_def hm_ok_def hm_get_def)

text \<open>After the exit of flow 2 the plan waits for flow 3; then flow 1 exits.\<close>

definition second_down :: "nat sup_state" where
  "second_down = snd (arm_cascade (child_spec_new [] 20) (Some 1) [3] (snd (take_child 2 (three_children, demo_shared))))"

lemma take_second:
  "take_child 2 (three_children, demo_shared) =
     (Some (\<lparr>lc_spec = child_spec_new [] 20, lc_expected_shutdown = False\<rparr>, Some 1, [3]),
      three_children\<lparr>sv_children := mutex_new
       \<lparr>ch_by_id = map (\<lambda>(fid, fn). (fid, \<lparr>lc_spec = child_spec_new [] fn, lc_expected_shutdown = False\<rparr>)) [(1, 10), (3, 30)],
        ch_order = [1, 3]\<rparr>\<rparr>, demo_shared)"
  by (simp add: take_child_def three_children_def mutex_new_def lock_def child_remove_def hm_get_def hm_remove_def Let_def
      exit_siblings_def demo_supervisor_def)

theorem cascade_plans_start_order_witness:
  "\<exists>i wave. i = (1 :: nat) \<and> wave = [2, 3] \<and>
     mx_inner (sv_cascade (fst second_down)) = Some \<lparr>ca_waiting = set wave - {2}, ca_specs = [child_spec_new [] 20, child_spec_new [] 30]\<rparr>"
proof -
  have arm: "arm_cascade (child_spec_new [] 20) (Some 1) [3] (snd (take_child 2 (three_children, demo_shared))) =
      (True, fst second_down, snd second_down)"
    by (simp add: second_down_def take_second)
      (simp add: arm_cascade_def three_children_def mutex_new_def lock_def hm_get_def Let_def demo_supervisor_def)
  have "\<exists>i wave. Some 1 = Some i \<and> i \<le> length (ch_order (mx_inner (sv_children (fst (snd (take_child 2 (three_children, demo_shared))))))) \<and>
     wave = drop (cascade_from (sc_strategy (sv_config three_children)) i) (ch_order (mx_inner (sv_children three_children))) \<and>
     mx_inner (sv_cascade (fst second_down)) =
       Some \<lparr>ca_waiting = set wave - {2}, ca_specs = map (child_spec_at (mx_inner (sv_children three_children))) wave\<rparr>"
    using cascade_plans_start_order [OF three_children_ok, of 2 demo_shared _ _ _ _ "fst second_down" "snd second_down"] take_second arm
    by (fastforce simp: three_children_def)
  then show ?thesis
    by (simp add: three_children_def cascade_from_def mutex_new_def child_spec_at_def hm_get_def)
qed

lemma expect_shutdown_known:
  "expect_shutdown fids t = (specs, t') \<Longrightarrow>
   (\<forall>spec\<in>set specs. \<exists>f c. hm_get (ch_by_id t) f = Some c \<and> lc_spec c = spec) \<and>
   (\<forall>f. map_option lc_spec (hm_get (ch_by_id t') f) = map_option lc_spec (hm_get (ch_by_id t) f))"
proof (induction fids arbitrary: t specs)
  case (Cons fid fids)
  show ?case
  proof (cases "hm_get (ch_by_id t) fid")
    case None
    then show ?thesis using Cons by simp
  next
    case (Some c)
    let ?t = "t\<lparr>ch_by_id := hm_insert fid (c\<lparr>lc_expected_shutdown := True\<rparr>) (ch_by_id t)\<rparr>"
    obtain specs1 where e: "expect_shutdown fids ?t = (specs1, t')" and specs: "specs = lc_spec c # specs1"
      using Cons.prems Some by (auto split: prod.splits)
    have same: "map_option lc_spec (hm_get (ch_by_id ?t) f) = map_option lc_spec (hm_get (ch_by_id t) f)" for f
      using Some by simp
    then have "\<exists>f c. hm_get (ch_by_id t) f = Some c \<and> lc_spec c = spec"
      if "\<exists>f c. hm_get (ch_by_id ?t) f = Some c \<and> lc_spec c = spec" for spec
      using that by (metis (no_types, lifting) map_option_eq_Some)
    then show ?thesis using Cons.IH [OF e] same Some unfolding specs by auto
  qed
qed simp

lemma cascade_specs_set: "set (cascade_specs st idx failed specs) \<subseteq> insert failed (set specs)"
  by (auto simp: cascade_specs_def vec_insert_def dest: in_set_takeD in_set_dropD split: restart_strategy.splits)

text \<open>C28: a cascade in progress does not survive the next one. When another exit starts a wave while the slot still
  holds a plan, the plan is replaced: a child of the old plan that is down already (so no row of the table has its
  specification) is neither in the new plan nor in the table, and nothing will restart it.\<close>

theorem pending_cascade_is_overwritten:
  assumes arm: "arm_cascade failed idx later (sv, sh) = (True, sv2, sh2)"
    and old: "mx_inner (sv_cascade sv) = Some c" "spec \<in> set (ca_specs c)" and other: "spec \<noteq> failed"
    and down: "\<And>f row. hm_get (ch_by_id (mx_inner (sv_children sv))) f = Some row \<Longrightarrow> lc_spec row \<noteq> spec"
  shows "\<exists>c2. mx_inner (sv_cascade sv2) = Some c2 \<and> spec \<notin> set (ca_specs c2) \<and>
    (\<forall>f. map_option lc_spec (hm_get (ch_by_id (mx_inner (sv_children sv2))) f) \<noteq> Some spec)"
proof -
  obtain specs t2 where e: "expect_shutdown later (mx_inner (sv_children sv)) = (specs, t2)" by fastforce
  have sv2: "mx_inner (sv_cascade sv2) =
      Some \<lparr>ca_waiting = set later, ca_specs = cascade_specs (sc_strategy (sv_config sv)) idx failed specs\<rparr>"
    "mx_inner (sv_children sv2) = t2"
    using arm by (auto simp: arm_cascade_def e Let_def lock_def split: if_splits)
  note known = expect_shutdown_known [OF e]
  have "spec \<notin> set specs" using known down by blast
  then have "spec \<notin> set (cascade_specs (sc_strategy (sv_config sv)) idx failed specs)" using cascade_specs_set other by blast
  moreover have "map_option lc_spec (hm_get (ch_by_id (mx_inner (sv_children sv))) f) \<noteq> Some spec" for f
    using down [of f] by (auto simp: map_option_eq_Some)
  then have "map_option lc_spec (hm_get (ch_by_id t2) f) \<noteq> Some spec" for f using known by simp
  ultimately show ?thesis by (simp add: sv2)
qed

text \<open>Flow 1 exits before flow 3 is gone: flow 2's specification is lost.\<close>

theorem pending_cascade_is_overwritten_witness:
  "\<exists>s c2. s = snd (arm_cascade (child_spec_new [] 10) (Some 0) [3] (snd (take_child 1 second_down))) \<and>
     mx_inner (sv_cascade (fst s)) = Some c2 \<and> child_spec_new [] 20 \<notin> set (ca_specs c2)"
proof -
  have eval: "arm_cascade (child_spec_new [] 20) (Some 1) [3] (snd (take_child 2 (three_children, demo_shared))) =
    (True, three_children\<lparr>
      sv_children := mutex_new \<lparr>ch_by_id = [(1, \<lparr>lc_spec = child_spec_new [] 10, lc_expected_shutdown = False\<rparr>),
        (3, \<lparr>lc_spec = child_spec_new [] 30, lc_expected_shutdown = True\<rparr>)], ch_order = [1, 3]\<rparr>,
      sv_cascade := mutex_new (Some \<lparr>ca_waiting = {3}, ca_specs = [child_spec_new [] 20, child_spec_new [] 30]\<rparr>)\<rparr>,
     request_kill 3 RSupervisor demo_shared)"
    unfolding take_second
    by (simp add: arm_cascade_def three_children_def mutex_new_def lock_def hm_get_def hm_insert_def Let_def demo_supervisor_def
        cascade_specs_def)
  let ?s1 = "snd (take_child 1 second_down)"
  have s1: "fst ?s1 = three_children\<lparr>
      sv_children := mutex_new \<lparr>ch_by_id = [(3, \<lparr>lc_spec = child_spec_new [] 30, lc_expected_shutdown = True\<rparr>)], ch_order = [3]\<rparr>,
      sv_cascade := mutex_new (Some \<lparr>ca_waiting = {3}, ca_specs = [child_spec_new [] 20, child_spec_new [] 30]\<rparr>)\<rparr>"
    unfolding second_down_def eval snd_conv
    by (simp add: take_child_def mutex_new_def lock_def child_remove_def hm_get_def hm_remove_def Let_def)
  have "fst (arm_cascade (child_spec_new [] 10) (Some 0) [3] ?s1)"
    by (simp add: arm_cascade_def case_prod_beta s1 mutex_new_def lock_def Let_def)
  then obtain sv2 sh2 where arm: "arm_cascade (child_spec_new [] 10) (Some 0) [3] (fst ?s1, snd ?s1) = (True, sv2, sh2)"
    by (metis prod.collapse)
  have "\<exists>c2. mx_inner (sv_cascade sv2) = Some c2 \<and> child_spec_new [] 20 \<notin> set (ca_specs c2) \<and>
      (\<forall>f. map_option lc_spec (hm_get (ch_by_id (mx_inner (sv_children sv2))) f) \<noteq> Some (child_spec_new [] 20))"
    by (rule pending_cascade_is_overwritten [OF arm])
      (auto simp: s1 mutex_new_def child_spec_new_def hm_get_def split: if_splits)
  then obtain c2 where "mx_inner (sv_cascade sv2) = Some c2" "child_spec_new [] 20 \<notin> set (ca_specs c2)" by blast
  moreover have "sv2 = fst (snd (arm_cascade (child_spec_new [] 10) (Some 0) [3] ?s1))" using arm by simp
  ultimately show ?thesis by (intro exI conjI) simp_all
qed

end
