(* ===== verification/BF_Runtime_Safety.thy ===== *)
theory BF_Runtime_Safety
  imports BF_Supervisor_Safety
begin

text \<open>
  The whole runtime as a step relation: workers, the timer thread, supervisors and the host's interface, one operation at a
  time in any order. Invariants of the capability table that every operation keeps hold in every reachable state.
\<close>

section \<open>Host and supervisor operations keep an invariant of the table\<close>

context table_invariant
begin

lemma K_and_then: "K (snd r) \<Longrightarrow> (\<And>x sh. fst r = Inr x \<Longrightarrow> K sh \<Longrightarrow> K (snd (k x sh))) \<Longrightarrow> K (snd (and_then r k))"
  by (auto simp: snd_and_then split: sum.split)

lemma K_available [simp]: "K (snd (available r)) = K (snd r)"
  by (simp add: available_def case_prod_beta split: sum.split)

lemma K_available_inner [simp]: "K (snd (available_inner r)) = K (snd r)"
  by (simp add: available_inner_def snd_and_then available_def case_prod_beta split: sum.split)

lemma K_require_live [simp]: "K (snd (require_live fid sh)) = K sh"
  by (simp add: require_live_def snd_and_then available_def case_prod_beta split: sum.split)

lemma K_introduce:
  "K sh \<Longrightarrow> K (snd (mint_cap rng fid sh))" "K sh \<Longrightarrow> K (snd (grant_cap rng h fid sh))"
  unfolding mint_cap_def grant_cap_def by (intro K_and_then; simp add: K_on_caps cs_mint)+

lemma K_host_relations:
  "K sh \<Longrightarrow> K (snd (host_monitor a b sh))" "K sh \<Longrightarrow> K (snd (host_demonitor a mon sh))"
  "K sh \<Longrightarrow> K (snd (host_link a b sh))" "K sh \<Longrightarrow> K (snd (host_unlink a lid sh))"
  unfolding host_monitor_def host_demonitor_def host_link_def host_unlink_def
  by (auto intro!: K_and_then simp: case_prod_beta K_deliver_down split: sum.split)

lemma K_host_names:
  "K sh \<Longrightarrow> K (snd (host_register_name nm c sh))" "K sh \<Longrightarrow> K (snd (host_whereis nm sh))" "K sh \<Longrightarrow> K (snd (host_unregister_name nm sh))"
  unfolding host_register_name_def host_whereis_def host_unregister_name_def
  by (auto intro!: K_and_then split: sum.split)

lemma K_request_kill: "K sh \<Longrightarrow> K (request_kill fid reason sh)"
  using K_extract [of sh fid reason] by (simp add: request_kill_def case_prod_beta K_finalize_flow split: option.split)

lemma K_host_kill: "K sh \<Longrightarrow> K (snd (host_kill fid sh))"
  unfolding host_kill_def by (intro K_and_then) (simp_all add: K_request_kill)

lemma K_admin:
  "K sh \<Longrightarrow> K (snd (admin_kill h c fid sh))" "K sh \<Longrightarrow> K (snd (admin_top_up f h c fid sh))"
  unfolding admin_kill_def admin_top_up_def
  by (auto intro!: K_and_then K_host_kill split: option.split)

lemma K_host_deliver: "K sh \<Longrightarrow> K (snd (host_deliver tg mb hop sh))"
  by (simp add: host_deliver_def Let_def case_prod_beta split: sum.split delivery.split option.split)

lemma K_runtime_send: "K sh \<Longrightarrow> K (snd (runtime_send rng tg hop sh))"
  by (auto simp: runtime_send_def K_authenticate_host intro!: K_and_then K_host_deliver split: option.split sum.split)

lemma K_shutdown: "K sh \<Longrightarrow> K (request_shutdown sh)"
proof -
  assume "K sh"
  then have "K (sh\<lparr>sh_shutdown := True, sh_timer := t\<rparr>)" for t by (rule K_view) (simp add: view_def)
  then show ?thesis by (simp add: request_shutdown_def timer_shutdown_def case_prod_beta)
qed

lemma K_name_child: "K sh \<Longrightarrow> K (snd (name_child rng fid nm sh))"
  by (simp add: name_child_def register_child_name_def case_prod_beta K_on_caps cs_mint split: sum.split lifecycle_error.split)

lemma K_spawn_child: "K (snd s) \<Longrightarrow> K (snd (snd (spawn_child rng spec s)))"
  by (simp add: spawn_child_def case_prod_beta K_spawn_on K_name_child K_request_kill split: sum.split)

lemma K_spawn_specs: "K (snd s) \<Longrightarrow> K (snd (spawn_specs rng specs s))"
  by (induction specs arbitrary: s) (simp_all add: K_spawn_child)

lemma K_finish_cascade: "K (snd s) \<Longrightarrow> K (snd (finish_cascade rng s))"
  by (simp add: finish_cascade_def case_prod_beta K_spawn_specs split: sum.split option.split)

lemma K_start_cascade: "K (snd s) \<Longrightarrow> K (snd (start_cascade rng spec idx later s))"
proof -
  assume "K (snd s)"
  then have "K (snd (snd (arm_cascade spec idx later s)))"
    by (simp add: arm_cascade_def case_prod_beta Let_def K_fold K_request_kill split: sum.split)
  then show ?thesis
    by (simp add: start_cascade_def prune_cascade_def case_prod_beta Let_def K_finish_cascade split: bool.split sum.split)
qed

lemma K_handle_exit: "K (snd s) \<Longrightarrow> K (snd (handle_exit rng ex s))"
proof -
  assume K: "K (snd s)"
  have "K (snd (snd (take_child fid s)))" for fid
    using K by (simp add: take_child_def case_prod_beta Let_def split: sum.split option.split)
  moreover have "K (snd t) \<Longrightarrow> K (snd (snd (restart_allowed t)))" for t
  proof -
    assume "K (snd t)"
    then have "K ((snd t)\<lparr>sh_reads := n\<rparr>)" for n by (rule K_view) (simp add: view_def)
    with \<open>K (snd t)\<close> show ?thesis
      by (simp add: restart_allowed_def intensity_hit_def instant_now_def case_prod_beta Let_def split: sum.split)
  qed
  moreover have "K (snd t) \<Longrightarrow> K (snd (on_cascade_progress rng fid t))" for fid t
    by (simp add: on_cascade_progress_def case_prod_beta Let_def K_finish_cascade split: sum.split option.split)
  moreover have "K (snd t) \<Longrightarrow> K (snd (restart_child rng spec idx later t))" for spec idx later t
    by (simp add: restart_child_def K_spawn_child K_start_cascade split: restart_strategy.split)
  ultimately show ?thesis
    by (simp add: handle_exit_def case_prod_beta split: option.split bool.split)
qed

lemma K_supervisor_turn: "K (snd s) \<Longrightarrow> K (snd (snd (supervisor_turn rng s)))"
proof -
  assume K: "K (snd s)"
  then have "K ((snd s)\<lparr>sh_sup_events := x\<rparr>)" for x by (rule K_view) (simp add: view_def)
  with K show ?thesis
    by (simp add: supervisor_turn_def case_prod_beta K_handle_exit split: sum.split list.split)
qed

end

section \<open>Reachable states\<close>

text \<open>One operation of the runtime. \<open>introduce\<close> says whether the host ever mints administrative capabilities; a supervisor's
  own state is arbitrary here, so the relation allows more than any supervisor does.\<close>

inductive runtime_step :: "'g getrandom \<Rightarrow> (bytes \<Rightarrow> string) \<Rightarrow> bool \<Rightarrow> 'g shared \<Rightarrow> 'g shared \<Rightarrow> bool" for rng dbg introduce where
  rs_worker: "worker_turn n rng dbg w sh = Some sh' \<Longrightarrow> runtime_step rng dbg introduce sh sh'"
| rs_timer: "runtime_step rng dbg introduce sh (snd (timer_turn sh))"
| rs_start_child: "runtime_step rng dbg introduce sh (snd (snd (spawn_child rng spec (sv, sh))))"
| rs_supervisor: "runtime_step rng dbg introduce sh (snd (snd (supervisor_turn rng (sv, sh))))"
| rs_spawn: "runtime_step rng dbg introduce sh (snd (spawn_on rng ch natives fn args policy spv None None sh))"
| rs_send: "runtime_step rng dbg introduce sh (snd (runtime_send rng target hop sh))"
| rs_mint: "runtime_step rng dbg introduce sh (snd (mint_cap rng fid sh))"
| rs_grant: "runtime_step rng dbg introduce sh (snd (grant_cap rng holder fid sh))"
| rs_monitor: "runtime_step rng dbg introduce sh (snd (host_monitor a b sh))"
| rs_demonitor: "runtime_step rng dbg introduce sh (snd (host_demonitor a mon sh))"
| rs_link: "runtime_step rng dbg introduce sh (snd (host_link a b sh))"
| rs_unlink: "runtime_step rng dbg introduce sh (snd (host_unlink a lid sh))"
| rs_register: "runtime_step rng dbg introduce sh (snd (host_register_name nm c sh))"
| rs_unregister: "runtime_step rng dbg introduce sh (snd (host_unregister_name nm sh))"
| rs_whereis: "runtime_step rng dbg introduce sh (snd (host_whereis nm sh))"
| rs_kill: "runtime_step rng dbg introduce sh (snd (host_kill fid sh))"
| rs_admin_kill: "runtime_step rng dbg introduce sh (snd (admin_kill holder c fid sh))"
| rs_top_up: "runtime_step rng dbg introduce sh (snd (admin_top_up f holder c fid sh))"
| rs_shutdown: "runtime_step rng dbg introduce sh (request_shutdown sh)"
| rs_admin: "introduce \<Longrightarrow> runtime_step rng dbg introduce sh (snd (mint_admin_cap rng holder sh))"

context table_invariant
begin

lemma K_runtime_step:
  assumes "runtime_step rng dbg introduce sh sh'" "K sh"
    and admin: "\<And>holder sh. introduce \<Longrightarrow> K sh \<Longrightarrow> K (snd (mint_admin_cap rng holder sh))"
  shows "K sh'"
  using assms(1, 2)
proof cases
  case (rs_worker n w)
  then show ?thesis using K_worker_turn assms(2) by blast
qed (simp_all add: K_timer_turn K_spawn_child K_supervisor_turn K_spawn_on K_runtime_send K_introduce K_host_relations
    K_host_names K_host_kill K_admin K_shutdown admin)

lemma K_reachable:
  assumes "(runtime_step rng dbg introduce)\<^sup>*\<^sup>* sh sh'" "K sh"
    and admin: "\<And>holder sh. introduce \<Longrightarrow> K sh \<Longrightarrow> K (snd (mint_admin_cap rng holder sh))"
  shows "K sh'"
  using assms(1, 2) by (induction rule: rtranclp_induct) (blast intro: K_runtime_step admin)+

end

subsection \<open>Privileges\<close>

lemma no_privilege_admin:
  assumes "\<not> contains ADMIN p" "no_privilege p (sh_caps sh)"
  shows "no_privilege p (sh_caps (snd (mint_admin_cap rng holder sh)))"
proof -
  obtain r sh1 where live: "require_live holder sh = (r, sh1)" by fastforce
  have same: "sh_caps sh1 = sh_caps sh"
    using live by (auto simp: require_live_def available_def and_then_def report_fault_def split: sum.splits)
  let ?c = "cap_root TScheduler ADMIN None (ct_cells (sh_caps sh) (ct_scheduler_cell (sh_caps sh)))"
  have "sh_caps (snd (mint_admin_cap rng holder sh)) = sh_caps sh \<or>
      sh_caps (snd (mint_admin_cap rng holder sh)) = snd (grant rng holder ?c (sh_caps sh))"
    using same by (auto simp: mint_admin_cap_def live snd_and_then Let_def available_def on_caps_def case_prod_beta report_fault_def
        split: sum.splits)
  moreover have "no_privilege p (snd (grant rng holder ?c (sh_caps sh)))"
    using assms grant_caps [of rng holder ?c "sh_caps sh"] by (auto simp: no_privilege_def cap_root_def)
  ultimately show ?thesis using assms(2) by auto
qed

text \<open>C8: no privilege comes from nowhere. In any runtime and after any run of workers, timers, supervisors and host
  operations, no capability in the table carries a right beyond addressing (administration, native calls, spawning,
  receiving), except administration where the host itself minted an administrative capability.\<close>

theorem privileges_come_from_the_host:
  assumes "with_natives_and_config os g clock ch natives cfg = Inr rt"
    and "(runtime_step rng dbg introduce)\<^sup>*\<^sup>* (rt_shared rt) sh"
    and "privileged p" and "introduce \<Longrightarrow> \<not> contains ADMIN p"
  shows "no_privilege p (sh_caps sh)"
proof (rule table_invariant.K_reachable [OF no_privilege_invariant [OF assms(3)] assms(2)])
  show "no_privilege p (sh_caps (rt_shared rt))"
    using assms(1) by (auto simp: with_natives_and_config_def bind_res_def Let_def shared_new_def no_privilege_def ct_caps_def
        cap_table_new_def split: sum.splits)
qed (use assms(4) no_privilege_admin in blast)

text \<open>A runtime for the idle chunk whose host mints an administrative capability for flow 1: the table still holds no
  right to call natives.\<close>

definition demo_runtime :: "nat runtime" where
  "demo_runtime = \<lparr>rt_shared = shared_new 1 10 config_default 0 quota_default 0 (\<lambda>_. 0), rt_chunk = idle_chunk, rt_natives = [],
     rt_workers = 1, rt_trust = Untrusted\<rparr>"

lemma demo_runtime_new:
  "with_natives_and_config (\<lambda>_. None) 0 (\<lambda>_. 0) idle_chunk []
     \<lparr>rc_workers = 1, rc_quantum = 10, rc_mailbox = config_default, rc_max_flows = 0, rc_trust = Untrusted, rc_quota = quota_default\<rparr> =
   Inr demo_runtime"
proof -
  have "verify_with idle_chunk \<lparr>vc_trust = Untrusted\<rparr> = Inr ()"
    by (simp add: verify_with_def idle_chunk_def verify_function_def verify_instruction_def instr_defs)
  then show ?thesis
    by (simp add: with_natives_and_config_def bind_res_def map_error_def demo_runtime_def Let_def numeral_2_eq_2)
qed

theorem privileges_come_from_the_host_witness:
  "no_privilege NATIVE (sh_caps (snd (mint_admin_cap counting_rng 1
     (snd (spawn_on counting_rng idle_chunk [] 0 [] Never None None None (rt_shared demo_runtime))))))"
proof (rule privileges_come_from_the_host [OF demo_runtime_new])
  show "(runtime_step counting_rng (\<lambda>_. []) True)\<^sup>*\<^sup>* (rt_shared demo_runtime) (snd (mint_admin_cap counting_rng 1
     (snd (spawn_on counting_rng idle_chunk [] 0 [] Never None None None (rt_shared demo_runtime)))))"
    by (rule rtranclp.rtrancl_into_rtrancl, rule r_into_rtranclp, rule rs_spawn, rule rs_admin) simp
qed (rule privileged_rights(2), simp add: contains_def rights_defs)

subsection \<open>Administration\<close>

text \<open>Administrative operations need an introduction. Where the host never minted an administrative capability, no
  flow can present one: every capability a flow offers is refused, so the operation changes nothing.\<close>

theorem administration_is_refused:
  assumes "with_natives_and_config os g clock ch natives cfg = Inr rt" and "(runtime_step rng dbg False)\<^sup>*\<^sup>* (rt_shared rt) sh"
  shows "admin_kill holder c target sh = (Inl InvalidCapability, sh) \<and> admin_top_up f holder c target sh = (Inl InvalidCapability, sh)"
proof -
  have start: "no_privilege ADMIN (sh_caps (rt_shared rt))"
    using assms(1) by (auto simp: with_natives_and_config_def bind_res_def Let_def shared_new_def no_privilege_def ct_caps_def
        cap_table_new_def split: sum.splits)
  have "no_privilege ADMIN (sh_caps sh)" by (rule admin.K_reachable [OF assms(2) start]) simp
  then have none: "resolve c holder ADMIN (sh_caps sh) \<noteq> Inr e" for e
    using resolve_iff [of c holder ADMIN "sh_caps sh" e] ct_caps_get by (auto simp: no_privilege_def)
  then have "require_admin holder c sh = Inl InvalidCapability"
    by (cases "resolve c holder ADMIN (sh_caps sh)") (auto simp: require_admin_def bind_res_def map_error_def dest: none [THEN notE])
  then show ?thesis by (simp add: admin_kill_def admin_top_up_def and_then_def)
qed

subsection \<open>Native calls\<close>

text \<open>C29: \<open>Opcode::Delegate\<close> never hands on native rights. The capability it takes the native mask from must carry the
  native right, and no capability in any reachable table does: naming one at all ends the flow with an error, whatever the
  flow holds.\<close>

theorem native_delegation_always_fails:
  assumes "with_natives_and_config os g clock ch natives cfg = Inr rt" and "(runtime_step rng dbg introduce)\<^sup>*\<^sup>* (rt_shared rt) sh"
  shows "\<exists>e. eff_delegate rng dest src_cap want_rights (Some native_cap) fl sh = fail_flow fl (cap_error_string e) sh"
proof -
  have start: "no_privilege NATIVE (sh_caps (rt_shared rt))"
    using assms(1) by (auto simp: with_natives_and_config_def bind_res_def Let_def shared_new_def no_privilege_def ct_caps_def
        cap_table_new_def split: sum.splits)
  have "\<not> contains ADMIN NATIVE" by (simp add: contains_def rights_defs)
  then have "no_privilege NATIVE (sh_caps sh)"
    by (intro native.K_reachable [OF assms(2) start] no_privilege_admin)
  then have "resolve native_cap (fl_id fl) NATIVE (sh_caps sh) \<noteq> Inr e" for e
    using resolve_iff [of native_cap "fl_id fl" NATIVE "sh_caps sh" e] ct_caps_get by (auto simp: no_privilege_def)
  then show ?thesis
    by (cases "resolve native_cap (fl_id fl) NATIVE (sh_caps sh)") (auto simp: eff_delegate_def or_fail_def bind_res_def)
qed

theorem administration_is_refused_witness:
  "admin_kill 1 7 1 (snd (spawn_on counting_rng idle_chunk [] 0 [] Never None None None (rt_shared demo_runtime))) =
     (Inl InvalidCapability, snd (spawn_on counting_rng idle_chunk [] 0 [] Never None None None (rt_shared demo_runtime)))"
proof -
  let ?sh = "snd (spawn_on counting_rng idle_chunk [] 0 [] Never None None None (rt_shared demo_runtime))"
  have "(runtime_step counting_rng (\<lambda>_. []) False)\<^sup>*\<^sup>* (rt_shared demo_runtime) ?sh"
    by (rule r_into_rtranclp, rule rs_spawn)
  from administration_is_refused [OF demo_runtime_new this] show ?thesis by blast
qed

theorem native_delegation_always_fails_witness:
  "\<exists>e. eff_delegate counting_rng 0 1 SEND (Some 1) (idle_flow 7) (rt_shared demo_runtime) =
     fail_flow (idle_flow 7) (cap_error_string e) (rt_shared demo_runtime)"
  by (rule native_delegation_always_fails [OF demo_runtime_new rtranclp.rtrancl_refl])

subsection \<open>The capability table\<close>

interpretation well_formed: table_invariant "\<lambda>sh. table_ok (sh_caps sh)" rng for rng
  by unfold_locales (auto simp: view_def caps_step_ok)

lemma admin_table_ok: "table_ok (sh_caps sh) \<Longrightarrow> table_ok (sh_caps (snd (mint_admin_cap rng holder sh)))"
proof -
  assume ok: "table_ok (sh_caps sh)"
  have "table_ok (sh_caps (snd (require_live holder sh)))" using ok by (simp add: well_formed.K_require_live)
  moreover have "table_ok t \<Longrightarrow> table_ok (snd (grant rng holder c t))" for c and t :: "'a cap_table"
    using ct_insert_ok [of t rng holder c] by (simp add: grant_def) (metis prod.collapse)
  ultimately show ?thesis
    by (auto simp: mint_admin_cap_def snd_and_then Let_def on_caps_def available_def case_prod_beta report_fault_def split: sum.splits)
qed

text \<open>C12: the capability table stays well-formed in every reachable state: ids are distinct and never the null one, no two
  flows share a revocation cell (nor the native or scheduler cell), and every reply capability on record is an entry that
  its holder holds on its target. So ids resolve to one entry each, revoking one flow cannot revoke another, and a reused
  reply capability never belongs to someone else.\<close>

theorem reachable_tables_are_well_formed:
  assumes "with_natives_and_config os g clock ch natives cfg = Inr rt"
    and "(runtime_step rng dbg introduce)\<^sup>*\<^sup>* (rt_shared rt) sh"
  shows "table_ok (sh_caps sh)"
proof (rule well_formed.K_reachable [OF assms(2)])
  show "table_ok (sh_caps (rt_shared rt))"
    using assms(1) by (auto simp: with_natives_and_config_def bind_res_def Let_def shared_new_def cap_table_new_ok split: sum.splits)
qed (rule admin_table_ok)

theorem reachable_tables_are_well_formed_witness:
  "table_ok (sh_caps (snd (spawn_on counting_rng idle_chunk [] 0 [] Never None None None (rt_shared demo_runtime))))"
proof (rule reachable_tables_are_well_formed [OF demo_runtime_new])
  show "(runtime_step counting_rng (\<lambda>_. []) False)\<^sup>*\<^sup>* (rt_shared demo_runtime)
    (snd (spawn_on counting_rng idle_chunk [] 0 [] Never None None None (rt_shared demo_runtime)))"
    by (rule r_into_rtranclp, rule rs_spawn)
qed

end
