(* ===== verification/BF_Program.thy ===== *)
theory BF_Program
  imports BF_Builder
begin

text \<open>
  \<open>bytecode/program.rs\<close>: the program API over the chunk builder. A \<open>Fn\<close> borrows the builder for the length of one
  function: its record carries the builder, and a body is a function on it. A method that returns a register returns it
  beside the new state. \<open>bind_reg\<close> and \<open>then_do\<close> sequence the methods of a body as the statements of a closure.
\<close>

section \<open>Registers and functions\<close>

type_synonym reg = u8

record reg_window =
  rw_base :: reg
  rw_len :: u8

definition u8_sat_add :: "u8 \<Rightarrow> u8 \<Rightarrow> u8" where
  "u8_sat_add a b = (if unat a + unat b < 256 then a + b else 255)"

text \<open>The index is checked in debug builds only.\<close>

definition window_at :: "reg_window \<Rightarrow> u8 \<Rightarrow> reg" where
  "window_at w i = u8_sat_add (rw_base w) i"

record fn_ctx =
  fc_b :: builder
  fc_function :: u32
  fc_next_reg :: u8
  fc_scratch :: "reg option"

definition fn_open_with :: "bytes \<Rightarrow> u8 \<Rightarrow> u8 \<Rightarrow> builder \<Rightarrow> fn_ctx" where
  "fn_open_with nm arity num_registers b =
     (case begin_function nm arity num_registers b of
        (idx, b) \<Rightarrow> \<lparr>fc_b = b, fc_function = idx, fc_next_reg = num_registers, fc_scratch = None\<rparr>)"

definition fn_open :: "bytes \<Rightarrow> u8 \<Rightarrow> builder \<Rightarrow> fn_ctx" where
  "fn_open nm arity b = fn_open_with nm arity (max arity 4) b"

definition program_new :: "bytes \<Rightarrow> builder" where
  "program_new nm = builder_new nm"

text \<open>\<open>let id = f.function; body(&mut f); id\<close>\<close>

definition run_body :: "(fn_ctx \<Rightarrow> fn_ctx) \<Rightarrow> fn_ctx \<Rightarrow> u32 \<times> builder" where
  "run_body body f = (fc_function f, fc_b (body f))"

definition program_function :: "bytes \<Rightarrow> u8 \<Rightarrow> (fn_ctx \<Rightarrow> fn_ctx) \<Rightarrow> builder \<Rightarrow> u32 \<times> builder" where
  "program_function nm arity body b = run_body body (fn_open nm arity b)"

definition program_function_raw :: "bytes \<Rightarrow> u8 \<Rightarrow> u8 \<Rightarrow> (fn_ctx \<Rightarrow> fn_ctx) \<Rightarrow> builder \<Rightarrow> u32 \<times> builder" where
  "program_function_raw nm arity num_registers body b = run_body body (fn_open_with nm arity num_registers b)"

text \<open>\<open>let id = p.function(name, arity, |f| ...); ...\<close>\<close>

definition then_function :: "bytes \<Rightarrow> u8 \<Rightarrow> (fn_ctx \<Rightarrow> fn_ctx) \<Rightarrow> (u32 \<Rightarrow> builder \<Rightarrow> 'a) \<Rightarrow> builder \<Rightarrow> 'a" where
  "then_function nm arity body k b = (case program_function nm arity body b of (i, b) \<Rightarrow> k i b)"

definition program_function_index :: "bytes \<Rightarrow> builder \<Rightarrow> u32 option" where
  "program_function_index nm b = function_index nm b"

definition program_build :: "builder \<Rightarrow> chunk" where
  "program_build b = finish b"

section \<open>Statements\<close>

definition on_builder :: "(builder \<Rightarrow> builder) \<Rightarrow> fn_ctx \<Rightarrow> fn_ctx" where
  "on_builder g f = f\<lparr>fc_b := g (fc_b f)\<rparr>"

definition bind_reg :: "(fn_ctx \<Rightarrow> 'a \<times> fn_ctx) \<Rightarrow> ('a \<Rightarrow> fn_ctx \<Rightarrow> 'b) \<Rightarrow> fn_ctx \<Rightarrow> 'b" where
  "bind_reg m k f = (case m f of (r, f) \<Rightarrow> k r f)"

definition then_do :: "(fn_ctx \<Rightarrow> fn_ctx) \<Rightarrow> (fn_ctx \<Rightarrow> 'b) \<Rightarrow> fn_ctx \<Rightarrow> 'b" where
  "then_do m k f = k (m f)"

definition give :: "'a \<Rightarrow> fn_ctx \<Rightarrow> 'a \<times> fn_ctx" where
  "give r f = (r, f)"

section \<open>Locals\<close>

definition fn_local :: "fn_ctx \<Rightarrow> reg \<times> fn_ctx" where
  "fn_local f =
     (let r = fc_next_reg f; n = u8_sat_add r 1 in
      (r, f\<lparr>fc_next_reg := n, fc_b := set_num_registers (fc_function f) n (fc_b f)\<rparr>))"

definition fn_reg :: "u8 \<Rightarrow> fn_ctx \<Rightarrow> reg \<times> fn_ctx" where
  "fn_reg i f = (i, f)"

definition fn_reserve :: "u8 \<Rightarrow> fn_ctx \<Rightarrow> fn_ctx" where
  "fn_reserve count f =
     (if fc_next_reg f < count
      then f\<lparr>fc_next_reg := count, fc_b := set_num_registers (fc_function f) count (fc_b f)\<rparr> else f)"

fun fn_locals :: "nat \<Rightarrow> fn_ctx \<Rightarrow> fn_ctx" where
  "fn_locals 0 f = f"
| "fn_locals (Suc n) f = fn_locals n (snd (fn_local f))"

definition fn_window :: "u8 \<Rightarrow> fn_ctx \<Rightarrow> reg_window \<times> fn_ctx" where
  "fn_window count f = (\<lparr>rw_base = fc_next_reg f, rw_len = count\<rparr>, fn_locals (unat count) f)"

definition fn_temp :: "fn_ctx \<Rightarrow> reg \<times> fn_ctx" where
  "fn_temp f =
     (case fc_scratch f of
        Some r \<Rightarrow> (r, f)
      | None \<Rightarrow> (case fn_local f of (r, f) \<Rightarrow> (r, f\<lparr>fc_scratch := Some r\<rparr>)))"

text \<open>A fresh local and an instruction that writes it.\<close>

definition into_local :: "(reg \<Rightarrow> builder \<Rightarrow> builder) \<Rightarrow> fn_ctx \<Rightarrow> reg \<times> fn_ctx" where
  "into_local g = bind_reg fn_local (\<lambda>dst. then_do (on_builder (g dst)) (give dst))"

section \<open>Values and arithmetic\<close>

definition fn_load_i32 :: "i32 \<Rightarrow> fn_ctx \<Rightarrow> reg \<times> fn_ctx" where
  "fn_load_i32 n = into_local (\<lambda>r. emit_load_imm r n)"

definition fn_load_const :: "value \<Rightarrow> fn_ctx \<Rightarrow> reg \<times> fn_ctx" where
  "fn_load_const v f =
     (case const_idx v (fc_b f) of (k, b) \<Rightarrow> into_local (\<lambda>r. emit_load_const r k) (f\<lparr>fc_b := b\<rparr>))"

definition fn_load_int :: "i64 \<Rightarrow> fn_ctx \<Rightarrow> reg \<times> fn_ctx" where
  "fn_load_int n = fn_load_const (VInt n)"

text \<open>\<open>a\<close> is the allocation the string constant lives in.\<close>

definition fn_load_str :: "nat \<Rightarrow> bytes \<Rightarrow> fn_ctx \<Rightarrow> reg \<times> fn_ctx" where
  "fn_load_str a s = fn_load_const (VStr a s)"

definition fn_set :: "reg \<Rightarrow> i32 \<Rightarrow> fn_ctx \<Rightarrow> fn_ctx" where
  "fn_set r imm = on_builder (emit_load_imm r imm)"

definition fn_mov :: "reg \<Rightarrow> reg \<Rightarrow> fn_ctx \<Rightarrow> fn_ctx" where
  "fn_mov dst src = on_builder (emit_move dst src)"

definition fn_binop :: "opcode \<Rightarrow> reg \<Rightarrow> reg \<Rightarrow> fn_ctx \<Rightarrow> reg \<times> fn_ctx" where
  "fn_binop bop lhs rhs = into_local (\<lambda>dst. emit_binop bop dst lhs rhs)"

definition fn_binop_imm :: "opcode \<Rightarrow> reg \<Rightarrow> i32 \<Rightarrow> fn_ctx \<Rightarrow> reg \<times> fn_ctx" where
  "fn_binop_imm bop lhs imm = bind_reg fn_temp (\<lambda>rhs. then_do (on_builder (emit_load_imm rhs imm)) (fn_binop bop lhs rhs))"

definition fn_add_imm :: "reg \<Rightarrow> i32 \<Rightarrow> fn_ctx \<Rightarrow> fn_ctx" where
  "fn_add_imm dst imm = bind_reg fn_temp (\<lambda>tmp. then_do (on_builder (emit_load_imm tmp imm)) (on_builder (emit_binop Add dst dst tmp)))"

definition fn_add :: "reg \<Rightarrow> reg \<Rightarrow> fn_ctx \<Rightarrow> reg \<times> fn_ctx" where
  "fn_add lhs rhs = fn_binop Add lhs rhs"

definition fn_sub :: "reg \<Rightarrow> reg \<Rightarrow> fn_ctx \<Rightarrow> reg \<times> fn_ctx" where
  "fn_sub lhs rhs = fn_binop Sub lhs rhs"

definition fn_mul :: "reg \<Rightarrow> reg \<Rightarrow> fn_ctx \<Rightarrow> reg \<times> fn_ctx" where
  "fn_mul lhs rhs = fn_binop Mul lhs rhs"

definition fn_div :: "reg \<Rightarrow> reg \<Rightarrow> fn_ctx \<Rightarrow> reg \<times> fn_ctx" where
  "fn_div lhs rhs = fn_binop Div lhs rhs"

definition fn_modulo :: "reg \<Rightarrow> reg \<Rightarrow> fn_ctx \<Rightarrow> reg \<times> fn_ctx" where
  "fn_modulo lhs rhs = fn_binop Mod lhs rhs"

definition fn_eq :: "reg \<Rightarrow> reg \<Rightarrow> fn_ctx \<Rightarrow> reg \<times> fn_ctx" where
  "fn_eq lhs rhs = fn_binop Eq lhs rhs"

definition fn_lt :: "reg \<Rightarrow> reg \<Rightarrow> fn_ctx \<Rightarrow> reg \<times> fn_ctx" where
  "fn_lt lhs rhs = fn_binop Lt lhs rhs"

definition fn_le :: "reg \<Rightarrow> reg \<Rightarrow> fn_ctx \<Rightarrow> reg \<times> fn_ctx" where
  "fn_le lhs rhs = fn_binop Le lhs rhs"

definition fn_neg :: "reg \<Rightarrow> fn_ctx \<Rightarrow> reg \<times> fn_ctx" where
  "fn_neg src = into_local (\<lambda>dst. emit_neg dst src)"

definition fn_eq_imm :: "reg \<Rightarrow> i32 \<Rightarrow> fn_ctx \<Rightarrow> reg \<times> fn_ctx" where
  "fn_eq_imm lhs imm = fn_binop_imm Eq lhs imm"

section \<open>Control flow\<close>

definition fn_label :: "fn_ctx \<Rightarrow> label \<times> fn_ctx" where
  "fn_label f = (case new_label (fc_b f) of (l, b) \<Rightarrow> (l, f\<lparr>fc_b := b\<rparr>))"

definition fn_bind :: "label \<Rightarrow> fn_ctx \<Rightarrow> fn_ctx" where
  "fn_bind l = on_builder (bind_label l)"

definition fn_jump :: "label \<Rightarrow> fn_ctx \<Rightarrow> fn_ctx" where
  "fn_jump l = on_builder (emit_jump l)"

definition fn_branch_if_falsy :: "reg \<Rightarrow> label \<Rightarrow> fn_ctx \<Rightarrow> fn_ctx" where
  "fn_branch_if_falsy c l = on_builder (emit_branch c l)"

definition fn_while_lt :: "reg \<Rightarrow> reg \<Rightarrow> (fn_ctx \<Rightarrow> fn_ctx) \<Rightarrow> fn_ctx \<Rightarrow> fn_ctx" where
  "fn_while_lt counter limit body =
     bind_reg fn_label (\<lambda>head. bind_reg fn_label (\<lambda>exit_l. bind_reg fn_local (\<lambda>c.
     then_do (on_builder (bind_label head))
    (then_do (on_builder (emit_binop Lt c counter limit))
    (then_do (on_builder (emit_branch c exit_l))
    (then_do body
    (then_do (on_builder (emit_jump head))
             (on_builder (bind_label exit_l)))))))))"

definition fn_return :: "reg \<Rightarrow> fn_ctx \<Rightarrow> fn_ctx" where
  "fn_return r = on_builder (emit_return r)"

definition fn_halt :: "fn_ctx \<Rightarrow> fn_ctx" where
  "fn_halt = on_builder emit_halt"

definition fn_yield :: "fn_ctx \<Rightarrow> fn_ctx" where
  "fn_yield = on_builder emit_yield"

definition fn_sleep :: "reg \<Rightarrow> fn_ctx \<Rightarrow> fn_ctx" where
  "fn_sleep r = on_builder (emit_sleep r)"

definition fn_exit :: "reg \<Rightarrow> fn_ctx \<Rightarrow> fn_ctx" where
  "fn_exit r = on_builder (emit_exit r)"

definition fn_trap :: "i32 \<Rightarrow> fn_ctx \<Rightarrow> fn_ctx" where
  "fn_trap code = on_builder (emit_trap code)"

definition fn_call :: "u32 \<Rightarrow> u8 \<Rightarrow> fn_ctx \<Rightarrow> reg \<times> fn_ctx" where
  "fn_call function argc = into_local (\<lambda>dst. emit_call dst function argc)"

section \<open>Flows and hops\<close>

definition fn_self_cap :: "fn_ctx \<Rightarrow> reg \<times> fn_ctx" where
  "fn_self_cap = into_local emit_self_pid"

definition fn_self_address :: "fn_ctx \<Rightarrow> reg \<times> fn_ctx" where
  "fn_self_address = fn_self_cap"

definition fn_spawn_with_rights :: "u32 \<Rightarrow> u8 \<Rightarrow> cap_rights \<Rightarrow> fn_ctx \<Rightarrow> reg \<times> fn_ctx" where
  "fn_spawn_with_rights function argc rights = into_local (\<lambda>dst. emit_spawn_with_rights dst function argc rights)"

definition fn_spawn :: "u32 \<Rightarrow> u8 \<Rightarrow> fn_ctx \<Rightarrow> reg \<times> fn_ctx" where
  "fn_spawn function argc = fn_spawn_with_rights function argc FLOW"

definition fn_spawn_confined :: "u32 \<Rightarrow> u8 \<Rightarrow> fn_ctx \<Rightarrow> reg \<times> fn_ctx" where
  "fn_spawn_confined function argc = fn_spawn_with_rights function argc NONE"

definition fn_spawn_at :: "reg \<Rightarrow> u32 \<Rightarrow> u8 \<Rightarrow> fn_ctx \<Rightarrow> fn_ctx" where
  "fn_spawn_at dst function argc = on_builder (emit_spawn dst function argc)"

definition fn_delegate :: "reg \<Rightarrow> cap_rights \<Rightarrow> fn_ctx \<Rightarrow> reg \<times> fn_ctx" where
  "fn_delegate src rights = into_local (\<lambda>dst. emit_delegate dst src rights)"

definition fn_send :: "reg \<Rightarrow> reg \<Rightarrow> fn_ctx \<Rightarrow> fn_ctx" where
  "fn_send target_cap msg = on_builder (emit_send target_cap msg)"

definition fn_receive :: "fn_ctx \<Rightarrow> reg \<times> fn_ctx" where
  "fn_receive = into_local emit_receive"

definition fn_receive_timeout :: "reg \<Rightarrow> fn_ctx \<Rightarrow> reg \<times> fn_ctx" where
  "fn_receive_timeout millis = into_local (\<lambda>dst. emit_receive_timeout dst millis)"

definition fn_receive_match :: "reg \<Rightarrow> fn_ctx \<Rightarrow> reg \<times> fn_ctx" where
  "fn_receive_match tg = into_local (\<lambda>dst. emit_receive_match dst tg)"

definition fn_receive_match_imm :: "u16 \<Rightarrow> fn_ctx \<Rightarrow> reg \<times> fn_ctx" where
  "fn_receive_match_imm tg = into_local (\<lambda>dst. emit_receive_match_imm dst tg)"

definition fn_fresh_request_id :: "fn_ctx \<Rightarrow> reg \<times> fn_ctx" where
  "fn_fresh_request_id = into_local emit_fresh_request_id"

definition fn_receive_match_corr :: "reg \<Rightarrow> reg \<Rightarrow> fn_ctx \<Rightarrow> reg \<times> fn_ctx" where
  "fn_receive_match_corr tg rid = into_local (\<lambda>dst. emit_receive_match_corr dst tg rid)"

definition fn_receive_match_corr_imm :: "u16 \<Rightarrow> reg \<Rightarrow> fn_ctx \<Rightarrow> reg \<times> fn_ctx" where
  "fn_receive_match_corr_imm tg rid = into_local (\<lambda>dst. emit_receive_match_corr_imm dst tg rid)"

definition fn_ask :: "reg \<Rightarrow> reg \<Rightarrow> fn_ctx \<Rightarrow> reg \<times> fn_ctx" where
  "fn_ask target_cap msg = into_local (\<lambda>dst. emit_ask dst target_cap msg)"

definition fn_ask_timeout :: "reg \<Rightarrow> reg \<Rightarrow> reg \<Rightarrow> fn_ctx \<Rightarrow> reg \<times> fn_ctx" where
  "fn_ask_timeout target_cap msg millis = into_local (\<lambda>dst. emit_ask_timeout dst target_cap msg millis)"

definition fn_monitor :: "reg \<Rightarrow> fn_ctx \<Rightarrow> reg \<times> fn_ctx" where
  "fn_monitor target_cap = into_local (\<lambda>dst. emit_monitor dst target_cap)"

definition fn_demonitor :: "reg \<Rightarrow> fn_ctx \<Rightarrow> fn_ctx" where
  "fn_demonitor mon = on_builder (emit_demonitor mon)"

definition fn_link :: "reg \<Rightarrow> fn_ctx \<Rightarrow> reg \<times> fn_ctx" where
  "fn_link target_cap = into_local (\<lambda>dst. emit_link dst target_cap)"

definition fn_unlink :: "reg \<Rightarrow> fn_ctx \<Rightarrow> fn_ctx" where
  "fn_unlink lnk = on_builder (emit_unlink lnk)"

definition fn_register_name :: "reg \<Rightarrow> fn_ctx \<Rightarrow> fn_ctx" where
  "fn_register_name nm = on_builder (emit_register_name nm)"

definition fn_whereis :: "reg \<Rightarrow> fn_ctx \<Rightarrow> reg \<times> fn_ctx" where
  "fn_whereis nm = into_local (\<lambda>dst. emit_whereis dst nm)"

section \<open>Natives\<close>

text \<open>\<open>std_native\<close>: the slots of the standard natives.\<close>

definition N_PRINT :: u32 where "N_PRINT = 0"
definition N_NOW_MS :: u32 where "N_NOW_MS = 1"
definition N_MAKE_MSG :: u32 where "N_MAKE_MSG = 2"
definition N_MSG_SENDER :: u32 where "N_MSG_SENDER = 3"
definition N_MSG_REQUEST_ID :: u32 where "N_MSG_REQUEST_ID = 4"
definition N_MSG_TAG :: u32 where "N_MSG_TAG = 5"
definition N_MSG_PAYLOAD :: u32 where "N_MSG_PAYLOAD = 6"
definition N_MSG_REPLY_CAP :: u32 where "N_MSG_REPLY_CAP = 7"

lemmas native_slots = N_PRINT_def N_NOW_MS_def N_MAKE_MSG_def N_MSG_SENDER_def N_MSG_REQUEST_ID_def N_MSG_TAG_def N_MSG_PAYLOAD_def N_MSG_REPLY_CAP_def

definition fn_native1_from :: "reg \<Rightarrow> u32 \<Rightarrow> fn_ctx \<Rightarrow> reg \<times> fn_ctx" where
  "fn_native1_from src native = into_local (\<lambda>dst. emit_native1_from dst src native)"

definition fn_native1_on :: "reg \<Rightarrow> u32 \<Rightarrow> fn_ctx \<Rightarrow> fn_ctx" where
  "fn_native1_on src native f = snd (fn_native1_from src native f)"

definition fn_native_n :: "reg \<Rightarrow> u32 \<Rightarrow> u8 \<Rightarrow> fn_ctx \<Rightarrow> fn_ctx" where
  "fn_native_n base native argc = on_builder (emit_native_n base native argc)"

definition fn_call_native :: "reg \<Rightarrow> u32 \<Rightarrow> u8 \<Rightarrow> fn_ctx \<Rightarrow> fn_ctx" where
  "fn_call_native base native argc = fn_native_n base native argc"

definition fn_call_native0 :: "u32 \<Rightarrow> fn_ctx \<Rightarrow> reg \<times> fn_ctx" where
  "fn_call_native0 native = into_local (\<lambda>dst. emit_call_native dst native 0)"

definition fn_make_msg :: "u32 \<Rightarrow> reg \<Rightarrow> i32 \<Rightarrow> reg \<Rightarrow> fn_ctx \<Rightarrow> reg \<times> fn_ctx" where
  "fn_make_msg native request_id tg payload =
     bind_reg (fn_window 3) (\<lambda>w.
     then_do (fn_mov (window_at w 0) request_id)
    (then_do (fn_set (window_at w 1) tg)
    (then_do (fn_mov (window_at w 2) payload)
    (then_do (fn_native_n (rw_base w) native 3)
             (give (rw_base w))))))"

definition fn_make_msg_legacy_sender :: "u32 \<Rightarrow> reg \<Rightarrow> reg \<Rightarrow> i32 \<Rightarrow> reg \<Rightarrow> fn_ctx \<Rightarrow> reg \<times> fn_ctx" where
  "fn_make_msg_legacy_sender native sender request_id tg payload =
     bind_reg (fn_window 4) (\<lambda>w.
     then_do (fn_mov (window_at w 0) sender)
    (then_do (fn_mov (window_at w 1) request_id)
    (then_do (fn_set (window_at w 2) tg)
    (then_do (fn_mov (window_at w 3) payload)
    (then_do (fn_native_n (rw_base w) native 4)
             (give (rw_base w)))))))"

definition fn_hop :: "reg \<Rightarrow> i32 \<Rightarrow> reg \<Rightarrow> fn_ctx \<Rightarrow> reg \<times> fn_ctx" where
  "fn_hop request_id tg payload = fn_make_msg N_MAKE_MSG request_id tg payload"

definition fn_hop_fresh :: "i32 \<Rightarrow> reg \<Rightarrow> fn_ctx \<Rightarrow> reg \<times> fn_ctx" where
  "fn_hop_fresh tg payload = bind_reg fn_fresh_request_id (\<lambda>rid. fn_hop rid tg payload)"

definition fn_hop_sender :: "reg \<Rightarrow> fn_ctx \<Rightarrow> reg \<times> fn_ctx" where
  "fn_hop_sender msg = fn_native1_from msg N_MSG_SENDER"

definition fn_hop_request_id :: "reg \<Rightarrow> fn_ctx \<Rightarrow> reg \<times> fn_ctx" where
  "fn_hop_request_id msg = fn_native1_from msg N_MSG_REQUEST_ID"

definition fn_hop_tag :: "reg \<Rightarrow> fn_ctx \<Rightarrow> reg \<times> fn_ctx" where
  "fn_hop_tag msg = fn_native1_from msg N_MSG_TAG"

definition fn_hop_payload :: "reg \<Rightarrow> fn_ctx \<Rightarrow> reg \<times> fn_ctx" where
  "fn_hop_payload msg = fn_native1_from msg N_MSG_PAYLOAD"

definition fn_hop_reply_cap :: "reg \<Rightarrow> fn_ctx \<Rightarrow> reg \<times> fn_ctx" where
  "fn_hop_reply_cap msg = fn_native1_from msg N_MSG_REPLY_CAP"

definition fn_reply_to :: "reg \<Rightarrow> i32 \<Rightarrow> reg \<Rightarrow> fn_ctx \<Rightarrow> reg \<times> fn_ctx" where
  "fn_reply_to req tg payload = bind_reg (fn_hop_request_id req) (\<lambda>rid. fn_hop rid tg payload)"

definition fn_send_reply :: "reg \<Rightarrow> i32 \<Rightarrow> reg \<Rightarrow> fn_ctx \<Rightarrow> fn_ctx" where
  "fn_send_reply req tg payload =
     bind_reg (fn_hop_reply_cap req) (\<lambda>c. bind_reg (fn_reply_to req tg payload) (\<lambda>reply. fn_send c reply))"

end
