(* ===== verification/BF_Samples.thy ===== *)
theory BF_Samples
  imports BF_Program
begin

text \<open>
  \<open>samples.rs\<close>: the demonstration chunks, written with the program API statement by statement. A literal of the source is ASCII, so its UTF-8 bytes are its character codes.
\<close>

section \<open>The chunks\<close>

definition utf8 :: "string \<Rightarrow> bytes" where
  "utf8 s = map (\<lambda>c. word_of_nat (of_char c)) s"

definition TAG_REQ :: i32 where "TAG_REQ = 1"
definition TAG_REP :: i32 where "TAG_REP = 2"
definition TAG_PING :: i32 where "TAG_PING = 10"
definition TAG_PONG :: i32 where "TAG_PONG = 11"
definition TAG_JUNK :: i32 where "TAG_JUNK = 99"

definition add_forty_two :: chunk where
  "add_forty_two =
     then_function (utf8 ''main'') 0 (
        bind_reg (fn_load_i32 41) (\<lambda>a.
        bind_reg (fn_load_i32 1) (\<lambda>b.
        bind_reg (fn_add a b) (\<lambda>sum_r.
        fn_return sum_r)))) (\<lambda>_.
      program_build) (program_new (utf8 ''add-forty-two''))"

definition ping_pong :: chunk where
  "ping_pong =
     then_function (utf8 ''pong'') 0 (
        bind_reg (fn_receive) (\<lambda>msg.
        bind_reg (fn_hop_payload msg) (\<lambda>payload.
        then_do (fn_add_imm payload 1) (
        then_do (fn_send_reply msg TAG_PONG payload) (
        fn_exit payload))))) (\<lambda>pong.
      then_function (utf8 ''main'') 0 (
        bind_reg (fn_spawn pong 0) (\<lambda>child.
        bind_reg (fn_load_i32 1) (\<lambda>payload.
        bind_reg (fn_hop_fresh TAG_PING payload) (\<lambda>req.
        bind_reg (fn_hop_request_id req) (\<lambda>rid.
        then_do (fn_send child req) (
        bind_reg (fn_receive_match_corr_imm (ucast TAG_PONG) rid) (\<lambda>reply.
        bind_reg (fn_hop_payload reply) (\<lambda>out.
        fn_return out)))))))) (\<lambda>_.
      program_build)) (program_new (utf8 ''ping-pong''))"

definition atomic_request_reply :: chunk where
  "atomic_request_reply =
     then_function (utf8 ''server'') 0 (
        bind_reg (fn_receive) (\<lambda>msg.
        then_do (fn_native1_on msg N_PRINT) (
        bind_reg (fn_hop_payload msg) (\<lambda>payload.
        then_do (fn_add_imm payload 1) (
        then_do (fn_send_reply msg TAG_REP payload) (
        fn_exit payload)))))) (\<lambda>server.
      then_function (utf8 ''main'') 0 (
        bind_reg (fn_spawn server 0) (\<lambda>server_cap.
        bind_reg (fn_load_i32 41) (\<lambda>payload.
        bind_reg (fn_hop_fresh TAG_REQ payload) (\<lambda>req.
        bind_reg (fn_hop_request_id req) (\<lambda>rid.
        then_do (fn_native1_on req N_PRINT) (
        then_do (fn_send server_cap req) (
        bind_reg (fn_receive_match_corr_imm (ucast TAG_REP) rid) (\<lambda>reply.
        then_do (fn_native1_on reply N_PRINT) (
        bind_reg (fn_hop_payload reply) (\<lambda>out.
        fn_return out)))))))))) (\<lambda>_.
      program_build)) (program_new (utf8 ''atomic-request-reply''))"

definition selective_receive :: chunk where
  "selective_receive =
     then_function (utf8 ''server'') 0 (
        bind_reg (fn_receive_match_imm (ucast TAG_REQ)) (\<lambda>msg.
        bind_reg (fn_hop_payload msg) (\<lambda>payload.
        then_do (fn_add_imm payload 1) (
        then_do (fn_send_reply msg TAG_REP payload) (
        bind_reg (fn_receive) (\<lambda>junk.
        bind_reg (fn_hop_tag junk) (\<lambda>tg.
        bind_reg (fn_eq_imm tg TAG_JUNK) (\<lambda>is_junk.
        bind_reg (fn_label) (\<lambda>trap_lbl.
        then_do (fn_branch_if_falsy is_junk trap_lbl) (
        then_do (fn_exit payload) (
        then_do (fn_bind trap_lbl) (
        fn_trap 2)))))))))))) (\<lambda>server.
      then_function (utf8 ''main'') 0 (
        bind_reg (fn_spawn server 0) (\<lambda>server_cap.
        bind_reg (fn_load_i32 1) (\<lambda>req_id.
        bind_reg (fn_load_i32 0) (\<lambda>zero.
        bind_reg (fn_hop req_id TAG_JUNK zero) (\<lambda>junk.
        then_do (fn_send server_cap junk) (
        bind_reg (fn_load_i32 41) (\<lambda>payload.
        bind_reg (fn_hop req_id TAG_REQ payload) (\<lambda>req.
        then_do (fn_send server_cap req) (
        bind_reg (fn_receive_match_imm (ucast TAG_REP)) (\<lambda>reply.
        bind_reg (fn_hop_payload reply) (\<lambda>out.
        fn_return out))))))))))) (\<lambda>_.
      program_build)) (program_new (utf8 ''selective-receive''))"

definition ask_reply :: chunk where
  "ask_reply =
     then_function (utf8 ''server'') 0 (
        bind_reg (fn_receive_match_imm (ucast TAG_REQ)) (\<lambda>msg.
        bind_reg (fn_hop_payload msg) (\<lambda>payload.
        then_do (fn_add_imm payload 1) (
        then_do (fn_send_reply msg TAG_REP payload) (
        fn_exit payload))))) (\<lambda>server.
      then_function (utf8 ''main'') 0 (
        bind_reg (fn_spawn server 0) (\<lambda>server_cap.
        bind_reg (fn_load_i32 41) (\<lambda>payload.
        bind_reg (fn_hop_fresh TAG_REQ payload) (\<lambda>req.
        bind_reg (fn_ask server_cap req) (\<lambda>reply.
        bind_reg (fn_hop_payload reply) (\<lambda>out.
        fn_return out)))))) (\<lambda>_.
      program_build)) (program_new (utf8 ''ask-reply''))"

definition ask_timeout_expires :: chunk where
  "ask_timeout_expires =
     then_function (utf8 ''server'') 0 (
        bind_reg (fn_receive) (\<lambda>_.
        bind_reg (fn_load_i32 10000) (\<lambda>ms.
        then_do (fn_sleep ms) (
        bind_reg (fn_load_i32 0) (\<lambda>zero.
        fn_return zero))))) (\<lambda>server.
      then_function (utf8 ''main'') 0 (
        bind_reg (fn_spawn server 0) (\<lambda>server_cap.
        bind_reg (fn_load_i32 1) (\<lambda>req_id.
        bind_reg (fn_load_i32 0) (\<lambda>payload.
        bind_reg (fn_hop req_id TAG_REQ payload) (\<lambda>req.
        bind_reg (fn_load_i32 40) (\<lambda>ms.
        bind_reg (fn_ask_timeout server_cap req ms) (\<lambda>reply.
        fn_return reply))))))) (\<lambda>_.
      program_build)) (program_new (utf8 ''ask-timeout''))"

definition ask_target_exits :: chunk where
  "ask_target_exits =
     then_function (utf8 ''server'') 0 (
        bind_reg (fn_receive) (\<lambda>_.
        bind_reg (fn_load_i32 0) (\<lambda>z.
        fn_return z))) (\<lambda>server.
      then_function (utf8 ''main'') 0 (
        bind_reg (fn_spawn server 0) (\<lambda>server_cap.
        bind_reg (fn_load_i32 1) (\<lambda>req_id.
        bind_reg (fn_load_i32 0) (\<lambda>payload.
        bind_reg (fn_hop req_id TAG_REQ payload) (\<lambda>req.
        bind_reg (fn_ask server_cap req) (\<lambda>reply.
        bind_reg (fn_hop_tag reply) (\<lambda>tg.
        fn_return tg))))))) (\<lambda>_.
      program_build)) (program_new (utf8 ''ask-target-exits''))"

definition server_loop :: chunk where
  "server_loop =
     then_function (utf8 ''server'') 0 (
        bind_reg (fn_label) (\<lambda>loop_lbl.
        then_do (fn_bind loop_lbl) (
        bind_reg (fn_receive_match_imm (ucast TAG_REQ)) (\<lambda>req.
        bind_reg (fn_hop_payload req) (\<lambda>payload.
        then_do (fn_add_imm payload 1) (
        then_do (fn_send_reply req TAG_REP payload) (
        fn_jump loop_lbl))))))) (\<lambda>server.
      then_function (utf8 ''main'') 0 (
        bind_reg (fn_spawn server 0) (\<lambda>server_cap.
        bind_reg (fn_load_i32 41) (\<lambda>payload.
        bind_reg (fn_hop_fresh TAG_REQ payload) (\<lambda>req.
        then_do (fn_send server_cap req) (
        bind_reg (fn_receive_match_imm (ucast TAG_REP)) (\<lambda>reply.
        bind_reg (fn_hop_payload reply) (\<lambda>out.
        fn_return out))))))) (\<lambda>_.
      program_build)) (program_new (utf8 ''server-loop''))"

definition named_service :: chunk where
  "named_service =
     then_function (utf8 ''server'') 0 (
        bind_reg (fn_load_str 0 (utf8 ''svc'')) (\<lambda>nm.
        then_do (fn_register_name nm) (
        bind_reg (fn_label) (\<lambda>loop_lbl.
        then_do (fn_bind loop_lbl) (
        bind_reg (fn_receive_match_imm (ucast TAG_REQ)) (\<lambda>req.
        bind_reg (fn_hop_payload req) (\<lambda>payload.
        then_do (fn_add_imm payload 1) (
        then_do (fn_send_reply req TAG_REP payload) (
        fn_jump loop_lbl))))))))) (\<lambda>server.
      then_function (utf8 ''main'') 0 (
        bind_reg (fn_spawn server 0) (\<lambda>_.
        bind_reg (fn_load_str 0 (utf8 ''svc'')) (\<lambda>nm.
        bind_reg (fn_label) (\<lambda>retry.
        bind_reg (fn_label) (\<lambda>miss.
        then_do (fn_bind retry) (
        bind_reg (fn_whereis nm) (\<lambda>c.
        then_do (fn_branch_if_falsy c miss) (
        bind_reg (fn_load_i32 41) (\<lambda>payload.
        bind_reg (fn_hop_fresh TAG_REQ payload) (\<lambda>req.
        then_do (fn_send c req) (
        bind_reg (fn_receive_match_imm (ucast TAG_REP)) (\<lambda>reply.
        bind_reg (fn_hop_payload reply) (\<lambda>out.
        then_do (fn_return out) (
        then_do (fn_bind miss) (
        bind_reg (fn_load_i32 1) (\<lambda>ms.
        then_do (fn_sleep ms) (
        fn_jump retry))))))))))))))))) (\<lambda>_.
      program_build)) (program_new (utf8 ''named-service''))"

definition atomic_actors :: chunk where
  "atomic_actors =
     then_function (utf8 ''server'') 0 (
        bind_reg (fn_label) (\<lambda>loop_lbl.
        then_do (fn_bind loop_lbl) (
        bind_reg (fn_receive_match_imm (ucast TAG_REQ)) (\<lambda>req.
        bind_reg (fn_hop_payload req) (\<lambda>payload.
        then_do (fn_add_imm payload 1) (
        then_do (fn_send_reply req TAG_REP payload) (
        fn_jump loop_lbl))))))) (\<lambda>server.
      then_function (utf8 ''client'') 2 (
        bind_reg (fn_reg 0) (\<lambda>server_cap.
        bind_reg (fn_reg 1) (\<lambda>parent_cap.
        bind_reg (fn_load_i32 0) (\<lambda>acc.
        bind_reg (fn_load_i32 0) (\<lambda>i.
        bind_reg (fn_load_i32 8) (\<lambda>n.
        then_do (fn_while_lt i n (
          bind_reg (fn_hop_fresh TAG_REQ i) (\<lambda>req.
          bind_reg (fn_ask server_cap req) (\<lambda>reply.
          bind_reg (fn_hop_payload reply) (\<lambda>got.
          bind_reg (fn_add acc got) (\<lambda>sum_r.
          then_do (fn_mov acc sum_r) (
          fn_add_imm i 1))))))) (
        bind_reg (fn_hop_fresh TAG_REP acc) (\<lambda>done.
        then_do (fn_send parent_cap done) (
        fn_return acc))))))))) (\<lambda>client.
      then_function (utf8 ''main'') 0 (
        bind_reg (fn_spawn server 0) (\<lambda>server_cap.
        bind_reg (fn_self_cap) (\<lambda>me.
        bind_reg (fn_window 3) (\<lambda>w1.
        then_do (fn_mov (window_at w1 1) server_cap) (
        then_do (fn_mov (window_at w1 2) me) (
        then_do (fn_spawn_at (window_at w1 0) client 2) (
        bind_reg (fn_window 3) (\<lambda>w2.
        then_do (fn_mov (window_at w2 1) server_cap) (
        then_do (fn_mov (window_at w2 2) me) (
        then_do (fn_spawn_at (window_at w2 0) client 2) (
        bind_reg (fn_receive_match_imm (ucast TAG_REP)) (\<lambda>a.
        bind_reg (fn_receive_match_imm (ucast TAG_REP)) (\<lambda>b.
        bind_reg (fn_hop_payload a) (\<lambda>pa.
        bind_reg (fn_hop_payload b) (\<lambda>pb.
        bind_reg (fn_add pa pb) (\<lambda>out.
        fn_return out)))))))))))))))) (\<lambda>_.
      program_build))) (program_new (utf8 ''atomic-actors''))"

definition cap_in_payload :: chunk where
  "cap_in_payload =
     then_function (utf8 ''server'') 0 (
        bind_reg (fn_receive) (\<lambda>msg.
        bind_reg (fn_hop_payload msg) (\<lambda>dest.
        bind_reg (fn_load_i32 42) (\<lambda>payload.
        bind_reg (fn_hop_fresh TAG_REP payload) (\<lambda>reply.
        then_do (fn_send dest reply) (
        fn_exit payload)))))) (\<lambda>server.
      then_function (utf8 ''main'') 0 (
        bind_reg (fn_spawn server 0) (\<lambda>server_cap.
        bind_reg (fn_self_cap) (\<lambda>me.
        bind_reg (fn_hop_fresh TAG_REQ me) (\<lambda>req.
        then_do (fn_send server_cap req) (
        bind_reg (fn_receive_match_imm (ucast TAG_REP)) (\<lambda>reply.
        bind_reg (fn_hop_payload reply) (\<lambda>out.
        fn_return out))))))) (\<lambda>_.
      program_build)) (program_new (utf8 ''cap-in-payload''))"

definition forged_sender_send :: chunk where
  "forged_sender_send =
     then_function (utf8 ''server'') 0 (
        bind_reg (fn_receive) (\<lambda>msg.
        bind_reg (fn_hop_sender msg) (\<lambda>sender.
        then_do (fn_send_reply msg TAG_REP sender) (
        fn_exit sender)))) (\<lambda>server.
      then_function (utf8 ''main'') 0 (
        bind_reg (fn_spawn server 0) (\<lambda>server_cap.
        bind_reg (fn_load_i32 999) (\<lambda>forged.
        bind_reg (fn_load_i32 1) (\<lambda>req_id.
        bind_reg (fn_load_i32 0) (\<lambda>zero.
        bind_reg (fn_make_msg_legacy_sender N_MAKE_MSG forged req_id TAG_REQ zero) (\<lambda>req.
        then_do (fn_send server_cap req) (
        bind_reg (fn_receive) (\<lambda>reply.
        bind_reg (fn_hop_payload reply) (\<lambda>out.
        fn_return out))))))))) (\<lambda>_.
      program_build)) (program_new (utf8 ''forged-sender-send''))"

definition forged_sender_ask :: chunk where
  "forged_sender_ask =
     then_function (utf8 ''server'') 0 (
        bind_reg (fn_receive_match_imm (ucast TAG_REQ)) (\<lambda>msg.
        bind_reg (fn_hop_sender msg) (\<lambda>sender.
        then_do (fn_send_reply msg TAG_REP sender) (
        fn_exit sender)))) (\<lambda>server.
      then_function (utf8 ''main'') 0 (
        bind_reg (fn_spawn server 0) (\<lambda>server_cap.
        bind_reg (fn_load_i32 999) (\<lambda>forged.
        bind_reg (fn_load_i32 1) (\<lambda>req_id.
        bind_reg (fn_load_i32 0) (\<lambda>zero.
        bind_reg (fn_make_msg_legacy_sender N_MAKE_MSG forged req_id TAG_REQ zero) (\<lambda>req.
        bind_reg (fn_ask server_cap req) (\<lambda>reply.
        bind_reg (fn_hop_payload reply) (\<lambda>out.
        fn_return out)))))))) (\<lambda>_.
      program_build)) (program_new (utf8 ''forged-sender-ask''))"

definition monitor_down :: chunk where
  "monitor_down =
     then_function (utf8 ''child'') 0 (
        bind_reg (fn_load_i32 40) (\<lambda>ms.
        then_do (fn_sleep ms) (
        bind_reg (fn_load_i32 0) (\<lambda>z.
        fn_return z)))) (\<lambda>child.
      then_function (utf8 ''main'') 0 (
        bind_reg (fn_spawn child 0) (\<lambda>c.
        bind_reg (fn_monitor c) (\<lambda>mon.
        bind_reg (fn_receive_match_imm TAG_SYS_DOWN) (\<lambda>msg.
        bind_reg (fn_hop_request_id msg) (\<lambda>rid2.
        bind_reg (fn_eq rid2 mon) (\<lambda>ok.
        bind_reg (fn_label) (\<lambda>trap_l.
        then_do (fn_branch_if_falsy ok trap_l) (
        bind_reg (fn_hop_payload msg) (\<lambda>out.
        then_do (fn_return out) (
        then_do (fn_bind trap_l) (
        fn_trap 3))))))))))) (\<lambda>_.
      program_build)) (program_new (utf8 ''monitor-down''))"

definition waiting_send :: chunk where
  "waiting_send =
     then_function (utf8 ''server'') 0 (
        bind_reg (fn_load_i32 50) (\<lambda>ms.
        then_do (fn_sleep ms) (
        bind_reg (fn_receive) (\<lambda>_.
        bind_reg (fn_receive) (\<lambda>second.
        bind_reg (fn_hop_payload second) (\<lambda>out.
        fn_return out)))))) (\<lambda>_.
      then_function (utf8 ''client'') 1 (
        bind_reg (fn_reg 0) (\<lambda>server.
        bind_reg (fn_load_i32 1) (\<lambda>req_id.
        bind_reg (fn_load_i32 1) (\<lambda>one_r.
        bind_reg (fn_hop req_id TAG_REQ one_r) (\<lambda>first.
        then_do (fn_send server first) (
        bind_reg (fn_load_i32 42) (\<lambda>forty_two.
        bind_reg (fn_hop req_id TAG_REQ forty_two) (\<lambda>second.
        then_do (fn_send server second) (
        fn_exit second))))))))) (\<lambda>_.
      program_build)) (program_new (utf8 ''waiting-send''))"

definition boom :: chunk where
  "boom =
     then_function (utf8 ''boom'') 0 (
        fn_trap 1) (\<lambda>_.
      program_build) (program_new (utf8 ''boom''))"

end
