(* ===== verification/BF_Machine_Steps.thy ===== *)
theory BF_Machine_Steps
  imports BF_Machine
begin

text \<open>
  Stepping the interpreter through known code: \<open>at_pc\<close> is the machine with its top frame at a program counter, \<open>runs_to\<close>
  is a number of instructions that all go on with the loop, and one lemma per instruction says where it goes.
\<close>

text \<open>Where the top frame returns to: the destination register and the frames below.\<close>

type_synonym caller = "u8 option \<times> frame list"

definition at_pc :: "chunk \<Rightarrow> caller \<Rightarrow> value list \<Rightarrow> nat \<Rightarrow> vm \<Rightarrow> bool" where
  "at_pc ch frs regs pc m \<longleftrightarrow>
     vm_chunk m = ch \<and> (\<exists>fr. vm_frames m = fr # snd frs \<and> fr_dest_reg fr = fst frs \<and> fr_registers fr = regs \<and> fr_pc fr = pc)"

lemma at_pc_step:
  assumes "at_pc ch frs regs pc m" and "pc < length (ch_code ch)"
  obtains m1 cs where "at_pc ch frs regs (Suc pc) m1" "vm_step cells m = exec_instr cs (ch_code ch ! pc) m1"
proof -
  from assms(1) obtain fr where m: "vm_chunk m = ch" "vm_frames m = fr # snd frs" "fr_dest_reg fr = fst frs"
    "fr_registers fr = regs" "fr_pc fr = pc"
    by (auto simp: at_pc_def)
  define m1 where "m1 = m\<lparr>vm_instructions_executed := vm_instructions_executed m + 1, vm_frames := fr\<lparr>fr_pc := fr_pc fr + 1\<rparr> # snd frs\<rparr>"
  show ?thesis
  proof
    show "at_pc ch frs regs (Suc pc) m1" using m by (simp add: m1_def at_pc_def)
    show "vm_step cells m = exec_instr (cells (vm_instructions_executed m1)) (ch_code ch ! pc) m1"
      using m assms(2) by (simp add: vm_step_def fetch_def m1_def)
  qed
qed

lemma at_pc_get: "at_pc ch frs regs pc m \<Longrightarrow> unat r < length regs \<Longrightarrow> get_reg m r = Inr (regs ! unat r)"
  by (auto simp: at_pc_def get_reg_def)

text \<open>A value without heap contents is stored without a charge.\<close>

definition uncharged :: "value \<Rightarrow> bool" where
  "uncharged v \<longleftrightarrow> (\<forall>q. charge_heap_value q v = (Inr (), q))"

lemma uncharged_scalars [simp]: "uncharged VUnit" "uncharged (VBool b)" "uncharged (VInt i)"
  by (simp_all add: uncharged_def charge_heap_value_def)

lemma at_pc_set:
  assumes "at_pc ch frs regs pc m" and "unat a < length regs" and "uncharged v"
  obtains m' where "set_reg m a v = (Inr (), m')" "at_pc ch frs (regs[unat a := v]) pc m'"
proof -
  have "\<exists>m1. charge_register_store m a v = (Inr (), m1) \<and> at_pc ch frs regs pc m1"
    using assms(1, 3) by (cases "vm_quota m"; cases "same_arc v (peek_reg m a)")
      (auto simp: charge_register_store_def at_pc_def uncharged_def)
  then obtain m1 where "charge_register_store m a v = (Inr (), m1)" and m1: "at_pc ch frs regs pc m1"
    by blast
  moreover from m1 obtain fr where "vm_frames m1 = fr # snd frs" "fr_dest_reg fr = fst frs" "fr_registers fr = regs" "fr_pc fr = pc" "vm_chunk m1 = ch"
    by (auto simp: at_pc_def)
  ultimately show ?thesis using assms(2) by (intro that) (auto simp: set_reg_def at_pc_def)
qed

definition runs_to :: "(u64 \<Rightarrow> cell_store) \<Rightarrow> nat \<Rightarrow> vm \<Rightarrow> vm \<Rightarrow> bool" where
  "runs_to cells k m m' \<longleftrightarrow> (\<forall>b. vm_run cells (k + b) m = vm_run cells b m')"

lemma runs_to_0: "runs_to cells 0 m m"
  by (simp add: runs_to_def)

lemma runs_toD: "runs_to cells k m m' \<Longrightarrow> vm_run cells (k + b) m = vm_run cells b m'"
  by (simp add: runs_to_def)

lemma runs_to_step: "vm_step cells m = (m', Next) \<Longrightarrow> runs_to cells k m' m'' \<Longrightarrow> runs_to cells (Suc k) m m''"
  by (simp add: runs_to_def)

lemma runs_to_trans: "runs_to cells j m m' \<Longrightarrow> runs_to cells k m' m'' \<Longrightarrow> runs_to cells (j + k) m m''"
  by (simp add: runs_to_def add.assoc)

text \<open>One instruction that stores a value.\<close>

definition stores :: "chunk \<Rightarrow> value list \<Rightarrow> instruction \<Rightarrow> value \<Rightarrow> bool" where
  "stores ch regs i v \<longleftrightarrow>
     (case i_op i of
        LoadImm \<Rightarrow> v = VInt (scast (i_imm i))
      | LoadConst \<Rightarrow> chunk_constant ch (i_imm i) = Some v
      | _ \<Rightarrow> i_op i \<in> {Add, Sub, Mul, Div, Mod, Eq, Lt, Le} \<and> unat (i_b i) < length regs \<and> unat (i_c i) < length regs
             \<and> binop_value (i_op i) (regs ! unat (i_b i)) (regs ! unat (i_c i)) = Inr v)"

lemma step_stores:
  assumes at: "at_pc ch frs regs pc m" and "pc < length (ch_code ch)" and st: "stores ch regs (ch_code ch ! pc) v"
    and a: "unat (i_a (ch_code ch ! pc)) < length regs" and "uncharged v"
  obtains m' where "vm_step cells m = (m', Next)" "at_pc ch frs (regs[unat (i_a (ch_code ch ! pc)) := v]) (Suc pc) m'"
proof -
  from at_pc_step [OF assms(1, 2)] obtain m1 cs where m1: "at_pc ch frs regs (Suc pc) m1"
    and step: "vm_step cells m = exec_instr cs (ch_code ch ! pc) m1" .
  from at_pc_set [OF m1 a assms(5)] obtain m' where m': "set_reg m1 (i_a (ch_code ch ! pc)) v = (Inr (), m')"
    "at_pc ch frs (regs[unat (i_a (ch_code ch ! pc)) := v]) (Suc pc) m'" .
  have "exec_instr cs (ch_code ch ! pc) m1 = (m', Next)"
    using st m1 m'(1) at_pc_get [OF m1]
    by (cases "i_op (ch_code ch ! pc)")
      (auto simp: stores_def exec_instr_def op_load_imm_def op_load_const_def op_binop_eq trap_or_def trap_unit_def at_pc_def)
  then show ?thesis using m'(2) step by (intro that) simp_all
qed

lemma step_jump:
  assumes at: "at_pc ch frs regs pc m" and "pc < length (ch_code ch)" and op: "i_op (ch_code ch ! pc) = Jump"
  obtains m' where "vm_step cells m = (m', Next)"
    "at_pc ch frs regs (i64_as_usize (int (Suc pc) + sint (i_imm (ch_code ch ! pc)))) m'"
proof -
  from at_pc_step [OF assms(1, 2)] obtain m1 cs where m1: "at_pc ch frs regs (Suc pc) m1"
    and step: "vm_step cells m = exec_instr cs (ch_code ch ! pc) m1" .
  then show ?thesis using op that
    by (auto simp: exec_instr_def op_jump_def jump_by_def at_pc_def Let_def)
qed

lemma step_branch:
  assumes at: "at_pc ch frs regs pc m" and "pc < length (ch_code ch)" and op: "i_op (ch_code ch ! pc) = Branch"
    and a: "unat (i_a (ch_code ch ! pc)) < length regs"
  obtains m' where "vm_step cells m = (m', Next)"
    "at_pc ch frs regs (if is_truthy (regs ! unat (i_a (ch_code ch ! pc))) then Suc pc
       else i64_as_usize (int (Suc pc) + sint (i_imm (ch_code ch ! pc)))) m'"
proof -
  from at_pc_step [OF assms(1, 2)] obtain m1 cs where m1: "at_pc ch frs regs (Suc pc) m1"
    and step: "vm_step cells m = exec_instr cs (ch_code ch ! pc) m1" .
  then show ?thesis using op that at_pc_get [OF m1 a]
    by (cases "is_truthy (regs ! unat (i_a (ch_code ch ! pc)))")
      (auto simp: exec_instr_def op_branch_def trap_or_def jump_by_def at_pc_def Let_def)
qed

lemma step_return:
  assumes at: "at_pc ch (None, frs) regs pc m" and "pc < length (ch_code ch)" and op: "i_op (ch_code ch ! pc) = Return"
    and a: "unat (i_a (ch_code ch ! pc)) < length regs"
  shows "snd (vm_run cells (Suc b) m) = VmComplete (regs ! unat (i_a (ch_code ch ! pc)))"
proof -
  from at obtain fr where m: "vm_chunk m = ch" "vm_frames m = fr # frs" "fr_dest_reg fr = None" "fr_registers fr = regs" "fr_pc fr = pc"
    by (auto simp: at_pc_def)
  then show ?thesis
    using assms(2) op a
    by (simp add: vm_step_def fetch_def exec_instr_def op_return_def get_reg_def trap_or_def pop_frame_def after_pop_def)
qed

end
