(* ===== verification/BF_Program_Safety.thy ===== *)
theory BF_Program_Safety
  imports BF_Samples BF_Machine_Steps
begin

text \<open>
  What programs written with the program API do: the counting loop of the module documentation returns its limit, and every
  sample chunk is accepted by the verifier.
\<close>

section \<open>The counting program\<close>

definition count_to :: "i64 \<Rightarrow> chunk" where
  "count_to n =
     then_function (utf8 ''main'') 0 (
        bind_reg (fn_load_int n) (\<lambda>limit.
        bind_reg (fn_load_i32 0) (\<lambda>counter.
        then_do (fn_while_lt counter limit (fn_add_imm counter 1)) (
        fn_return counter)))) (\<lambda>_.
      program_build) (program_new (utf8 ''count''))"

lemmas program_defs = program_new_def then_function_def program_function_def run_body_def program_build_def bind_reg_def then_do_def give_def on_builder_def
  into_local_def fn_open_def fn_open_with_def fn_local_def fn_temp_def

lemma count_to_code:
  "ch_code (count_to n) =
     [instr_a_imm LoadConst 4 0, instr_a_imm LoadImm 5 0, instr_abc Lt 6 5 4, instr_a_imm Branch 6 3,
      instr_a_imm LoadImm 7 1, instr_abc Add 5 5 7, instr_only_imm Jump (- 5), instr_abc Return 5 0 0]"
  "ch_constants (count_to n) = [VInt n]"
  "map f_entry (ch_functions (count_to n)) = [0]" "map f_num_registers (ch_functions (count_to n)) = [8]"
  by code_simp+

lemma count_to_function: "chunk_function (count_to n) 0 = Some (ch_functions (count_to n) ! 0)" "length (ch_functions (count_to n)) = 1"
  and count_to_entry: "f_entry (ch_functions (count_to n) ! 0) = 0" "f_num_registers (ch_functions (count_to n) ! 0) = 8"
proof -
  show len: "length (ch_functions (count_to n)) = 1" using arg_cong [OF count_to_code(3) [of n], of length] by simp
  then show "chunk_function (count_to n) 0 = Some (ch_functions (count_to n) ! 0)" by (simp add: chunk_function_def)
  show "f_entry (ch_functions (count_to n) ! 0) = 0" "f_num_registers (ch_functions (count_to n) ! 0) = 8"
    using arg_cong [OF count_to_code(3) [of n], of hd] arg_cong [OF count_to_code(4) [of n], of hd] len
    by (simp_all add: hd_map hd_conv_nth flip: length_greater_0_conv)
qed

text \<open>The registers at the head of the loop.\<close>

definition count_regs :: "value list \<Rightarrow> i64 \<Rightarrow> i64 \<Rightarrow> bool" where
  "count_regs regs n i \<longleftrightarrow> length regs = 8 \<and> regs ! 4 = VInt n \<and> regs ! 5 = VInt i"

lemma count_head:
  assumes "at_pc (count_to n) frs regs 2 m" and "count_regs regs n i"
  obtains m' regs' where "runs_to cells 2 m m'" "count_regs regs' n i"
    "at_pc (count_to n) frs regs' (if sint i < sint n then 4 else 7) m'"
proof -
  have regs: "length regs = 8" "regs ! 4 = VInt n" "regs ! 5 = VInt i" using assms(2) by (simp_all add: count_regs_def)
  have "stores (count_to n) regs (ch_code (count_to n) ! 2) (VBool (sint i < sint n))"
    using regs by (simp add: stores_def count_to_code instr_defs binop_value_def)
  from step_stores [OF assms(1) _ this] obtain m1 where m1: "vm_step cells m = (m1, Next)"
    "at_pc (count_to n) frs (regs[6 := VBool (sint i < sint n)]) 3 m1"
    by (auto simp: count_to_code instr_defs regs)
  have exit_pc: "i64_as_usize (int (Suc 3) + sint (i_imm (ch_code (count_to n) ! 3))) = 7"
    by (simp add: count_to_code instr_defs i64_as_usize_def)
  from step_branch [OF m1(2)] obtain m2 where m2: "vm_step cells m1 = (m2, Next)"
    "at_pc (count_to n) frs (regs[6 := VBool (sint i < sint n)]) (if sint i < sint n then 4 else 7) m2"
    unfolding exit_pc by (auto simp: count_to_code instr_defs regs cong: if_cong)
  show ?thesis
    using m1(1) m2 regs by (intro that [of m2 "regs[6 := VBool (sint i < sint n)]"])
      (auto simp: count_regs_def numeral_2_eq_2 intro!: runs_to_step runs_to_0)
qed

lemma count_body:
  assumes "at_pc (count_to n) frs regs 4 m" and "count_regs regs n i"
  obtains m' regs' where "runs_to cells 3 m m'" "count_regs regs' n (i + 1)" "at_pc (count_to n) frs regs' 2 m'"
proof -
  have regs: "length regs = 8" "regs ! 4 = VInt n" "regs ! 5 = VInt i" using assms(2) by (simp_all add: count_regs_def)
  have "stores (count_to n) regs (ch_code (count_to n) ! 4) (VInt 1)" by (simp add: stores_def count_to_code instr_defs)
  from step_stores [OF assms(1) _ this] obtain m1 where m1: "vm_step cells m = (m1, Next)"
    "at_pc (count_to n) frs (regs[7 := VInt 1]) 5 m1"
    by (auto simp: count_to_code instr_defs regs)
  have "stores (count_to n) (regs[7 := VInt 1]) (ch_code (count_to n) ! 5) (VInt (i + 1))"
    using regs by (simp add: stores_def count_to_code instr_defs binop_value_def)
  from step_stores [OF m1(2) _ this] obtain m2 where m2: "vm_step cells m1 = (m2, Next)"
    "at_pc (count_to n) frs (regs[7 := VInt 1, 5 := VInt (i + 1)]) 6 m2"
    by (auto simp: count_to_code instr_defs regs)
  from step_jump [OF m2(2)] obtain m3 where m3: "vm_step cells m2 = (m3, Next)"
    "at_pc (count_to n) frs (regs[7 := VInt 1, 5 := VInt (i + 1)]) 2 m3"
    by (auto simp: count_to_code instr_defs i64_as_usize_def)
  show ?thesis
    using m1(1) m2(1) m3 regs by (intro that [of m3 "regs[7 := VInt 1, 5 := VInt (i + 1)]"])
      (auto simp: count_regs_def numeral_3_eq_3 intro!: runs_to_step runs_to_0)
qed

lemma sint_plus_one:
  fixes i n :: i64
  assumes "sint i < sint n"
  shows "sint (i + 1) = sint i + 1"
proof -
  have "- (2 ^ 63) \<le> sint i" "sint n < 2 ^ 63" using sint_range_size [of i] sint_range_size [of n] by (simp_all add: word_size)
  then have "signed_take_bit 63 (sint i + 1) = sint i + 1" using assms by (intro signed_take_bit_int_eq_self) simp_all
  then show ?thesis by (simp add: sint_word_add)
qed

lemma count_loop:
  assumes "at_pc (count_to n) (None, frs) regs 2 m" and "count_regs regs n i" and "k = nat (sint n - sint i)"
    and "5 * k + 3 \<le> budget"
  shows "snd (vm_run cells budget m) = VmComplete (VInt (if sint i \<le> sint n then n else i))"
  using assms
proof (induction k arbitrary: i regs m budget)
  case 0
  then have le: "\<not> sint i < sint n" by simp
  from count_head [OF 0(1, 2)] obtain m' regs' where m': "runs_to cells 2 m m'" "count_regs regs' n i"
    "at_pc (count_to n) (None, frs) regs' 7 m'" using le by metis
  define b where "b = budget - 3"
  have b: "budget = 2 + Suc b" using 0(4) by (simp add: b_def)
  have "snd (vm_run cells budget m) = VmComplete (regs' ! 5)"
    using m'(2) step_return [OF m'(3), of cells b] unfolding b runs_toD [OF m'(1)]
    by (simp add: count_to_code instr_defs count_regs_def)
  then show ?case using m'(2) le by (auto simp: count_regs_def intro: signed_word_eqI)
next
  case (Suc k)
  then have lt: "sint i < sint n" by simp
  from count_head [OF Suc(2, 3)] obtain m1 regs1 where m1: "runs_to cells 2 m m1" "count_regs regs1 n i"
    "at_pc (count_to n) (None, frs) regs1 4 m1" using lt by metis
  from count_body [OF m1(3, 2)] obtain m2 regs2 where m2: "runs_to cells 3 m1 m2" "count_regs regs2 n (i + 1)"
    "at_pc (count_to n) (None, frs) regs2 2 m2" .
  define b where "b = budget - 5"
  have b: "budget = 5 + b" "5 * k + 3 \<le> b" using Suc(5) by (simp_all add: b_def)
  have "runs_to cells 5 m m2" using runs_to_trans [OF m1(1) m2(1)] by simp
  then show ?case
    using Suc.IH [OF m2(3, 2) _ b(2)] Suc(4) lt unfolding b(1) by (simp add: runs_toD sint_plus_one [OF lt])
qed

section \<open>The samples\<close>

lemma verify_add_forty_two: "verify add_forty_two = Inr ()"
  by code_simp

lemma verify_ping_pong: "verify ping_pong = Inr ()"
  by code_simp

lemma verify_atomic_request_reply: "verify atomic_request_reply = Inr ()"
  by code_simp

lemma verify_selective_receive: "verify selective_receive = Inr ()"
  by code_simp

lemma verify_ask_reply: "verify ask_reply = Inr ()"
  by code_simp

lemma verify_ask_timeout_expires: "verify ask_timeout_expires = Inr ()"
  by code_simp

lemma verify_ask_target_exits: "verify ask_target_exits = Inr ()"
  by code_simp

lemma verify_server_loop: "verify server_loop = Inr ()"
  by code_simp

lemma verify_named_service: "verify named_service = Inr ()"
  by code_simp

lemma verify_atomic_actors: "verify atomic_actors = Inr ()"
  by code_simp

lemma verify_cap_in_payload: "verify cap_in_payload = Inr ()"
  by code_simp

lemma verify_forged_sender_send: "verify forged_sender_send = Inr ()"
  by code_simp

lemma verify_forged_sender_ask: "verify forged_sender_ask = Inr ()"
  by code_simp

lemma verify_monitor_down: "verify monitor_down = Inr ()"
  by code_simp

lemma verify_waiting_send: "verify waiting_send = Inr ()"
  by code_simp

lemma verify_boom: "verify boom = Inr ()"
  by code_simp

lemmas verify_samples = verify_add_forty_two verify_ping_pong verify_atomic_request_reply verify_selective_receive
  verify_ask_reply verify_ask_timeout_expires verify_ask_target_exits verify_server_loop
  verify_named_service verify_atomic_actors verify_cap_in_payload verify_forged_sender_send
  verify_forged_sender_ask verify_monitor_down verify_waiting_send verify_boom

definition sample_programs :: "chunk list" where
  "sample_programs =
     [add_forty_two, ping_pong, atomic_request_reply, selective_receive,
      ask_reply, ask_timeout_expires, ask_target_exits, server_loop,
      named_service, atomic_actors, cap_in_payload, forged_sender_send,
      forged_sender_ask, monitor_down, waiting_send, boom]"

section \<open>Registers of a function\<close>

text \<open>Once 255 registers are handed out, \<open>local\<close> answers register 255 for ever, and the frame has only 255.\<close>

lemma fn_local_saturates:
  assumes "fc_next_reg f = 255"
  shows "fst (fn_local f) = 255" "fc_next_reg (snd (fn_local f)) = 255"
  using assms by (simp_all add: fn_local_def u8_sat_add_def Let_def)

definition full_function :: fn_ctx where
  "full_function = fn_open_with [] 0 254 (program_new [])"

definition full_chunk :: chunk where
  "full_chunk = program_build (fc_b (bind_reg fn_local (\<lambda>_. bind_reg fn_local (\<lambda>r. fn_set r 1)) full_function))"

section \<open>Properties\<close>

text \<open>C14: The counting loop of the documentation of the program API computes what it says. For every 64-bit limit, the chunk that \<open>count_to\<close> assembles (constants, registers, labels and the \<open>while_lt\<close> of the API) starts, and the interpreter, given five instructions for each round and five more, completes with the limit itself, or with 0 when the limit is negative.\<close>

theorem count_to_counts:
  assumes "5 * nat (sint n) + 5 \<le> budget"
  shows "\<exists>m. vm_with_native_gate (count_to n) natives gate 0 [] = Inr m
           \<and> snd (vm_run cells budget m) = VmComplete (VInt (if 0 \<le> sint n then n else 0))"
proof -
  define m where "m = \<lparr>vm_chunk = count_to n, vm_natives = natives, vm_native_gate = gate,
      vm_frames = [\<lparr>fr_function = 0, fr_pc = 0, fr_registers = replicate 8 VUnit, fr_dest_reg = None\<rparr>],
      vm_instructions_executed = 0, vm_next_request_id = 1, vm_quota = None\<rparr>"
  have start: "vm_with_native_gate (count_to n) natives gate 0 [] = Inr m"
    by (simp add: vm_with_native_gate_def count_to_function count_to_entry frame_new_def m_def)
  have at0: "at_pc (count_to n) (None, []) (replicate 8 VUnit) 0 m" by (simp add: at_pc_def m_def)
  have "stores (count_to n) (replicate 8 VUnit) (ch_code (count_to n) ! 0) (VInt n)"
    by (simp add: stores_def count_to_code instr_defs chunk_constant_def)
  from step_stores [OF at0 _ this] obtain m1 where m1: "vm_step cells m = (m1, Next)"
    "at_pc (count_to n) (None, []) ((replicate 8 VUnit)[4 := VInt n]) 1 m1"
    by (auto simp: count_to_code instr_defs)
  have "stores (count_to n) ((replicate 8 VUnit)[4 := VInt n]) (ch_code (count_to n) ! 1) (VInt 0)"
    by (simp add: stores_def count_to_code instr_defs)
  from step_stores [OF m1(2) _ this] obtain m2 where m2: "vm_step cells m1 = (m2, Next)"
    "at_pc (count_to n) (None, []) ((replicate 8 VUnit)[4 := VInt n, 5 := VInt 0]) 2 m2"
    by (auto simp: count_to_code instr_defs simp flip: numeral_2_eq_2)
  define b where "b = budget - 2"
  have b: "budget = Suc (Suc b)" "5 * nat (sint n - sint (0 :: i64)) + 3 \<le> b" using assms by (simp_all add: b_def)
  have regs: "count_regs ((replicate 8 VUnit)[4 := VInt n, 5 := VInt 0]) n 0" by (simp add: count_regs_def)
  show ?thesis
    using start count_loop [OF m2(2) regs refl b(2), of cells] by (simp add: b(1) m1(1) m2(1))
qed

theorem count_to_counts_witness:
  "\<exists>m. vm_with_native_gate (count_to 100) [] (gate_deny 0 0 1) 0 [] = Inr m
     \<and> snd (vm_run (\<lambda>_ _. 0) 10000 m) = VmComplete (VInt 100)"
  using count_to_counts [of 100 10000 "[]" "gate_deny 0 0 1" "\<lambda>_ _. 0"] by simp


text \<open>A function that asks for more than 255 registers is broken silently: after 255 registers every further \<open>local\<close> is the same register 255, which no frame has. Neither the program API nor the verifier objects; the flow traps when it first writes the register.\<close>

theorem locals_alias_past_the_frame:
  "fst (fn_local full_function) = 254 \<and> fst (fn_local (snd (fn_local full_function))) = 255
   \<and> fst (fn_local (snd (fn_local (snd (fn_local full_function))))) = 255
   \<and> verify full_chunk = Inr ()
   \<and> (case vm_with_native_gate full_chunk [] (gate_deny 0 0 1) 0 [] of
        Inr m \<Rightarrow> snd (vm_run (\<lambda>_ _. 0) 10 m) = VmTrap (RegisterOutOfRange 255 255)
      | Inl _ \<Rightarrow> False)"
proof -
  have "fst (fn_local full_function) = 254" by code_simp
  moreover have "fst (fn_local (snd (fn_local full_function))) = 255" by code_simp
  moreover have "fst (fn_local (snd (fn_local (snd (fn_local full_function))))) = 255" by code_simp
  moreover have "verify full_chunk = Inr ()" by code_simp
  moreover have "case vm_with_native_gate full_chunk [] (gate_deny 0 0 1) 0 [] of
      Inr m \<Rightarrow> snd (vm_run (\<lambda>_ _. 0) 10 m) = VmTrap (RegisterOutOfRange 255 255) | Inl _ \<Rightarrow> False" by code_simp
  ultimately show ?thesis by blast
qed

end
