(* ===== verification/BF_Jit.thy ===== *)
theory BF_Jit
  imports BF_Tables
begin

text \<open>
  The trace compiler of the optional \<open>jit\<close> feature: \<open>jit/{exit,frame,error,trace,compiler}.rs\<close>. The compiler turns bytecode
  into Cranelift instructions; Cranelift is not part of the repository and is a parameter: \<open>clif\<close> holds the integer
  instructions the compiler emits and what declaring and defining a function answers, over an opaque module state.

  The compiler keeps an SSA value per register (\<open>RegisterMap\<close>) while it emits a block. A block runs as it was emitted,
  from top to bottom, so the model runs the emitted code directly: the map holds the number the SSA value stands for.
  Memory the compiled code touches is the \<open>JitFrame\<close>; an access outside the slot table, a trapping instruction and running
  past the end of a block are crashes of the process.
\<close>

section \<open>Exit codes\<close>

datatype jit_exit =
    JContinue u32
  | JEffect u32
  | JReturn u8
  | JBudget u32
  | JTrap u32
  | JDeopt u32

record jit_return =
  jx_kind :: u32
  jx_pc :: u32
  jx_return_reg :: u32

definition JIT_CONTINUE :: u32 where "JIT_CONTINUE = 0"
definition JIT_EFFECT :: u32 where "JIT_EFFECT = 1"
definition JIT_RETURN :: u32 where "JIT_RETURN = 2"
definition JIT_BUDGET :: u32 where "JIT_BUDGET = 3"
definition JIT_TRAP :: u32 where "JIT_TRAP = 4"
definition JIT_DEOPT :: u32 where "JIT_DEOPT = 5"

lemmas jit_kinds = JIT_CONTINUE_def JIT_EFFECT_def JIT_RETURN_def JIT_BUDGET_def JIT_TRAP_def JIT_DEOPT_def

fun jit_from_reason :: "jit_exit \<Rightarrow> jit_return" where
  "jit_from_reason (JContinue pc) = \<lparr>jx_kind = JIT_CONTINUE, jx_pc = pc, jx_return_reg = 0\<rparr>"
| "jit_from_reason (JEffect pc) = \<lparr>jx_kind = JIT_EFFECT, jx_pc = pc, jx_return_reg = 0\<rparr>"
| "jit_from_reason (JReturn r) = \<lparr>jx_kind = JIT_RETURN, jx_pc = 0, jx_return_reg = ucast r\<rparr>"
| "jit_from_reason (JBudget pc) = \<lparr>jx_kind = JIT_BUDGET, jx_pc = pc, jx_return_reg = 0\<rparr>"
| "jit_from_reason (JTrap pc) = \<lparr>jx_kind = JIT_TRAP, jx_pc = pc, jx_return_reg = 0\<rparr>"
| "jit_from_reason (JDeopt pc) = \<lparr>jx_kind = JIT_DEOPT, jx_pc = pc, jx_return_reg = 0\<rparr>"

definition jit_into_reason :: "jit_return \<Rightarrow> jit_exit" where
  "jit_into_reason r =
     (if jx_kind r = JIT_CONTINUE then JContinue (jx_pc r)
      else if jx_kind r = JIT_EFFECT then JEffect (jx_pc r)
      else if jx_kind r = JIT_RETURN then JReturn (ucast (jx_return_reg r))
      else if jx_kind r = JIT_BUDGET then JBudget (jx_pc r)
      else if jx_kind r = JIT_TRAP then JTrap (jx_pc r)
      else JDeopt (jx_pc r))"

lemma jit_reason_roundtrip: "jit_into_reason (jit_from_reason r) = r"
proof -
  have "ucast (ucast b :: u32) = b" for b :: u8
    by (rule bit_word_eqI) (simp add: bit_ucast_iff)
  then show ?thesis by (cases r) (simp_all add: jit_into_reason_def jit_kinds)
qed

section \<open>The native frame\<close>

definition MAX_JIT_CALL_DEPTH :: nat where
  "MAX_JIT_CALL_DEPTH = 32"

record jit_call_record =
  cr_return_pc :: u32
  cr_return_function :: u32
  cr_dest_reg :: u32
  cr_caller_register_count :: u32

record jit_frame =
  jf_slots :: "i64 list"
  jf_register_count :: u32
  jf_pc :: u32
  jf_budget :: u32
  jf_function :: u32
  jf_exit_kind :: u32
  jf_return_reg :: u32
  jf_call_depth :: u32
  jf_call_stack :: "jit_call_record list"

text \<open>How compiled code can take the process down; \<open>IndexPanic\<close> is a Rust panic of the dispatcher, which the worker catches.\<close>

datatype native_crash = IntegerOverflow | WildAccess | FellThrough | StackExhausted | IndexPanic

type_synonym jit_entry = "jit_frame \<Rightarrow> native_crash + jit_frame"

section \<open>Traces\<close>

definition MAX_TRACE_LENGTH :: nat where
  "MAX_TRACE_LENGTH = 256"

definition HOT_THRESHOLD :: u32 where
  "HOT_THRESHOLD = 1000"

record trace_key =
  tk_function :: u32
  tk_entry_pc :: u32

record trace_span =
  ts_function :: u32
  ts_start :: u32
  ts_end :: u32

record compiled_trace =
  ct_span :: trace_span
  ct_entry :: jit_entry

type_synonym trace_cache = "(trace_key, compiled_trace) hash_map"

definition trace_cache_new :: trace_cache where
  "trace_cache_new = []"

definition trace_cache_get :: "trace_key \<Rightarrow> trace_cache \<Rightarrow> compiled_trace option" where
  "trace_cache_get k c = hm_get c k"

definition trace_cache_insert :: "trace_key \<Rightarrow> compiled_trace \<Rightarrow> trace_cache \<Rightarrow> trace_cache" where
  "trace_cache_insert k t c = hm_insert k t c"

definition trace_cache_clear :: "trace_cache \<Rightarrow> trace_cache" where
  "trace_cache_clear c = []"

type_synonym hot_counter = "(trace_key, u32) hash_map"

definition hot_hit :: "trace_key \<Rightarrow> u32 \<Rightarrow> hot_counter \<Rightarrow> bool \<times> hot_counter" where
  "hot_hit k threshold h =
     (let c = (case hm_get h k of Some n \<Rightarrow> n | None \<Rightarrow> 0); c' = (if c = - 1 then c else c + 1) in
      (threshold \<le> c', hm_insert k c' h))"

definition hot_reset :: "trace_key \<Rightarrow> hot_counter \<Rightarrow> hot_counter" where
  "hot_reset k h = hm_remove k h"

definition hot_clear :: "hot_counter \<Rightarrow> hot_counter" where
  "hot_clear h = []"

section \<open>Compile errors and the code generator\<close>

datatype compile_error =
    Backend string
  | EmptyTrace u32 u32
  | UndefinedRegister u8 u32
  | UnsupportedOpcode opcode u32
  | TraceTooLong u32 nat
  | ModuleError string

text \<open>
  \<open>cl_sdiv\<close> and \<open>cl_srem\<close> answer \<open>None\<close> where the instruction traps. \<open>cl_declare\<close> and \<open>cl_define\<close> are
  \<open>declare_function\<close> and \<open>define_function\<close> with \<open>finalize_definitions\<close>; the latter is told whether every block ends in a
  terminator.
\<close>

record 'm clif =
  cl_iadd :: "i64 \<Rightarrow> i64 \<Rightarrow> i64"
  cl_isub :: "i64 \<Rightarrow> i64 \<Rightarrow> i64"
  cl_imul :: "i64 \<Rightarrow> i64 \<Rightarrow> i64"
  cl_sdiv :: "i64 \<Rightarrow> i64 \<Rightarrow> i64 option"
  cl_srem :: "i64 \<Rightarrow> i64 \<Rightarrow> i64 option"
  cl_equal :: "i64 \<Rightarrow> i64 \<Rightarrow> bool"
  cl_less :: "i64 \<Rightarrow> i64 \<Rightarrow> bool"
  cl_less_eq :: "i64 \<Rightarrow> i64 \<Rightarrow> bool"
  cl_create :: "string + 'm"
  cl_declare :: "trace_key \<Rightarrow> 'm \<Rightarrow> (string + unit) \<times> 'm"
  cl_define :: "trace_key \<Rightarrow> bool \<Rightarrow> 'm \<Rightarrow> (string + unit) \<times> 'm"

section \<open>The region a trace covers\<close>

definition jump_target :: "u32 \<Rightarrow> i32 \<Rightarrow> u32" where
  "jump_target jpc imm = word_of_int (uint jpc + 1 + sint imm)"

definition branch_target :: "u32 \<Rightarrow> i32 \<Rightarrow> u32" where
  "branch_target bpc imm = jump_target bpc imm"

definition is_effect_opcode :: "opcode \<Rightarrow> bool" where
  "is_effect_opcode op \<longleftrightarrow> op \<in> {CallNative, Spawn, Yield, Sleep, Exit, SelfPid, Send, Receive, ReceiveTimeout,
     ReceiveMatch, ReceiveMatchImm, Ask, AskTimeout, Monitor, Demonitor, Link, Unlink, Delegate, FreshRequestId,
     ReceiveMatchCorr, ReceiveMatchCorrImm, RegisterName, Whereis, Trap, Halt}"

text \<open>The constant a \<open>LoadConst\<close> of a trace loads.\<close>

fun int_constant :: "value option \<Rightarrow> i64 option" where
  "int_constant (Some (VInt i)) = Some i"
| "int_constant (Some (VBool b)) = Some (if b then 1 else 0)"
| "int_constant _ = None"

text \<open>
  One block from \<open>pc\<close>: its program counters, the starts it queues and the running instruction count. It ends before an
  instruction that has to go to the scheduler, at the length limit, or at a control transfer.
\<close>

function scan_block :: "chunk \<Rightarrow> u32 \<Rightarrow> nat \<Rightarrow> u32 list \<times> u32 list \<times> nat" where
  "scan_block ch pc n =
     (case nth_opt (ch_code ch) (unat pc) of
        None \<Rightarrow> ([], [], n)
      | Some i \<Rightarrow>
          if is_effect_opcode (i_op i) \<or> i_op i = LoadConst \<and> int_constant (chunk_constant ch (i_imm i)) = None
          then ([], [], n)
          else if MAX_TRACE_LENGTH \<le> n + 1 then ([pc], [], n + 1)
          else if i_op i = Return then ([pc], [], n + 1)
          else if i_op i = Jump then ([pc], [jump_target pc (i_imm i)], n + 1)
          else if i_op i = Branch then ([pc], [pc + 1, branch_target pc (i_imm i)], n + 1)
          else if i_op i = Call then
            ([pc], (case chunk_function ch (i_imm i) of Some def \<Rightarrow> [f_entry def] | None \<Rightarrow> []) @ [pc + 1], n + 1)
          else case scan_block ch (pc + 1) (n + 1) of (pcs, starts, n) \<Rightarrow> (pc # pcs, starts, n))"
  by pat_completeness auto
termination
  by (relation "measure (\<lambda>(_, _, n). MAX_TRACE_LENGTH - n)") auto

declare scan_block.simps [simp del]

lemma scan_block_grows:
  "scan_block ch pc n = (pcs, starts, n') \<Longrightarrow>
   n' = n + length pcs \<and> length starts \<le> 2 \<and> (pcs = [] \<longrightarrow> starts = [])
   \<and> (n < MAX_TRACE_LENGTH \<longrightarrow> n' \<le> MAX_TRACE_LENGTH)"
proof (induction "MAX_TRACE_LENGTH - n" arbitrary: pc n pcs starts n' rule: less_induct)
  case less
  have rec: "n'' = n + 1 + length ps \<and> length ss \<le> 2 \<and> n'' \<le> MAX_TRACE_LENGTH"
    if "\<not> MAX_TRACE_LENGTH \<le> Suc n" "scan_block ch (pc + 1) (Suc n) = (ps, ss, n'')" for ps ss n''
    using less.hyps [OF _ that(2)] that(1) by (simp add: diff_less_mono2 not_le)
  show ?case
    using less.prems unfolding scan_block.simps [of ch pc n]
    by (auto split: option.splits if_splits prod.splits dest!: rec [rotated])
qed

text \<open>The work list over block starts. A trace block is its start and its program counters.\<close>

type_synonym trace_block = "u32 \<times> u32 list"

function collect_blocks :: "chunk \<Rightarrow> u32 list \<Rightarrow> u32 set \<Rightarrow> nat \<Rightarrow> trace_block list" where
  "collect_blocks ch [] seen n = []"
| "collect_blocks ch (start # queue) seen n =
     (if start \<in> seen then collect_blocks ch queue seen n
      else if MAX_TRACE_LENGTH \<le> n then []
      else case scan_block ch start n of (pcs, starts, n') \<Rightarrow>
        if pcs = [] then collect_blocks ch (queue @ starts) (insert start seen) n'
        else (start, pcs) # collect_blocks ch (queue @ starts) (insert start seen) n')"
  by pat_completeness auto
termination
proof (relation "measure (\<lambda>(_, queue, _, n). 3 * (MAX_TRACE_LENGTH - n) + length queue)", goal_cases)
  case 3
  then show ?case using scan_block_grows [OF 3(3) [unfolded 3(4) [symmetric], symmetric]] by auto
next
  case 4
  then show ?case using scan_block_grows [OF 4(3) [unfolded 4(4) [symmetric], symmetric]] by (auto simp flip: length_greater_0_conv)
qed auto

declare collect_blocks.simps(2) [simp del]

definition collect_trace_region :: "chunk \<Rightarrow> trace_key \<Rightarrow> trace_block list" where
  "collect_trace_region ch key = collect_blocks ch [tk_entry_pc key] {} 0"

definition region_pcs :: "trace_block list \<Rightarrow> u32 list" where
  "region_pcs blocks = concat (map snd blocks)"

definition region_max_pc :: "trace_block list \<Rightarrow> u32 option" where
  "region_max_pc blocks = (case region_pcs blocks of [] \<Rightarrow> None | p # ps \<Rightarrow> Some (fold max ps p))"

definition last_return_in_region :: "chunk \<Rightarrow> trace_block list \<Rightarrow> (u32 \<times> u32) option" where
  "last_return_in_region ch blocks =
     map_option (\<lambda>pc. (pc, ucast (i_a (ch_code ch ! unat pc))))
       (find (\<lambda>pc. i_op (ch_code ch ! unat pc) = Return) (rev (region_pcs blocks)))"

end
