(* ===== verification/BF_Jit_Code.thy ===== *)
theory BF_Jit_Code
  imports BF_Jit
begin

text \<open>
  The code \<open>jit/compiler.rs\<close> emits for a region, run as it was emitted, and \<open>compile_trace\<close> itself. \<open>run_instruction\<close> is
  one arm of \<open>emit_instruction\<close> per opcode; \<open>emit_check\<close> is the errors the same arms return while compiling. Every emitted
  instruction is preceded by a tick of the budget, so \<open>run_code\<close> ends.
\<close>

section \<open>Registers and slots\<close>

type_synonym register_map = "i64 option list"

definition rm_new :: "nat \<Rightarrow> register_map" where
  "rm_new n = replicate n None"

definition rm_get :: "register_map \<Rightarrow> u8 \<Rightarrow> i64 option" where
  "rm_get rm reg = (case nth_opt rm (unat reg) of Some v \<Rightarrow> v | None \<Rightarrow> None)"

definition rm_set :: "u8 \<Rightarrow> i64 \<Rightarrow> register_map \<Rightarrow> register_map" where
  "rm_set reg v rm = rm[unat reg := Some v]"

definition native_load :: "i64 list \<Rightarrow> nat \<Rightarrow> native_crash + i64" where
  "native_load slots i = ok_or (nth_opt slots i) WildAccess"

definition store_slot :: "nat \<Rightarrow> i64 \<Rightarrow> jit_frame \<Rightarrow> native_crash + jit_frame" where
  "store_slot i v f =
     (if i < length (jf_slots f) then Inr (f\<lparr>jf_slots := (jf_slots f)[i := v]\<rparr>) else Inl WildAccess)"

definition load_reg :: "register_map \<Rightarrow> jit_frame \<Rightarrow> u8 \<Rightarrow> native_crash + (i64 \<times> register_map)" where
  "load_reg rm f reg =
     (case rm_get rm reg of
        Some v \<Rightarrow> Inr (v, rm)
      | None \<Rightarrow> bind_res (native_load (jf_slots f) (unat reg)) (\<lambda>v. Inr (v, rm_set reg v rm)))"

fun flush_from :: "nat \<Rightarrow> register_map \<Rightarrow> jit_frame \<Rightarrow> native_crash + jit_frame" where
  "flush_from i [] f = Inr f"
| "flush_from i (None # rm) f = flush_from (Suc i) rm f"
| "flush_from i (Some v # rm) f = bind_res (store_slot i v f) (flush_from (Suc i) rm)"

definition flush_registers :: "register_map \<Rightarrow> jit_frame \<Rightarrow> native_crash + jit_frame" where
  "flush_registers rm f = flush_from 0 rm f"

section \<open>One instruction\<close>

record trace_code =
  tc_chunk :: chunk
  tc_registers :: nat
  tc_blocks :: "trace_block list"
  tc_supports_calls :: bool
  tc_trap_pc :: u32
  tc_last_return :: "u32 \<times> u32"

text \<open>Code goes on below, jumps to a block of the trace, returns to the dispatcher, or crashes.\<close>

datatype code_step =
    FallTo register_map jit_frame
  | Goto u32 jit_frame
  | Leave jit_frame
  | Crash native_crash

definition crash_or :: "native_crash + 'a \<Rightarrow> ('a \<Rightarrow> code_step) \<Rightarrow> code_step" where
  "crash_or r k = (case r of Inl e \<Rightarrow> Crash e | Inr x \<Rightarrow> k x)"

definition write_exit :: "u32 \<Rightarrow> u32 \<Rightarrow> u32 \<Rightarrow> jit_frame \<Rightarrow> jit_frame" where
  "write_exit kind pc return_reg f = f\<lparr>jf_exit_kind := kind, jf_pc := pc, jf_return_reg := return_reg\<rparr>"

definition block_at :: "trace_code \<Rightarrow> u32 \<Rightarrow> u32 list option" where
  "block_at t pc = map_of (tc_blocks t) pc"

definition branch_to_pc :: "trace_code \<Rightarrow> u32 \<Rightarrow> jit_frame \<Rightarrow> code_step" where
  "branch_to_pc t target f =
     (if block_at t target \<noteq> None then Goto target f else Leave (write_exit JIT_CONTINUE target 0 f))"

definition clif_binop :: "'m clif \<Rightarrow> opcode \<Rightarrow> i64 \<Rightarrow> i64 \<Rightarrow> i64" where
  "clif_binop c op lhs rhs =
     (case op of
        Add \<Rightarrow> cl_iadd c lhs rhs
      | Sub \<Rightarrow> cl_isub c lhs rhs
      | Mul \<Rightarrow> cl_imul c lhs rhs
      | Eq \<Rightarrow> if cl_equal c lhs rhs then 1 else 0
      | Lt \<Rightarrow> if cl_less c lhs rhs then 1 else 0
      | _ \<Rightarrow> if cl_less_eq c lhs rhs then 1 else 0)"

definition run_load :: "chunk \<Rightarrow> instruction \<Rightarrow> register_map \<Rightarrow> jit_frame \<Rightarrow> code_step" where
  "run_load ch i rm f =
     (case int_constant (chunk_constant ch (i_imm i)) of
        Some v \<Rightarrow> FallTo (rm_set (i_a i) v rm) f
      | None \<Rightarrow> Crash FellThrough)"

definition run_move :: "instruction \<Rightarrow> register_map \<Rightarrow> jit_frame \<Rightarrow> code_step" where
  "run_move i rm f = crash_or (load_reg rm f (i_b i)) (\<lambda>(v, rm). FallTo (rm_set (i_a i) v rm) f)"

definition run_binop :: "'m clif \<Rightarrow> instruction \<Rightarrow> register_map \<Rightarrow> jit_frame \<Rightarrow> code_step" where
  "run_binop c i rm f =
     crash_or (load_reg rm f (i_b i)) (\<lambda>(lhs, rm).
     crash_or (load_reg rm f (i_c i)) (\<lambda>(rhs, rm).
       FallTo (rm_set (i_a i) (clif_binop c (i_op i) lhs rhs) rm) f))"

definition run_division :: "'m clif \<Rightarrow> trace_code \<Rightarrow> instruction \<Rightarrow> register_map \<Rightarrow> jit_frame \<Rightarrow> code_step" where
  "run_division c t i rm f =
     crash_or (load_reg rm f (i_b i)) (\<lambda>(lhs, rm).
     crash_or (load_reg rm f (i_c i)) (\<lambda>(rhs, rm).
     crash_or (flush_registers rm f) (\<lambda>f.
       if cl_equal c rhs 0 then Leave (write_exit JIT_TRAP (tc_trap_pc t) 0 f)
       else case (if i_op i = Div then cl_sdiv c lhs rhs else cl_srem c lhs rhs) of
         Some v \<Rightarrow> FallTo (rm_set (i_a i) v rm) f
       | None \<Rightarrow> Crash IntegerOverflow)))"

definition run_neg :: "'m clif \<Rightarrow> instruction \<Rightarrow> register_map \<Rightarrow> jit_frame \<Rightarrow> code_step" where
  "run_neg c i rm f = crash_or (load_reg rm f (i_b i)) (\<lambda>(v, rm). FallTo (rm_set (i_a i) (cl_isub c 0 v) rm) f)"

definition run_jump :: "trace_code \<Rightarrow> u32 \<Rightarrow> instruction \<Rightarrow> register_map \<Rightarrow> jit_frame \<Rightarrow> code_step" where
  "run_jump t pc i rm f = crash_or (flush_registers rm f) (branch_to_pc t (jump_target pc (i_imm i)))"

definition run_branch :: "'m clif \<Rightarrow> trace_code \<Rightarrow> u32 \<Rightarrow> instruction \<Rightarrow> register_map \<Rightarrow> jit_frame \<Rightarrow> code_step" where
  "run_branch c t pc i rm f =
     crash_or (load_reg rm f (i_a i)) (\<lambda>(cond, rm).
     crash_or (flush_registers rm f) (\<lambda>f.
       let is_falsy = cl_equal c cond 0; fall_pc = pc + 1; falsy_pc = branch_target pc (i_imm i) in
       case (block_at t fall_pc, block_at t falsy_pc) of
         (Some _, Some _) \<Rightarrow> if is_falsy then Goto falsy_pc f else Goto fall_pc f
       | (Some _, None) \<Rightarrow> if is_falsy then Leave (write_exit JIT_CONTINUE falsy_pc 0 f) else Goto fall_pc f
       | (None, Some _) \<Rightarrow> if is_falsy then Goto falsy_pc f else Leave (write_exit JIT_CONTINUE fall_pc 0 f)
       | (None, None) \<Rightarrow> Leave (write_exit JIT_CONTINUE falsy_pc 0 f)))"

text \<open>An inlined call: the callee runs on the slots of its caller, its arguments copied to the front.\<close>

fun copy_args :: "nat \<Rightarrow> nat list \<Rightarrow> jit_frame \<Rightarrow> native_crash + jit_frame" where
  "copy_args dst [] f = Inr f"
| "copy_args dst (i # is) f =
     bind_res (native_load (jf_slots f) (dst + i)) (\<lambda>v. bind_res (store_slot i v f) (copy_args dst is))"

definition push_call :: "jit_call_record \<Rightarrow> jit_frame \<Rightarrow> native_crash + jit_frame" where
  "push_call r f =
     (if unat (jf_call_depth f) < length (jf_call_stack f)
      then Inr (f\<lparr>jf_call_stack := (jf_call_stack f)[unat (jf_call_depth f) := r], jf_call_depth := jf_call_depth f + 1\<rparr>)
      else Inl WildAccess)"

definition run_call :: "trace_code \<Rightarrow> u32 \<Rightarrow> instruction \<Rightarrow> register_map \<Rightarrow> jit_frame \<Rightarrow> code_step" where
  "run_call t pc i rm f =
     (case chunk_function (tc_chunk t) (i_imm i) of
        None \<Rightarrow> Crash FellThrough
      | Some def \<Rightarrow>
          crash_or (flush_registers rm f) (\<lambda>f.
            if block_at t (f_entry def) = None then Leave (write_exit JIT_CONTINUE pc 0 f)
            else if int MAX_JIT_CALL_DEPTH \<le> sint (jf_call_depth f) then Leave (write_exit JIT_EFFECT pc 0 f)
            else
              crash_or (push_call \<lparr>cr_return_pc = pc + 1, cr_return_function = jf_function f,
                  cr_dest_reg = ucast (i_a i), cr_caller_register_count = jf_register_count f\<rparr> f) (\<lambda>f.
              crash_or (copy_args (unat (i_a i)) [0..<unat (i_b i)] f) (\<lambda>f.
                Goto (f_entry def) (f\<lparr>jf_function := i_imm i, jf_register_count := ucast (f_num_registers def)\<rparr>)))))"

definition emit_return_code :: "u32 \<Rightarrow> u8 \<Rightarrow> jit_frame \<Rightarrow> code_step" where
  "emit_return_code pc return_reg f =
     (if jf_call_depth f = 0 then Leave (write_exit JIT_RETURN pc (ucast return_reg) f)
      else
        let f = f\<lparr>jf_call_depth := jf_call_depth f - 1\<rparr> in
        crash_or (ok_or (nth_opt (jf_call_stack f) (unat (jf_call_depth f))) WildAccess) (\<lambda>r.
        crash_or (native_load (jf_slots f) (unat return_reg)) (\<lambda>ret_val.
        crash_or (store_slot (unat (cr_dest_reg r)) ret_val f) (\<lambda>f.
          Leave (write_exit JIT_CONTINUE (cr_return_pc r) 0
            (f\<lparr>jf_function := cr_return_function r, jf_register_count := cr_caller_register_count r\<rparr>))))))"

definition run_return :: "trace_code \<Rightarrow> u32 \<Rightarrow> instruction \<Rightarrow> register_map \<Rightarrow> jit_frame \<Rightarrow> code_step" where
  "run_return t pc i rm f =
     crash_or (load_reg rm f (i_a i)) (\<lambda>(v, rm).
     crash_or (store_slot (unat (i_a i)) v f) (\<lambda>f.
       if tc_supports_calls t then emit_return_code pc (i_a i) f
       else Leave (write_exit JIT_RETURN (fst (tc_last_return t)) (snd (tc_last_return t)) (f\<lparr>jf_pc := pc\<rparr>))))"

definition run_instruction :: "'m clif \<Rightarrow> trace_code \<Rightarrow> u32 \<Rightarrow> instruction \<Rightarrow> register_map \<Rightarrow> jit_frame \<Rightarrow> code_step" where
  "run_instruction c t pc i rm f =
     (case i_op i of
        LoadImm \<Rightarrow> FallTo (rm_set (i_a i) (scast (i_imm i)) rm) f
      | LoadConst \<Rightarrow> run_load (tc_chunk t) i rm f
      | Move \<Rightarrow> run_move i rm f
      | Add \<Rightarrow> run_binop c i rm f
      | Sub \<Rightarrow> run_binop c i rm f
      | Mul \<Rightarrow> run_binop c i rm f
      | Eq \<Rightarrow> run_binop c i rm f
      | Lt \<Rightarrow> run_binop c i rm f
      | Le \<Rightarrow> run_binop c i rm f
      | Div \<Rightarrow> run_division c t i rm f
      | Mod \<Rightarrow> run_division c t i rm f
      | Neg \<Rightarrow> run_neg c i rm f
      | Jump \<Rightarrow> run_jump t pc i rm f
      | Branch \<Rightarrow> run_branch c t pc i rm f
      | Return \<Rightarrow> run_return t pc i rm f
      | Nop \<Rightarrow> FallTo rm f
      | Call \<Rightarrow> run_call t pc i rm f
      | _ \<Rightarrow> Crash FellThrough)"

section \<open>The whole trace\<close>

lemmas run_defs = run_load_def run_move_def run_binop_def run_division_def run_neg_def run_jump_def run_branch_def
  run_call_def run_return_def

lemma store_slot_frame:
  "store_slot i v f = Inr f' \<Longrightarrow> jf_budget f' = jf_budget f \<and> length (jf_slots f') = length (jf_slots f)"
  by (auto simp: store_slot_def split: if_splits)

lemma flush_frame:
  "flush_from i rm f = Inr f' \<Longrightarrow> jf_budget f' = jf_budget f \<and> length (jf_slots f') = length (jf_slots f)"
proof (induction i rm f rule: flush_from.induct)
  case (3 i v rm f)
  then show ?case by (fastforce simp: bind_res_Inr_iff dest: store_slot_frame)
qed simp_all

lemma copy_args_frame:
  "copy_args dst is f = Inr f' \<Longrightarrow> jf_budget f' = jf_budget f \<and> length (jf_slots f') = length (jf_slots f)"
proof (induction dst "is" f rule: copy_args.induct)
  case (2 dst i "is" f)
  then show ?case by (fastforce simp: bind_res_Inr_iff dest: store_slot_frame)
qed simp

lemma crash_or_cases:
  "crash_or r k = FallTo rm f \<longleftrightarrow> (\<exists>x. r = Inr x \<and> k x = FallTo rm f)"
  "crash_or r k = Goto pc f \<longleftrightarrow> (\<exists>x. r = Inr x \<and> k x = Goto pc f)"
  "crash_or r k = Leave f \<longleftrightarrow> (\<exists>x. r = Inr x \<and> k x = Leave f)"
  by (auto simp: crash_or_def split: sum.split)

lemma run_instruction_budget:
  "run_instruction c t pc i rm f = FallTo rm' f' \<Longrightarrow> jf_budget f' = jf_budget f"
  "run_instruction c t pc i rm f = Goto pc' f' \<Longrightarrow> jf_budget f' = jf_budget f"
  by (auto simp: run_instruction_def run_defs crash_or_cases branch_to_pc_def flush_registers_def Let_def
      emit_return_code_def push_call_def dest!: flush_frame copy_args_frame store_slot_frame
      split: opcode.splits option.splits if_splits)

definition block_entry :: "trace_code \<Rightarrow> register_map" where
  "block_entry t = rm_new (tc_registers t)"

text \<open>The tick before an instruction: leave with \<open>JIT_BUDGET\<close>, or one less.\<close>

definition emit_budget_tick :: "u32 \<Rightarrow> jit_frame \<Rightarrow> jit_frame + jit_frame" where
  "emit_budget_tick pc f =
     (if jf_budget f = 0 then Inl (write_exit JIT_BUDGET pc 0 f) else Inr (f\<lparr>jf_budget := jf_budget f - 1\<rparr>))"

function run_code :: "'m clif \<Rightarrow> trace_code \<Rightarrow> u32 list \<Rightarrow> register_map \<Rightarrow> jit_frame \<Rightarrow> native_crash + jit_frame" where
  "run_code c t [] rm f = Inl FellThrough"
| "run_code c t (pc # pcs) rm f =
     (case emit_budget_tick pc f of
        Inl f \<Rightarrow> Inr f
      | Inr f \<Rightarrow>
          (case run_instruction c t pc (ch_code (tc_chunk t) ! unat pc) rm f of
             FallTo rm f \<Rightarrow> run_code c t pcs rm f
           | Goto target f \<Rightarrow>
               (case block_at t target of
                  Some pcs \<Rightarrow> run_code c t pcs (block_entry t) f
                | None \<Rightarrow> Inl FellThrough)
           | Leave f \<Rightarrow> Inr f
           | Crash e \<Rightarrow> Inl e))"
  by pat_completeness auto
termination
  by (relation "measure (\<lambda>(_, _, _, _, f). unat (jf_budget f))")
    (auto dest!: run_instruction_budget simp: measure_unat emit_budget_tick_def split: if_splits)

declare run_code.simps(2) [simp del]

definition trace_entry :: "'m clif \<Rightarrow> trace_code \<Rightarrow> u32 \<Rightarrow> jit_entry" where
  "trace_entry c t entry_pc f =
     (case block_at t entry_pc of
        Some pcs \<Rightarrow> run_code c t pcs (block_entry t) f
      | None \<Rightarrow> Inl FellThrough)"

section \<open>Compiling\<close>

definition emit_check :: "chunk \<Rightarrow> u32 \<Rightarrow> compile_error + unit" where
  "emit_check ch pc =
     (let i = ch_code ch ! unat pc in
      if is_effect_opcode (i_op i) then Inl (UnsupportedOpcode (i_op i) pc)
      else if i_op i = LoadConst \<and> int_constant (chunk_constant ch (i_imm i)) = None then Inl (UnsupportedOpcode LoadConst pc)
      else if i_op i = Call \<and> chunk_function ch (i_imm i) = None then Inl (UnsupportedOpcode Call pc)
      else Inr ())"

fun emit_all :: "chunk \<Rightarrow> u32 list \<Rightarrow> compile_error + unit" where
  "emit_all ch [] = Inr ()"
| "emit_all ch (pc # pcs) = bind_res (emit_check ch pc) (\<lambda>_. emit_all ch pcs)"

definition block_terminated :: "chunk \<Rightarrow> trace_block \<Rightarrow> bool" where
  "block_terminated ch b = (i_op (ch_code ch ! unat (last (snd b))) \<in> {Return, Jump, Branch, Call})"

definition trace_code_of :: "chunk \<Rightarrow> function_def \<Rightarrow> trace_key \<Rightarrow> trace_block list \<Rightarrow> u32 \<Rightarrow> trace_code" where
  "trace_code_of ch def key blocks end_pc =
     \<lparr>tc_chunk = ch, tc_registers = unat (f_num_registers def), tc_blocks = blocks,
      tc_supports_calls = (\<exists>pc\<in>set (region_pcs blocks). i_op (ch_code ch ! unat pc) = Call),
      tc_trap_pc = end_pc,
      tc_last_return = (case last_return_in_region ch blocks of Some r \<Rightarrow> r | None \<Rightarrow> (tk_entry_pc key, 0))\<rparr>"

definition module_result :: "(string + unit) \<times> 'm \<Rightarrow> (compile_error + unit) \<times> 'm" where
  "module_result r = (case r of (Inl e, m) \<Rightarrow> (Inl (ModuleError e), m) | (Inr u, m) \<Rightarrow> (Inr u, m))"

definition compile_trace :: "'m clif \<Rightarrow> chunk \<Rightarrow> trace_key \<Rightarrow> 'm \<Rightarrow> (compile_error + compiled_trace) \<times> 'm" where
  "compile_trace c ch key m =
     (let empty = EmptyTrace (tk_function key) (tk_entry_pc key) in
      case chunk_function ch (tk_function key) of
        None \<Rightarrow> (Inl empty, m)
      | Some def \<Rightarrow>
          (let blocks = collect_trace_region ch key in
           case region_max_pc blocks of
             None \<Rightarrow> (Inl empty, m)
           | Some end_pc \<Rightarrow>
               (case module_result (cl_declare c key m) of
                  (Inl e, m) \<Rightarrow> (Inl e, m)
                | (Inr _, m) \<Rightarrow>
                    if map_of blocks (tk_entry_pc key) = None then (Inl empty, m)
                    else case emit_all ch (region_pcs blocks) of
                      Inl e \<Rightarrow> (Inl e, m)
                    | Inr _ \<Rightarrow>
                        (case module_result (cl_define c key (list_all (block_terminated ch) blocks) m) of
                           (Inl e, m) \<Rightarrow> (Inl e, m)
                         | (Inr _, m) \<Rightarrow>
                             (Inr \<lparr>ct_span = \<lparr>ts_function = tk_function key, ts_start = tk_entry_pc key,
                                    ts_end = (if end_pc = - 1 then end_pc else end_pc + 1)\<rparr>,
                                   ct_entry = trace_entry c (trace_code_of ch def key blocks end_pc) (tk_entry_pc key)\<rparr>, m)))))"

end
