(* ===== verification/BF_Jit_Dispatch.thy ===== *)
theory BF_Jit_Dispatch
  imports BF_Jit_Code
begin

text \<open>
  \<open>jit/{runtime,module_local,dispatch}.rs\<close>, \<open>JitContext\<close> of \<open>jit/trace.rs\<close> and \<open>scheduler/jit.rs\<close>: the shared trace cache,
  the thread's own code module, and the loop that tries a compiled trace before every interpreted instruction. An
  \<open>Arc<Chunk>\<close> is its address beside the chunk; \<open>addr\<close> is the address of the machine's image.
\<close>

section \<open>The shared runtime\<close>

type_synonym image = "nat \<times> chunk"

record jit_runtime =
  jr_chunk :: "image mutex"
  jr_hot_threshold :: u32
  jr_cache :: "trace_cache mutex"
  jr_hot :: "hot_counter mutex"

definition jit_runtime_new :: "image \<Rightarrow> u32 \<Rightarrow> jit_runtime" where
  "jit_runtime_new img threshold =
     \<lparr>jr_chunk = mutex_new img, jr_hot_threshold = threshold, jr_cache = mutex_new trace_cache_new, jr_hot = mutex_new []\<rparr>"

definition with_default_threshold :: "image \<Rightarrow> jit_runtime" where
  "with_default_threshold img = jit_runtime_new img HOT_THRESHOLD"

definition jit_chunk :: "jit_runtime \<Rightarrow> image option" where
  "jit_chunk rt = (if mx_poisoned (jr_chunk rt) then None else Some (mx_inner (jr_chunk rt)))"

definition matches_chunk :: "nat \<Rightarrow> jit_runtime \<Rightarrow> bool" where
  "matches_chunk addr rt = (\<not> mx_poisoned (jr_chunk rt) \<and> fst (mx_inner (jr_chunk rt)) = addr)"

text \<open>\<open>if let Ok(mut guard) = lock.write() { ... }\<close>: a poisoned lock skips the update.\<close>

definition if_live :: "('a \<Rightarrow> 'a) \<Rightarrow> 'a mutex \<Rightarrow> 'a mutex" where
  "if_live g m = (if mx_poisoned m then m else m\<lparr>mx_inner := g (mx_inner m)\<rparr>)"

definition jit_reload :: "image \<Rightarrow> jit_runtime \<Rightarrow> jit_runtime" where
  "jit_reload img rt =
     rt\<lparr>jr_chunk := if_live (\<lambda>_. img) (jr_chunk rt), jr_cache := if_live trace_cache_clear (jr_cache rt),
        jr_hot := if_live hot_clear (jr_hot rt)\<rparr>"

definition get_trace :: "trace_key \<Rightarrow> jit_runtime \<Rightarrow> jit_entry option" where
  "get_trace key rt =
     (if mx_poisoned (jr_cache rt) then None else map_option ct_entry (trace_cache_get key (mx_inner (jr_cache rt))))"

definition insert_trace :: "trace_key \<Rightarrow> compiled_trace \<Rightarrow> jit_runtime \<Rightarrow> jit_runtime" where
  "insert_trace key tr rt = rt\<lparr>jr_cache := if_live (trace_cache_insert key tr) (jr_cache rt)\<rparr>"

definition record_hot_hit :: "trace_key \<Rightarrow> jit_runtime \<Rightarrow> bool \<times> jit_runtime" where
  "record_hot_hit key rt =
     (if mx_poisoned (jr_hot rt) then (False, rt)
      else case hot_hit key (jr_hot_threshold rt) (mx_inner (jr_hot rt)) of
        (hot, h) \<Rightarrow> (hot, rt\<lparr>jr_hot := (jr_hot rt)\<lparr>mx_inner := h\<rparr>\<rparr>))"

text \<open>The thread-local module, created at first use.\<close>

definition with_jit_module ::
  "'m clif \<Rightarrow> 'm option \<Rightarrow> ('m \<Rightarrow> (compile_error + 'r) \<times> 'm) \<Rightarrow> (compile_error + 'r) \<times> 'm option" where
  "with_jit_module c slot f =
     (case slot of
        Some m \<Rightarrow> (case f m of (r, m) \<Rightarrow> (r, Some m))
      | None \<Rightarrow>
          (case cl_create c of
             Inl e \<Rightarrow> (Inl (Backend e), None)
           | Inr m \<Rightarrow> (case f m of (r, m) \<Rightarrow> (r, Some m))))"

section \<open>Registers and slots\<close>

datatype sync_slots_result = SyncOk | SyncDeopt | SyncUnavailable

fun int_slot :: "value \<Rightarrow> i64 option" where
  "int_slot (VInt i) = Some i"
| "int_slot (VBool b) = Some (if b then 1 else 0)"
| "int_slot VUnit = Some 0"
| "int_slot _ = None"

fun sync_from :: "i64 list \<Rightarrow> value list \<Rightarrow> sync_slots_result \<times> i64 list" where
  "sync_from (s # ss) (v # vs) =
     (case int_slot v of
        None \<Rightarrow> (SyncDeopt, s # ss)
      | Some i \<Rightarrow> (case sync_from ss vs of (r, ss) \<Rightarrow> (r, i # ss)))"
| "sync_from ss vs = (SyncOk, ss)"

definition sync_slots_from_vm :: "vm \<Rightarrow> i64 list \<Rightarrow> sync_slots_result \<times> i64 list" where
  "sync_slots_from_vm m slots =
     (case vm_frames m of [] \<Rightarrow> (SyncUnavailable, slots) | fr # _ \<Rightarrow> sync_from slots (fr_registers fr))"

fun sync_to :: "value list \<Rightarrow> i64 list \<Rightarrow> value list" where
  "sync_to (v # vs) (s # ss) = VInt s # sync_to vs ss"
| "sync_to vs ss = vs"

definition sync_slots_to_vm :: "vm \<Rightarrow> i64 list \<Rightarrow> unit vm_res" where
  "sync_slots_to_vm m slots =
     (case vm_frames m of
        [] \<Rightarrow> (Inl (Invariant ''empty frame stack while syncing slots''), m)
      | fr # frs \<Rightarrow> (Inr (), m\<lparr>vm_frames := fr\<lparr>fr_registers := sync_to (fr_registers fr) slots\<rparr> # frs\<rparr>))"

definition slot_capacity :: "vm \<Rightarrow> nat" where
  "slot_capacity m =
     (let here = (case current_num_registers m of Some n \<Rightarrow> unat n | None \<Rightarrow> 0) in
      fold max (map (\<lambda>def. unat (f_num_registers def)) (ch_functions (vm_chunk m))) here)"

section \<open>Running a trace\<close>

definition fresh_call_stack :: "jit_call_record list" where
  "fresh_call_stack = replicate MAX_JIT_CALL_DEPTH
     \<lparr>cr_return_pc = 0, cr_return_function = 0, cr_dest_reg = 0, cr_caller_register_count = 0\<rparr>"

definition native_frame :: "i64 list \<Rightarrow> u32 \<Rightarrow> u32 \<Rightarrow> u32 \<Rightarrow> u32 \<Rightarrow> jit_frame" where
  "native_frame slots pc budget function register_count =
     \<lparr>jf_slots = slots, jf_register_count = register_count, jf_pc = pc, jf_budget = budget, jf_function = function,
      jf_exit_kind = 0, jf_return_reg = 0, jf_call_depth = 0, jf_call_stack = fresh_call_stack\<rparr>"

definition run_compiled_trace ::
  "jit_entry \<Rightarrow> i64 list \<Rightarrow> u32 \<Rightarrow> u32 \<Rightarrow> u32 \<Rightarrow> u32 \<Rightarrow> native_crash + (jit_return \<times> i64 list)" where
  "run_compiled_trace entry slots pc budget function register_count =
     bind_res (entry (native_frame slots pc budget function register_count)) (\<lambda>f.
       Inr (\<lparr>jx_kind = jf_exit_kind f, jx_pc = jf_pc f, jx_return_reg = jf_return_reg f\<rparr>, jf_slots f))"

definition run_compiled_trace_ref ::
  "compiled_trace \<Rightarrow> i64 list \<Rightarrow> u32 \<Rightarrow> u32 \<Rightarrow> u32 \<Rightarrow> u32 \<Rightarrow> native_crash + (jit_return \<times> i64 list)" where
  "run_compiled_trace_ref tr slots pc budget function register_count =
     run_compiled_trace (ct_entry tr) slots pc budget function register_count"

definition exit_of :: "native_crash + (jit_return \<times> i64 list) \<Rightarrow> native_crash + (jit_exit option \<times> i64 list)" where
  "exit_of r = bind_res r (\<lambda>(ret, slots). Inr (Some (jit_into_reason ret), slots))"

text \<open>Writes of registers, the frame and the result of \<open>apply_exit_to_vm\<close>; \<open>slots[return_reg]\<close> panics out of range.\<close>

definition apply_exit_to_vm :: "vm \<Rightarrow> i64 list \<Rightarrow> jit_exit \<Rightarrow> (native_crash + (fault + vm_result option)) \<times> vm" where
  "apply_exit_to_vm m slots exit_reason =
     (let resync = (\<lambda>pc. case sync_slots_to_vm (set_pc m (unat pc)) slots of
                           (Inl f, m) \<Rightarrow> (Inr (Inl f), m)
                         | (Inr _, m) \<Rightarrow> (Inr (Inr None), m)) in
      case exit_reason of
        JReturn return_reg \<Rightarrow>
          (case nth_opt slots (unat return_reg) of
             None \<Rightarrow> (Inl IndexPanic, m)
           | Some s \<Rightarrow>
               (case set_reg m return_reg (VInt s) of
                  (Inl f, m) \<Rightarrow> (Inr (Inl f), m)
                | (Inr _, m) \<Rightarrow>
                    (case current_pc m of
                       None \<Rightarrow> (Inr (Inl empty_stack), m)
                     | Some pc \<Rightarrow> (case return_value (set_pc m (usize_sat_add pc 1)) (VInt s) of (r, m) \<Rightarrow> (Inr r, m)))))
      | JTrap pc \<Rightarrow> (Inr (Inr (Some (VmTrap DivideByZero))), set_pc m (unat pc))
      | JBudget pc \<Rightarrow> resync pc
      | JContinue pc \<Rightarrow> resync pc
      | JEffect pc \<Rightarrow> resync pc
      | JDeopt pc \<Rightarrow> (Inr (Inr None), set_pc m (unat pc)))"

section \<open>Hot traces of the runtime\<close>

record jit_metrics =
  jm_compiles :: u64
  jm_compile_failures :: u64
  jm_executions :: u64
  jm_misses :: u64
  jm_deopts :: u64

record 'm jit_state =
  js_runtime :: jit_runtime
  js_module :: "'m option"
  js_metrics :: "jit_metrics option"

definition inc_jit :: "(jit_metrics \<Rightarrow> jit_metrics) \<Rightarrow> 'm jit_state \<Rightarrow> 'm jit_state" where
  "inc_jit g s = s\<lparr>js_metrics := map_option g (js_metrics s)\<rparr>"

abbreviation inc_compiles :: "jit_metrics \<Rightarrow> jit_metrics" where
  "inc_compiles r \<equiv> r\<lparr>jm_compiles := jm_compiles r + 1\<rparr>"
abbreviation inc_compile_failures :: "jit_metrics \<Rightarrow> jit_metrics" where
  "inc_compile_failures r \<equiv> r\<lparr>jm_compile_failures := jm_compile_failures r + 1\<rparr>"
abbreviation inc_executions :: "jit_metrics \<Rightarrow> jit_metrics" where
  "inc_executions r \<equiv> r\<lparr>jm_executions := jm_executions r + 1\<rparr>"
abbreviation inc_misses :: "jit_metrics \<Rightarrow> jit_metrics" where
  "inc_misses r \<equiv> r\<lparr>jm_misses := jm_misses r + 1\<rparr>"
abbreviation inc_deopts :: "jit_metrics \<Rightarrow> jit_metrics" where
  "inc_deopts r \<equiv> r\<lparr>jm_deopts := jm_deopts r + 1\<rparr>"

text \<open>The source recurses after a compilation; \<open>fuel\<close> is the depth of the native stack.\<close>

fun try_run_hot_runtime ::
  "nat \<Rightarrow> 'm clif \<Rightarrow> chunk \<Rightarrow> trace_key \<Rightarrow> i64 list \<Rightarrow> u32 \<Rightarrow> u8 \<Rightarrow> 'm jit_state
   \<Rightarrow> (native_crash + (jit_exit option \<times> i64 list)) \<times> 'm jit_state" where
  "try_run_hot_runtime 0 c ch key slots budget register_count s = (Inl StackExhausted, s)"
| "try_run_hot_runtime (Suc fuel) c ch key slots budget register_count s =
     (case get_trace key (js_runtime s) of
        Some entry \<Rightarrow>
          (exit_of (run_compiled_trace entry slots (tk_entry_pc key) budget (tk_function key) (ucast register_count)),
           inc_jit inc_executions s)
      | None \<Rightarrow>
          (case record_hot_hit key (js_runtime s) of (hot, rt) \<Rightarrow>
           let s = s\<lparr>js_runtime := rt\<rparr> in
           if \<not> hot then (Inr (None, slots), inc_jit inc_misses s)
           else if get_trace key rt \<noteq> None then try_run_hot_runtime fuel c ch key slots budget register_count s
           else case with_jit_module c (js_module s) (compile_trace c ch key) of
             (Inl _, md) \<Rightarrow> (Inr (None, slots), inc_jit inc_compile_failures (s\<lparr>js_module := md\<rparr>))
           | (Inr tr, md) \<Rightarrow>
               try_run_hot_runtime fuel c ch key slots budget register_count
                 (inc_jit inc_compiles (s\<lparr>js_module := md, js_runtime := insert_trace key tr rt\<rparr>))))"

definition step_of :: "vm \<Rightarrow> (native_crash + (jit_exit option \<times> i64 list)) \<Rightarrow> (native_crash + vm_result option) \<times> vm" where
  "step_of m r =
     (case r of
        Inl e \<Rightarrow> (Inl e, m)
      | Inr (None, _) \<Rightarrow> (Inr None, m)
      | Inr (Some exit_reason, slots) \<Rightarrow>
          (case apply_exit_to_vm m slots exit_reason of
             (Inl e, m) \<Rightarrow> (Inl e, m)
           | (Inr (Inl f), m) \<Rightarrow> (Inr (Some (VmTrap f)), m)
           | (Inr (Inr r), m) \<Rightarrow> (Inr r, m)))"

definition try_jit_step_runtime ::
  "nat \<Rightarrow> 'm clif \<Rightarrow> nat \<Rightarrow> vm \<Rightarrow> u32 \<Rightarrow> 'm jit_state \<Rightarrow> (native_crash + vm_result option) \<times> vm \<times> 'm jit_state" where
  "try_jit_step_runtime fuel c addr m budget s =
     (if \<not> matches_chunk addr (js_runtime s) then (Inr None, m, s)
      else case (current_pc m, current_num_registers m) of
        (Some pc, Some register_count) \<Rightarrow>
          (case sync_slots_from_vm m (replicate (slot_capacity m) 0) of
             (SyncOk, slots) \<Rightarrow>
               (case try_run_hot_runtime fuel c (vm_chunk m)
                       \<lparr>tk_function = current_function m, tk_entry_pc = word_of_nat pc\<rparr> slots budget register_count s of
                  (r, s) \<Rightarrow> (case step_of m r of (r, m) \<Rightarrow> (r, m, s)))
           | (SyncDeopt, _) \<Rightarrow> (Inr None, m, inc_jit inc_deopts s)
           | (SyncUnavailable, _) \<Rightarrow> (Inr None, m, s))
      | _ \<Rightarrow> (Inr None, m, s))"

section \<open>The quantum loop\<close>

fun run_vm_with_jit_loop ::
  "(u64 \<Rightarrow> cell_store) \<Rightarrow> (vm \<Rightarrow> u32 \<Rightarrow> 's \<Rightarrow> (native_crash + vm_result option) \<times> vm \<times> 's) \<Rightarrow> nat \<Rightarrow> vm \<Rightarrow> 's
   \<Rightarrow> (native_crash + vm_result) \<times> vm \<times> 's" where
  "run_vm_with_jit_loop cells try_step 0 m s = (Inr VmYield, m, s)"
| "run_vm_with_jit_loop cells try_step (Suc n) m s =
     (case try_step m (word_of_nat (Suc n)) s of
        (Inl e, m, s) \<Rightarrow> (Inl e, m, s)
      | (Inr (Some r), m, s) \<Rightarrow> (Inr r, m, s)
      | (Inr None, m, s) \<Rightarrow>
          (case vm_run cells 1 m of
             (m, VmYield) \<Rightarrow> run_vm_with_jit_loop cells try_step n m s
           | (m, r) \<Rightarrow> (Inr r, m, s)))"

definition run_vm_with_jit_runtime ::
  "(u64 \<Rightarrow> cell_store) \<Rightarrow> nat \<Rightarrow> 'm clif \<Rightarrow> nat \<Rightarrow> u32 \<Rightarrow> vm \<Rightarrow> 'm jit_state \<Rightarrow> (native_crash + vm_result) \<times> vm \<times> 'm jit_state" where
  "run_vm_with_jit_runtime cells fuel c addr budget m s =
     run_vm_with_jit_loop cells (try_jit_step_runtime fuel c addr) (unat budget) m s"

record jit_config =
  jcfg_enabled :: bool
  jcfg_hot_threshold :: u32

definition jit_config_default :: jit_config where
  "jit_config_default = \<lparr>jcfg_enabled = False, jcfg_hot_threshold = HOT_THRESHOLD\<rparr>"

definition jit_new_runtime :: "image \<Rightarrow> u32 \<Rightarrow> jit_runtime" where
  "jit_new_runtime img hot_threshold = jit_runtime_new img hot_threshold"

definition jit_of_config :: "jit_config \<Rightarrow> image \<Rightarrow> jit_runtime option" where
  "jit_of_config cfg img = (if jcfg_enabled cfg then Some (jit_new_runtime img (jcfg_hot_threshold cfg)) else None)"

definition run_flow_quantum ::
  "(u64 \<Rightarrow> cell_store) \<Rightarrow> nat \<Rightarrow> 'm clif \<Rightarrow> nat \<Rightarrow> u32 \<Rightarrow> flow \<Rightarrow> 'm jit_state option
   \<Rightarrow> (native_crash + vm_result) \<times> flow \<times> 'm jit_state option" where
  "run_flow_quantum cells fuel c addr budget fl jit =
     (case jit of
        None \<Rightarrow> (case vm_run cells (unat budget) (fl_vm fl) of (m, r) \<Rightarrow> (Inr r, fl\<lparr>fl_vm := m\<rparr>, None))
      | Some s \<Rightarrow>
          (case run_vm_with_jit_runtime cells fuel c addr budget (fl_vm fl) s of
             (r, m, s) \<Rightarrow> (r, fl\<lparr>fl_vm := m\<rparr>, Some s)))"

section \<open>The context a host compiles with\<close>

record 'm jit_context =
  jc_image :: image
  jc_cache :: trace_cache
  jc_hot :: hot_counter
  jc_hot_threshold :: u32
  jc_module :: 'm

definition jit_context_new :: "'m clif \<Rightarrow> image \<Rightarrow> compile_error + 'm jit_context" where
  "jit_context_new c img =
     (case cl_create c of
        Inl e \<Rightarrow> Inl (Backend e)
      | Inr m \<Rightarrow> Inr \<lparr>jc_image = img, jc_cache = trace_cache_new, jc_hot = [], jc_hot_threshold = HOT_THRESHOLD, jc_module = m\<rparr>)"

definition jit_context_reload :: "image \<Rightarrow> 'm jit_context \<Rightarrow> 'm jit_context" where
  "jit_context_reload img ctx =
     ctx\<lparr>jc_image := img, jc_cache := trace_cache_clear (jc_cache ctx), jc_hot := hot_clear (jc_hot ctx)\<rparr>"

type_synonym 'm hot_result = "(native_crash + (jit_exit option \<times> i64 list)) \<times> 'm jit_context \<times> jit_metrics option"

definition run_cached :: "trace_key \<Rightarrow> i64 list \<Rightarrow> u32 \<Rightarrow> u8 \<Rightarrow> 'm jit_context \<Rightarrow> jit_metrics option \<Rightarrow> 'm hot_result" where
  "run_cached key slots budget register_count ctx metrics =
     (case trace_cache_get key (jc_cache ctx) of
        None \<Rightarrow> (Inr (None, slots), ctx, metrics)
      | Some tr \<Rightarrow>
          (exit_of (run_compiled_trace_ref tr slots (tk_entry_pc key) budget (tk_function key) (ucast register_count)),
           ctx, map_option inc_executions metrics))"

definition try_run_hot ::
  "'m clif \<Rightarrow> chunk \<Rightarrow> trace_key \<Rightarrow> i64 list \<Rightarrow> u32 \<Rightarrow> u8 \<Rightarrow> 'm jit_context \<Rightarrow> jit_metrics option \<Rightarrow> 'm hot_result" where
  "try_run_hot c ch key slots budget register_count ctx metrics =
     (if trace_cache_get key (jc_cache ctx) \<noteq> None then run_cached key slots budget register_count ctx metrics
      else case hot_hit key (jc_hot_threshold ctx) (jc_hot ctx) of (hot, h) \<Rightarrow>
        let ctx = ctx\<lparr>jc_hot := h\<rparr> in
        if \<not> hot then (Inr (None, slots), ctx, map_option inc_misses metrics)
        else case compile_trace c ch key (jc_module ctx) of
          (Inl _, md) \<Rightarrow> (Inr (None, slots), ctx\<lparr>jc_module := md\<rparr>, map_option inc_compile_failures metrics)
        | (Inr tr, md) \<Rightarrow>
            run_cached key slots budget register_count
              (ctx\<lparr>jc_module := md, jc_cache := trace_cache_insert key tr (jc_cache ctx)\<rparr>)
              (map_option inc_compiles metrics))"

definition try_jit_step ::
  "'m clif \<Rightarrow> nat \<Rightarrow> vm \<Rightarrow> u32 \<Rightarrow> 'm jit_context \<Rightarrow> (native_crash + vm_result option) \<times> vm \<times> 'm jit_context" where
  "try_jit_step c addr m budget ctx =
     (if fst (jc_image ctx) \<noteq> addr then (Inr None, m, ctx)
      else case (current_pc m, current_num_registers m) of
        (Some pc, Some register_count) \<Rightarrow>
          (case sync_slots_from_vm m (replicate (slot_capacity m) 0) of
             (SyncOk, slots) \<Rightarrow>
               (case try_run_hot c (vm_chunk m)
                       \<lparr>tk_function = current_function m, tk_entry_pc = word_of_nat pc\<rparr> slots budget register_count ctx None of
                  (r, ctx, _) \<Rightarrow> (case step_of m r of (r, m) \<Rightarrow> (r, m, ctx)))
           | _ \<Rightarrow> (Inr None, m, ctx))
      | _ \<Rightarrow> (Inr None, m, ctx))"

definition run_vm_with_jit ::
  "(u64 \<Rightarrow> cell_store) \<Rightarrow> 'm clif \<Rightarrow> nat \<Rightarrow> u32 \<Rightarrow> vm \<Rightarrow> 'm jit_context \<Rightarrow> (native_crash + vm_result) \<times> vm \<times> 'm jit_context" where
  "run_vm_with_jit cells c addr budget m ctx = run_vm_with_jit_loop cells (try_jit_step c addr) (unat budget) m ctx"

definition hot_threshold :: u32 where
  "hot_threshold = HOT_THRESHOLD"

definition force_compile :: "'m clif \<Rightarrow> chunk \<Rightarrow> trace_key \<Rightarrow> 'm jit_context \<Rightarrow> (compile_error + unit) \<times> 'm jit_context" where
  "force_compile c ch key ctx =
     (if trace_cache_get key (jc_cache ctx) \<noteq> None then (Inr (), ctx)
      else case compile_trace c ch key (jc_module ctx) of
        (Inl e, md) \<Rightarrow> (Inl e, ctx\<lparr>jc_module := md\<rparr>)
      | (Inr tr, md) \<Rightarrow> (Inr (), ctx\<lparr>jc_module := md, jc_cache := trace_cache_insert key tr (jc_cache ctx)\<rparr>))"

end
