(* ===== verification/BF_Jit_Safety.thy ===== *)
theory BF_Jit_Safety
  imports BF_Jit_Dispatch BF_Machine_Steps
begin

text \<open>
  What compiled traces do to a flow: a trace without inlined calls runs the way the interpreter does, up to the
  representation of booleans and \<open>Unit\<close>, and crashes only where a signed division overflows. \<open>clif_documented\<close> is what Cranelift documents of
  the instructions the compiler emits.
\<close>

section \<open>The code generator's documented behaviour\<close>

definition clif_documented :: "'m clif \<Rightarrow> bool" where
  "clif_documented c \<longleftrightarrow>
     cl_iadd c = (+) \<and> cl_isub c = (-) \<and> cl_imul c = (*) \<and> cl_equal c = (=)
     \<and> cl_less c = (\<lambda>x y. sint x < sint y) \<and> cl_less_eq c = (\<lambda>x y. sint x \<le> sint y)
     \<and> cl_sdiv c = (\<lambda>x y. if y = 0 \<or> x = 2 ^ 63 \<and> y = - 1 then None else Some (wrapping_div x y))
     \<and> cl_srem c = (\<lambda>x y. if y = 0 then None else Some (wrapping_rem x y))
     \<and> (\<forall>k m. \<not> is_ok (fst (cl_define c k False m)))"

lemma documented_ops:
  assumes "clif_documented c"
  shows "cl_iadd c x y = x + y" "cl_isub c x y = x - y" "cl_imul c x y = x * y" "cl_equal c x y \<longleftrightarrow> x = y"
    "cl_less c x y \<longleftrightarrow> sint x < sint y" "cl_less_eq c x y \<longleftrightarrow> sint x \<le> sint y"
    "cl_sdiv c x y = (if y = 0 \<or> x = 2 ^ 63 \<and> y = - 1 then None else Some (wrapping_div x y))"
    "cl_srem c x y = (if y = 0 then None else Some (wrapping_rem x y))"
  using assms by (auto simp: clif_documented_def)

text \<open>A code generator that behaves as documented and accepts every well-formed function.\<close>

definition plain_clif :: "unit clif" where
  "plain_clif =
     \<lparr>cl_iadd = (+), cl_isub = (-), cl_imul = (*),
      cl_sdiv = (\<lambda>x y. if y = 0 \<or> x = 2 ^ 63 \<and> y = - 1 then None else Some (wrapping_div x y)),
      cl_srem = (\<lambda>x y. if y = 0 then None else Some (wrapping_rem x y)),
      cl_equal = (=), cl_less = (\<lambda>x y. sint x < sint y), cl_less_eq = (\<lambda>x y. sint x \<le> sint y),
      cl_create = Inr (), cl_declare = (\<lambda>_ m. (Inr (), m)),
      cl_define = (\<lambda>_ terminated m. (if terminated then Inr () else Inl ''verifier errors'', m))\<rparr>"

lemma plain_clif_documented [simp]: "clif_documented plain_clif"
  by (simp add: clif_documented_def plain_clif_def fun_eq_iff)

section \<open>Blocks\<close>

definition chained :: "u32 list \<Rightarrow> bool" where
  "chained pcs \<longleftrightarrow> successively (\<lambda>p q. q = p + 1) pcs"

definition block_ok :: "chunk \<Rightarrow> trace_block \<Rightarrow> bool" where
  "block_ok ch b \<longleftrightarrow> snd b \<noteq> [] \<and> hd (snd b) = fst b \<and> chained (snd b) \<and> (\<forall>p\<in>set (snd b). unat p < length (ch_code ch))"

lemma chained_simps [simp]:
  "chained [p]" "chained (p # q # ps) \<longleftrightarrow> q = p + 1 \<and> chained (q # ps)"
  by (simp_all add: chained_def)

lemma scan_block_ok: "scan_block ch pc n = (pcs, starts, n') \<Longrightarrow> pcs \<noteq> [] \<Longrightarrow> block_ok ch (pc, pcs)"
proof (induction "MAX_TRACE_LENGTH - n" arbitrary: pc n pcs starts n' rule: less_induct)
  case less
  have step: "block_ok ch (pc, pc # ps)"
    if more: "\<not> MAX_TRACE_LENGTH \<le> Suc n" and scan: "scan_block ch (pc + 1) (Suc n) = (ps, ss, n'')"
      and here: "nth_opt (ch_code ch) (unat pc) = Some i" for ps ss n'' i
  proof (cases "ps = []")
    case False
    have "block_ok ch (pc + 1, ps)"
      using more False by (intro less.hyps [OF _ scan]) (simp_all add: diff_less_mono2 not_le)
    then show ?thesis using False here by (cases ps) (auto simp: block_ok_def nth_opt_Some_iff)
  qed (use here in \<open>simp add: block_ok_def nth_opt_Some_iff\<close>)
  have base: "block_ok ch (pc, [pc])" if "nth_opt (ch_code ch) (unat pc) = Some i" for i
    using that by (simp add: block_ok_def nth_opt_Some_iff)
  show ?case
    using less.prems unfolding scan_block.simps [of ch pc n]
    by (auto split: option.splits if_splits prod.splits intro: step base)
qed

lemma collect_blocks_ok: "b \<in> set (collect_blocks ch queue seen n) \<Longrightarrow> block_ok ch b"
proof (induction ch queue seen n rule: collect_blocks.induct)
  case (2 ch start queue seen n)
  obtain pcs starts n' where scan: "scan_block ch start n = (pcs, starts, n')" by (metis prod_cases3)
  show ?case
    using 2 scan_block_ok [OF scan] scan unfolding collect_blocks.simps(2) [of ch start]
    by (cases "start \<in> seen"; cases "MAX_TRACE_LENGTH \<le> n"; cases "pcs = []") auto
qed simp

section \<open>Registers and their shadow\<close>

definition shadow_at :: "register_map \<Rightarrow> i64 list \<Rightarrow> nat \<Rightarrow> i64" where
  "shadow_at rm slots i = (case nth_opt rm i of Some (Some v) \<Rightarrow> v | _ \<Rightarrow> slots ! i)"

definition shadows :: "register_map \<Rightarrow> i64 list \<Rightarrow> value list \<Rightarrow> bool" where
  "shadows rm slots regs \<longleftrightarrow>
     length rm = length regs \<and> length regs \<le> length slots
     \<and> (\<forall>i<length regs. int_slot (regs ! i) = Some (shadow_at rm slots i))"

lemma shadows_set:
  "shadows rm slots regs \<Longrightarrow> int_slot v = Some x \<Longrightarrow> shadows (rm_set a x rm) slots (regs[unat a := v])"
  by (cases "unat a < length regs") (auto simp: shadows_def rm_set_def shadow_at_def nth_opt_def nth_list_update)

lemma shadows_load:
  assumes "shadows rm (jf_slots f) regs" and "unat r < length regs" and "load_reg rm f r = Inr (x, rm')"
  shows "int_slot (regs ! unat r) = Some x \<and> shadows rm' (jf_slots f) regs"
  using assms
  by (auto simp: shadows_def load_reg_def rm_get_def rm_set_def native_load_def shadow_at_def nth_opt_def nth_list_update
      split: option.splits if_splits)

lemma load_ok: "shadows rm (jf_slots f) regs \<Longrightarrow> unat r < length regs \<Longrightarrow> load_reg rm f r \<noteq> Inl e"
  by (auto simp: shadows_def load_reg_def native_load_def split: option.split)

lemma flush_from_ok: "i + length rm \<le> length (jf_slots f) \<Longrightarrow> flush_from i rm f \<noteq> Inl e"
proof (induction i rm f rule: flush_from.induct)
  case (3 i v rm f)
  then show ?case by (auto simp: bind_res_Inl_iff store_slot_def)
qed simp_all

lemma flush_ok: "shadows rm (jf_slots f) regs \<Longrightarrow> flush_registers rm f \<noteq> Inl e"
  unfolding flush_registers_def by (rule flush_from_ok) (simp add: shadows_def)

lemma flush_from_slots:
  "flush_from i rm f = Inr f' \<Longrightarrow>
   jf_slots f' = map (\<lambda>j. case nth_opt rm (j - i) of Some (Some v) \<Rightarrow> if i \<le> j then v else jf_slots f ! j | _ \<Rightarrow> jf_slots f ! j)
     [0..<length (jf_slots f)]"
proof (induction i rm f arbitrary: f' rule: flush_from.induct)
  case (1 i f)
  then show ?case by (simp add: nth_opt_def map_nth)
next
  case (2 i rm f)
  have "nth_opt (None # rm) (j - i) = (if j \<le> i then Some None else nth_opt rm (j - Suc i))" for j
    by (cases "j - i") (auto simp: nth_opt_def simp flip: Suc_diff_Suc)
  with 2 show ?case by (auto split: option.split)
next
  case (3 i v rm f)
  from 3(2) obtain f1 where f1: "store_slot i v f = Inr f1" and rest: "flush_from (Suc i) rm f1 = Inr f'"
    by (auto simp: bind_res_Inr_iff)
  have "nth_opt (Some v # rm) (j - i) = (if j \<le> i then Some (Some v) else nth_opt rm (j - Suc i))" for j
    by (cases "j - i") (auto simp: nth_opt_def simp flip: Suc_diff_Suc)
  moreover have "jf_slots f1 = (jf_slots f)[i := v]" using f1 by (auto simp: store_slot_def split: if_splits)
  ultimately show ?case
    using 3(1) [OF rest] by (auto simp: nth_list_update split: option.split intro!: nth_equalityI)
qed

lemma shadows_flush:
  assumes "shadows rm (jf_slots f) regs" and "flush_registers rm f = Inr f'"
  shows "shadows (rm_new (length regs)) (jf_slots f') regs" "jf_call_depth f' = jf_call_depth f"
proof -
  have fl: "flush_from 0 rm f = Inr f'" using assms(2) by (simp add: flush_registers_def)
  show "shadows (rm_new (length regs)) (jf_slots f') regs"
    unfolding flush_from_slots [OF fl] using assms(1)
    by (auto simp: shadows_def rm_new_def shadow_at_def nth_opt_def split: option.split)
  have "flush_from i rm f = Inr f' \<Longrightarrow> jf_call_depth f' = jf_call_depth f" for i rm f f'
    by (induction i rm f rule: flush_from.induct)
      (auto simp: bind_res_Inr_iff store_slot_def split: if_splits)
  then show "jf_call_depth f' = jf_call_depth f" using fl by blast
qed

section \<open>The interpreter beside it\<close>

text \<open>The faults of an operation on a register that does not hold a number.\<close>

definition type_fault :: "fault \<Rightarrow> bool" where
  "type_fault e \<longleftrightarrow> e = bad_binop \<or> (\<exists>s t. e = TypeMismatch s t)"

lemma slot_of_uncharged: "int_slot v = Some x \<Longrightarrow> uncharged v"
  by (cases v) simp_all

lemma binop_agrees:
  assumes "clif_documented c" and "op \<in> {Add, Sub, Mul, Lt, Le}" and "int_slot a = Some x" and "int_slot b = Some y"
  shows "(\<exists>e. binop_value op a b = Inl e \<and> type_fault e) \<or>
         (\<exists>v. binop_value op a b = Inr v \<and> int_slot v = Some (clif_binop c op x y))"
  using assms(2-4)
  by (cases a; cases b) (auto simp: binop_value_def clif_binop_def documented_ops [OF assms(1)] float_op_def as_f64_def type_fault_def)

lemma division_agrees:
  assumes "op \<in> {Div, Mod}" and "int_slot a = Some x" and "int_slot b = Some y"
  shows "(\<exists>e. binop_value op a b = Inl e \<and> type_fault e) \<or>
         binop_value op a b = (if y = 0 then Inl DivideByZero
           else Inr (VInt (if op = Div then wrapping_div x y else wrapping_rem x y)))"
  using assms by (cases a; cases b) (auto simp: binop_value_def as_f64_def type_fault_def)

lemma neg_agrees:
  "int_slot v = Some x \<Longrightarrow> (\<exists>e. neg_value v = Inl e \<and> type_fault e) \<or> neg_value v = Inr (VInt (- x))"
  by (cases v) (auto simp: neg_value_def type_fault_def)

lemma truthy_agrees: "int_slot v = Some x \<Longrightarrow> is_truthy v \<longleftrightarrow> x \<noteq> 0"
  by (cases v) (auto split: if_splits)

section \<open>One instruction agrees\<close>

text \<open>
  An instruction the theorem speaks about: arithmetic other than \<open>Eq\<close>, moves, jumps and returns, with its registers inside
  the frame, its target representable, a \<open>Branch\<close> with at least one successor in the trace, and one register for every
  \<open>Return\<close>.
\<close>

definition int_op :: "chunk \<Rightarrow> trace_block list \<Rightarrow> nat \<Rightarrow> u8 \<Rightarrow> u32 \<Rightarrow> bool" where
  "int_op ch blocks n r pc \<longleftrightarrow>
     (let i = ch_code ch ! unat pc; target = uint pc + 1 + sint (i_imm i) in
      i_op i \<in> {Nop, LoadConst, LoadImm, Move, Add, Sub, Mul, Div, Mod, Lt, Le, Neg, Jump, Branch, Return}
      \<and> unat (i_a i) < n \<and> unat (i_b i) < n \<and> unat (i_c i) < n \<and> pc \<noteq> - 1
      \<and> (i_op i \<in> {Jump, Branch} \<longrightarrow> 0 \<le> target \<and> target < 2 ^ 32)
      \<and> (i_op i = Branch \<longrightarrow> map_of blocks (pc + 1) \<noteq> None \<or> map_of blocks (branch_target pc (i_imm i)) \<noteq> None)
      \<and> (i_op i = Return \<longrightarrow> i_a i = r))"

definition traced :: "'m clif \<Rightarrow> trace_code \<Rightarrow> nat \<Rightarrow> u8 \<Rightarrow> bool" where
  "traced c t n r \<longleftrightarrow>
     clif_documented c \<and> tc_registers t = n \<and> \<not> tc_supports_calls t
     \<and> (\<forall>b\<in>set (tc_blocks t). block_ok (tc_chunk t) b \<and> block_terminated (tc_chunk t) b \<and>
          (\<forall>pc\<in>set (snd b). int_op (tc_chunk t) (tc_blocks t) n r pc \<and> emit_check (tc_chunk t) pc = Inr ()
             \<and> (i_op (ch_code (tc_chunk t) ! unat pc) = Return \<longrightarrow> snd (tc_last_return t) = ucast r)))"

text \<open>The interpreter at a \<open>Return\<close> whose value the slot of \<open>r\<close> holds.\<close>

definition about_to_return :: "chunk \<Rightarrow> caller \<Rightarrow> u8 \<Rightarrow> i64 list \<Rightarrow> vm \<Rightarrow> bool" where
  "about_to_return ch frs r slots m \<longleftrightarrow>
     (\<exists>regs pc. at_pc ch frs regs pc m \<and> pc < length (ch_code ch) \<and> i_op (ch_code ch ! pc) = Return \<and> i_a (ch_code ch ! pc) = r
        \<and> unat r < length regs \<and> length regs \<le> length slots \<and> int_slot (regs ! unat r) = Some (slots ! unat r))"

definition in_step :: "chunk \<Rightarrow> caller \<Rightarrow> nat \<Rightarrow> register_map \<Rightarrow> i64 list \<Rightarrow> nat \<Rightarrow> vm \<Rightarrow> bool" where
  "in_step ch frs n rm slots pc m \<longleftrightarrow> (\<exists>regs. at_pc ch frs regs pc m \<and> shadows rm slots regs \<and> length regs = n)"

definition agrees :: "chunk \<Rightarrow> caller \<Rightarrow> nat \<Rightarrow> u8 \<Rightarrow> u32 \<Rightarrow> vm \<Rightarrow> vm \<times> ctl \<Rightarrow> code_step \<Rightarrow> bool" where
  "agrees ch frs n r pc m res st \<longleftrightarrow>
     (\<exists>m' e. res = (m', Stop (VmTrap e)) \<and> type_fault e) \<or>
     (case st of
        FallTo rm f \<Rightarrow> \<exists>m'. res = (m', Next) \<and> in_step ch frs n rm (jf_slots f) (Suc (unat pc)) m'
      | Goto target f \<Rightarrow> \<exists>m'. res = (m', Next) \<and> in_step ch frs n (rm_new n) (jf_slots f) (unat target) m'
      | Leave f \<Rightarrow>
          jf_exit_kind f = JIT_CONTINUE \<and>
            (\<exists>m'. res = (m', Next) \<and> in_step ch frs n (rm_new n) (jf_slots f) (unat (jf_pc f)) m')
        \<or> jf_exit_kind f = JIT_TRAP \<and> (\<exists>m'. res = (m', Stop (VmTrap DivideByZero)))
        \<or> jf_exit_kind f = JIT_RETURN \<and> jf_return_reg f = ucast r \<and> about_to_return ch frs r (jf_slots f) m
      | Crash e \<Rightarrow> e = IntegerOverflow)"

lemma store_agrees:
  assumes "at_pc ch frs regs pc' m1" and "shadows rm slots regs" and "unat a < length regs" and "int_slot v = Some x"
  shows "\<exists>m'. trap_unit (set_reg m1 a v) = (m', Next) \<and> in_step ch frs (length regs) (rm_set a x rm) slots pc' m'"
proof -
  obtain m' where "set_reg m1 a v = (Inr (), m')" "at_pc ch frs (regs[unat a := v]) pc' m'"
    using at_pc_set [OF assms(1, 3) slot_of_uncharged [OF assms(4)]] .
  then show ?thesis
    using shadows_set [OF assms(2, 4), of a] unfolding in_step_def by (intro exI [of _ m']) (auto simp: trap_unit_def)
qed

lemma shadow_slots:
  assumes "shadows (rm_new (length regs)) slots regs" and "i < length regs"
  shows "int_slot (regs ! i) = Some (slots ! i)"
  using assms by (auto simp: shadows_def shadow_at_def rm_new_def nth_opt_def)

lemma target_agrees:
  assumes "at_pc ch frs regs (Suc (unat pc)) m1" and "0 \<le> uint pc + 1 + sint imm" and "uint pc + 1 + sint imm < 2 ^ 32"
  shows "\<exists>m'. jump_by imm m1 = (m', Next) \<and> at_pc ch frs regs (unat (jump_target pc imm)) m'"
proof -
  have "uint (jump_target pc imm) = uint pc + 1 + sint imm"
    using assms(2, 3) by (simp only: jump_target_def uint_word_of_int) simp
  moreover have "i64_as_usize (uint pc + 1 + sint imm) = nat (uint pc + 1 + sint imm)"
    using assms(2, 3) by (simp add: i64_as_usize_nonneg)
  ultimately have "i64_as_usize (int (Suc (unat pc)) + sint imm) = unat (jump_target pc imm)"
    by (simp add: algebra_simps flip: nat_uint_eq)
  with assms(1) show ?thesis by (auto simp: at_pc_def jump_by_def Let_def)
qed

lemma fall_through: "pc \<noteq> - 1 \<Longrightarrow> unat (pc + 1) = Suc (unat pc)" for pc :: u32
  by (metis unatSuc Suc_eq_plus1 add.commute neg_eq_iff_add_eq_0 minus_equation_iff)

lemma loads_agree:
  assumes "load_reg rm f b = Inr (x, rm1)" and "load_reg rm1 f c = Inr (y, rm2)" and "shadows rm (jf_slots f) regs"
    and "unat b < length regs" and "unat c < length regs"
  shows "int_slot (regs ! unat b) = Some x" "int_slot (regs ! unat c) = Some y" "shadows rm2 (jf_slots f) regs"
  using shadows_load [OF assms(3, 4, 1)] shadows_load [OF _ assms(5, 2)] by auto

lemma value_agrees:
  assumes m1: "at_pc ch frs regs (Suc (unat pc)) m1" and sh: "shadows rm (jf_slots f) regs" and a: "unat a < length regs"
    and v: "(\<exists>e. r = Inl e \<and> type_fault e) \<or> (\<exists>v. r = Inr v \<and> int_slot v = Some x)"
  shows "agrees ch frs (length regs) ret pc m (trap_or m1 r (\<lambda>v. trap_unit (set_reg m1 a v))) (FallTo (rm_set a x rm) f)"
  using v
proof (elim disjE exE conjE)
  fix v assume "r = Inr v" "int_slot v = Some x"
  then show ?thesis using store_agrees [OF m1 sh a] by (simp add: trap_or_def agrees_def)
qed (auto simp: trap_or_def agrees_def)

lemma binop_step_agrees:
  assumes doc: "clif_documented c" and i: "i_op i \<in> {Add, Sub, Mul, Lt, Le}"
    and m1: "at_pc ch frs regs (Suc (unat pc)) m1" and sh: "shadows rm (jf_slots f) regs"
    and r: "unat (i_a i) < length regs" "unat (i_b i) < length regs" "unat (i_c i) < length regs"
  shows "agrees ch frs (length regs) ret pc m (op_binop i m1) (run_binop c i rm f)"
proof (cases "load_reg rm f (i_b i)")
  case (Inr p)
  obtain x rm1 where l1: "load_reg rm f (i_b i) = Inr (x, rm1)" using Inr by (cases p) auto
  show ?thesis
  proof (cases "load_reg rm1 f (i_c i)")
    case (Inr q)
    obtain y rm2 where l2: "load_reg rm1 f (i_c i) = Inr (y, rm2)" using Inr by (cases q) auto
    note ld = loads_agree [OF l1 l2 sh r(2, 3)]
    show ?thesis
      using value_agrees [OF m1 ld(3) r(1) binop_agrees [OF doc i ld(1, 2)]]
      by (simp add: op_binop_eq run_binop_def l1 l2 crash_or_def at_pc_get [OF m1] r)
  qed (use load_ok [OF _ r(3)] shadows_load [OF sh r(2) l1] in blast)
qed (use load_ok [OF sh r(2)] in blast)

lemma division_step_agrees:
  assumes doc: "clif_documented c" and i: "i_op i \<in> {Div, Mod}"
    and m1: "at_pc ch frs regs (Suc (unat pc)) m1" and sh: "shadows rm (jf_slots f) regs"
    and r: "unat (i_a i) < length regs" "unat (i_b i) < length regs" "unat (i_c i) < length regs"
  shows "agrees ch frs (length regs) ret pc m (op_binop i m1) (run_division c t i rm f)"
proof (cases "load_reg rm f (i_b i)")
  case (Inr p)
  obtain x rm1 where l1: "load_reg rm f (i_b i) = Inr (x, rm1)" using Inr by (cases p) auto
  show ?thesis
  proof (cases "load_reg rm1 f (i_c i)")
    case (Inr q)
    obtain y rm2 where l2: "load_reg rm1 f (i_c i) = Inr (y, rm2)" using Inr by (cases q) auto
    note ld = loads_agree [OF l1 l2 sh r(2, 3)]
    show ?thesis
    proof (cases "flush_registers rm2 f")
      case (Inr f1)
      have keep: "shadows rm2 (jf_slots f1) regs"
        using ld(3) flush_from_slots [OF Inr [unfolded flush_registers_def]]
        by (auto simp: shadows_def shadow_at_def nth_opt_def split: option.split)
      define w where "w = (if i_op i = Div then wrapping_div x y else wrapping_rem x y)"
      have eq: "op_binop i m1 =
          trap_or m1 (binop_value (i_op i) (regs ! unat (i_b i)) (regs ! unat (i_c i))) (\<lambda>v. trap_unit (set_reg m1 (i_a i) v))"
        by (simp add: op_binop_eq at_pc_get [OF m1] r)
      consider (typed) e where "binop_value (i_op i) (regs ! unat (i_b i)) (regs ! unat (i_c i)) = Inl e" "type_fault e"
        | (zero) "y = 0" "binop_value (i_op i) (regs ! unat (i_b i)) (regs ! unat (i_c i)) = Inl DivideByZero"
        | (num) "y \<noteq> 0" "binop_value (i_op i) (regs ! unat (i_b i)) (regs ! unat (i_c i)) = Inr (VInt w)"
        using division_agrees [OF i ld(1, 2)] by (auto simp: w_def split: if_splits)
      then show ?thesis
      proof cases
        case typed
        then show ?thesis by (auto simp: eq trap_or_def agrees_def)
      next
        case zero
        then show ?thesis
          by (simp add: eq trap_or_def run_division_def l1 l2 Inr crash_or_def agrees_def documented_ops [OF doc] write_exit_def)
      next
        case num
        have "run_division c t i rm f = Crash IntegerOverflow \<or> run_division c t i rm f = FallTo (rm_set (i_a i) w rm2) f1"
          using num(1) i by (auto simp: run_division_def l1 l2 Inr crash_or_def documented_ops [OF doc] w_def)
        moreover have "agrees ch frs (length regs) ret pc m
            (trap_or m1 (Inr (VInt w)) (\<lambda>v. trap_unit (set_reg m1 (i_a i) v))) (FallTo (rm_set (i_a i) w rm2) f1)"
          by (rule value_agrees [OF m1 keep r(1)]) simp
        ultimately show ?thesis by (auto simp: eq num(2)) (auto simp: agrees_def)
      qed
    qed (use flush_ok [OF ld(3)] in blast)
  qed (use load_ok [OF _ r(3)] shadows_load [OF sh r(2) l1] in blast)
qed (use load_ok [OF sh r(2)] in blast)

lemma jump_step_agrees:
  assumes m1: "at_pc ch frs regs (Suc (unat pc)) m1" and sh: "shadows rm (jf_slots f) regs"
    and tgt: "0 \<le> uint pc + 1 + sint (i_imm i)" "uint pc + 1 + sint (i_imm i) < 2 ^ 32"
  shows "agrees ch frs (length regs) ret pc m (op_jump i m1) (run_jump t pc i rm f)"
proof (cases "flush_registers rm f")
  case (Inr f1)
  from target_agrees [OF m1 tgt] obtain m' where
    "op_jump i m1 = (m', Next)" "at_pc ch frs regs (unat (jump_target pc (i_imm i))) m'"
    by (auto simp: op_jump_def)
  then show ?thesis
    using shadows_flush(1) [OF sh Inr]
    by (auto simp: run_jump_def Inr crash_or_def branch_to_pc_def agrees_def in_step_def write_exit_def)
qed (use flush_ok [OF sh] in blast)

lemma branch_step_agrees:
  assumes doc: "clif_documented c" and m1: "at_pc ch frs regs (Suc (unat pc)) m1" and sh: "shadows rm (jf_slots f) regs"
    and a: "unat (i_a i) < length regs" and pc: "pc \<noteq> - 1"
    and tgt: "0 \<le> uint pc + 1 + sint (i_imm i)" "uint pc + 1 + sint (i_imm i) < 2 ^ 32"
    and some: "block_at t (pc + 1) \<noteq> None \<or> block_at t (branch_target pc (i_imm i)) \<noteq> None"
  shows "agrees ch frs (length regs) ret pc m (op_branch i m1) (run_branch c t pc i rm f)"
proof (cases "load_reg rm f (i_a i)")
  case (Inr p)
  obtain x rm1 where l1: "load_reg rm f (i_a i) = Inr (x, rm1)" using Inr by (cases p) auto
  note ld = shadows_load [OF sh a l1]
  show ?thesis
  proof (cases "flush_registers rm1 f")
    case (Inr f1)
    have slots: "shadows (rm_new (length regs)) (jf_slots f1) regs" using shadows_flush(1) [OF _ Inr] ld by blast
    from target_agrees [OF m1 tgt] obtain m' where m':
      "jump_by (i_imm i) m1 = (m', Next)" "at_pc ch frs regs (unat (branch_target pc (i_imm i))) m'"
      by (auto simp: branch_target_def)
    have br: "op_branch i m1 = (if x = 0 then (m', Next) else (m1, Next))"
      using truthy_agrees [of "regs ! unat (i_a i)" x] ld m'(1) at_pc_get [OF m1 a] by (simp add: op_branch_def trap_or_def)
    have run: "run_branch c t pc i rm f =
        (if x = 0 then branch_to_pc t (branch_target pc (i_imm i)) f1 else branch_to_pc t (pc + 1) f1)"
      using some by (auto simp: run_branch_def l1 Inr crash_or_def documented_ops [OF doc] branch_to_pc_def split: option.split)
    show ?thesis
      using m1 m'(2) slots fall_through [OF pc]
      by (auto simp: br run branch_to_pc_def agrees_def in_step_def write_exit_def)
  qed (use flush_ok ld in blast)
qed (use load_ok [OF sh a] in blast)

lemma return_step_agrees:
  assumes here: "at_pc ch frs regs (unat pc) m" and len: "unat pc < length (ch_code ch)" and i: "i = ch_code ch ! unat pc"
    and ret: "i_op i = Return" "i_a i = r" and sh: "shadows rm (jf_slots f) regs" and a: "unat r < length regs"
    and last: "\<not> tc_supports_calls t" "snd (tc_last_return t) = ucast r"
  shows "agrees ch frs n r pc m res (run_return t pc i rm f)"
proof (cases "load_reg rm f r")
  case (Inr p)
  obtain x rm1 where l1: "load_reg rm f r = Inr (x, rm1)" using Inr by (cases p) auto
  note ld = shadows_load [OF sh a l1]
  have in_range: "length regs \<le> length (jf_slots f)" using sh by (simp add: shadows_def)
  have "about_to_return ch frs r ((jf_slots f)[unat r := x]) m"
    unfolding about_to_return_def using here len i ret ld a in_range by (intro exI [of _ regs] exI [of _ "unat pc"]) auto
  then show ?thesis
    using a in_range by (simp add: run_return_def ret l1 crash_or_def store_slot_def last agrees_def write_exit_def)
qed (use load_ok [OF sh a] in blast)

lemma instruction_agrees:
  assumes tr: "traced c t n r" and b: "b \<in> set (tc_blocks t)" "pc \<in> set (snd b)"
    and here: "in_step (tc_chunk t) frs n rm (jf_slots f) (unat pc) m"
  shows "agrees (tc_chunk t) frs n r pc m (vm_step cells m) (run_instruction c t pc (ch_code (tc_chunk t) ! unat pc) rm f)"
proof -
  define ch where "ch = tc_chunk t"
  define i where "i = ch_code ch ! unat pc"
  from here obtain regs where at: "at_pc ch frs regs (unat pc) m" and sh: "shadows rm (jf_slots f) regs" and n: "length regs = n"
    by (auto simp: in_step_def ch_def)
  have doc: "clif_documented c" and calls: "\<not> tc_supports_calls t" using tr by (simp_all add: traced_def)
  have len: "unat pc < length (ch_code ch)" using tr b by (auto simp: traced_def block_ok_def ch_def)
  have io: "int_op ch (tc_blocks t) n r pc" and last: "i_op i = Return \<longrightarrow> snd (tc_last_return t) = ucast r"
    using tr b by (auto simp: traced_def ch_def i_def)
  from at_pc_step [OF at len] obtain m1 cs where m1: "at_pc ch frs regs (Suc (unat pc)) m1"
    and step: "vm_step cells m = exec_instr cs i m1" unfolding i_def by blast
  have rg: "unat (i_a i) < length regs" "unat (i_b i) < length regs" "unat (i_c i) < length regs" "pc \<noteq> - 1"
    and tgt: "i_op i \<in> {Jump, Branch} \<Longrightarrow> 0 \<le> uint pc + 1 + sint (i_imm i)"
      "i_op i \<in> {Jump, Branch} \<Longrightarrow> uint pc + 1 + sint (i_imm i) < 2 ^ 32"
    and br: "i_op i = Branch \<Longrightarrow> block_at t (pc + 1) \<noteq> None \<or> block_at t (branch_target pc (i_imm i)) \<noteq> None"
    and ret: "i_op i = Return \<Longrightarrow> i_a i = r"
    using io by (auto simp: int_op_def Let_def i_def n block_at_def)
  note val = value_agrees [OF m1 sh rg(1)]
  have konst: "i_op i = LoadConst \<Longrightarrow> int_constant (chunk_constant ch (i_imm i)) \<noteq> None"
    using tr b by (auto simp: traced_def emit_check_def Let_def i_def ch_def split: if_splits)
  have load: "agrees ch frs n r pc m (op_load_const i m1) (run_load ch i rm f)" if "i_op i = LoadConst"
  proof (cases "int_constant (chunk_constant ch (i_imm i))")
    case (Some x)
    then obtain v where "chunk_constant ch (i_imm i) = Some v" "int_slot v = Some x"
      by (cases "chunk_constant ch (i_imm i)" rule: option.exhaust; cases "the (chunk_constant ch (i_imm i))") auto
    then show ?thesis using val [of "Inr v" x] m1 Some n by (simp add: op_load_const_def run_load_def at_pc_def trap_or_def)
  qed (use konst that in simp)
  have move: "agrees ch frs n r pc m (op_move i m1) (run_move i rm f)"
  proof (cases "load_reg rm f (i_b i)")
    case (Inr p)
    obtain x rm1 where l: "load_reg rm f (i_b i) = Inr (x, rm1)" using Inr by (cases p) auto
    show ?thesis
      using value_agrees [OF m1 _ rg(1), of rm1 f "Inr (regs ! unat (i_b i))" x] shadows_load [OF sh rg(2) l] n
      by (simp add: op_move_def run_move_def l crash_or_def at_pc_get [OF m1 rg(2)])
  qed (use load_ok [OF sh rg(2)] in blast)
  have neg: "agrees ch frs n r pc m (op_neg i m1) (run_neg c i rm f)"
  proof (cases "load_reg rm f (i_b i)")
    case (Inr p)
    obtain x rm1 where l: "load_reg rm f (i_b i) = Inr (x, rm1)" using Inr by (cases p) auto
    note ld = shadows_load [OF sh rg(2) l]
    show ?thesis
      using value_agrees [OF m1 _ rg(1), of rm1 f "neg_value (regs ! unat (i_b i))" "- x"] ld neg_agrees [of "regs ! unat (i_b i)" x] n
      by (auto simp: op_neg_def run_neg_def l crash_or_def at_pc_get [OF m1] rg documented_ops [OF doc])
  qed (use load_ok [OF sh rg(2)] in blast)
  have imm: "agrees ch frs n r pc m (op_load_imm i m1) (FallTo (rm_set (i_a i) (scast (i_imm i)) rm) f)"
    using val [of "Inr (VInt (scast (i_imm i)))"] n by (simp add: op_load_imm_def trap_or_def)
  have nop: "agrees ch frs n r pc m (m1, Next) (FallTo rm f)"
    using m1 sh n by (auto simp: agrees_def in_step_def)
  have "i_op i \<in> {Nop, LoadConst, LoadImm, Move, Add, Sub, Mul, Div, Mod, Lt, Le, Neg, Jump, Branch, Return}"
    using io by (simp add: int_op_def Let_def i_def)
  then have "agrees ch frs n r pc m (exec_instr cs i m1) (run_instruction c t pc i rm f)"
    using load move neg imm nop
      binop_step_agrees [OF doc _ m1 sh rg(1-3), of r] division_step_agrees [OF doc _ m1 sh rg(1-3), of r]
      jump_step_agrees [OF m1 sh tgt, of r] branch_step_agrees [OF doc m1 sh rg(1, 4) tgt br, of r]
      return_step_agrees [OF at len i_def _ ret sh _ calls, of n "op_return i m1"] rg(1) last n ret
    by (auto simp: exec_instr_def run_instruction_def ch_def)
  then show ?thesis by (simp add: step ch_def i_def)
qed

section \<open>Whole traces agree\<close>

text \<open>Every register's number is in its slot.\<close>

definition mirrors :: "chunk \<Rightarrow> caller \<Rightarrow> i64 list \<Rightarrow> nat \<Rightarrow> vm \<Rightarrow> bool" where
  "mirrors ch frs slots pc m \<longleftrightarrow>
     (\<exists>regs. at_pc ch frs regs pc m \<and> length regs \<le> length slots \<and> (\<forall>i<length regs. int_slot (regs ! i) = Some (slots ! i)))"

lemma in_step_mirrors: "in_step ch frs n (rm_new n) slots pc m \<Longrightarrow> mirrors ch frs slots pc m"
  unfolding in_step_def mirrors_def by (metis shadow_slots shadows_def)

text \<open>The interpreter gets where the trace left, in at most as many instructions, unless an operand is not a number.\<close>

fun exit_reached :: "chunk \<Rightarrow> caller \<Rightarrow> jit_exit \<Rightarrow> i64 list \<Rightarrow> vm \<times> vm_result \<Rightarrow> bool" where
  "exit_reached ch frs x slots (m', res) \<longleftrightarrow>
     (\<exists>e. res = VmTrap e \<and> type_fault e)
     \<or> (case x of
          JContinue pc \<Rightarrow> res = VmYield \<and> mirrors ch frs slots (unat pc) m'
        | JReturn a \<Rightarrow> res = VmYield \<and> about_to_return ch frs a slots m'
        | JTrap _ \<Rightarrow> res = VmTrap DivideByZero
        | _ \<Rightarrow> False)"

definition exits_like :: "(u64 \<Rightarrow> cell_store) \<Rightarrow> chunk \<Rightarrow> caller \<Rightarrow> nat \<Rightarrow> vm \<Rightarrow> jit_exit \<Rightarrow> i64 list \<Rightarrow> bool" where
  "exits_like cells ch frs budget m x slots \<longleftrightarrow> (\<exists>k\<le>budget. exit_reached ch frs x slots (vm_run cells k m))"

abbreviation exit_of_frame :: "jit_frame \<Rightarrow> jit_exit" where
  "exit_of_frame f \<equiv> jit_into_reason \<lparr>jx_kind = jf_exit_kind f, jx_pc = jf_pc f, jx_return_reg = jf_return_reg f\<rparr>"

lemma exits_like_next:
  assumes "vm_step cells m = (m', Next)" and "exits_like cells ch frs b m' x slots"
  shows "exits_like cells ch frs (Suc b) m x slots"
proof -
  from assms(2) obtain k where "k \<le> b" "exit_reached ch frs x slots (vm_run cells k m')"
    unfolding exits_like_def by blast
  then show ?thesis unfolding exits_like_def by (intro exI [of _ "Suc k"]) (simp add: assms(1))
qed

lemma exits_like_stop:
  assumes "vm_step cells m = (m', Stop (VmTrap e))" and "type_fault e \<or> e = DivideByZero \<and> (\<exists>pc. x = JTrap pc)"
  shows "exits_like cells ch frs (Suc b) m x slots"
  unfolding exits_like_def using assms by (intro exI [of _ 1]) auto

lemma exits_like_now:
  "mirrors ch frs slots (unat pc) m \<Longrightarrow> exits_like cells ch frs b m (JContinue pc) slots"
  "about_to_return ch frs a slots m \<Longrightarrow> exits_like cells ch frs b m (JReturn a) slots"
  unfolding exits_like_def by (intro exI [of _ 0]; simp)+

lemma ucast_reg: "ucast (ucast r :: u32) = r" for r :: u8
  by (rule bit_word_eqI) (simp add: bit_ucast_iff)

lemma leave_agrees:
  assumes ag: "agrees ch frs n r pc m (vm_step cells m) (Leave f)"
  shows "exits_like cells ch frs (Suc b) m (exit_of_frame f) (jf_slots f)"
proof -
  consider (typed) m' e where "vm_step cells m = (m', Stop (VmTrap e))" "type_fault e"
    | (cont) m' where "jf_exit_kind f = JIT_CONTINUE" "vm_step cells m = (m', Next)"
        "in_step ch frs n (rm_new n) (jf_slots f) (unat (jf_pc f)) m'"
    | (trap) m' where "jf_exit_kind f = JIT_TRAP" "vm_step cells m = (m', Stop (VmTrap DivideByZero))"
    | (ret) "jf_exit_kind f = JIT_RETURN" "jf_return_reg f = ucast r" "about_to_return ch frs r (jf_slots f) m"
    using ag unfolding agrees_def by auto
  then show ?thesis
  proof cases
    case typed
    then show ?thesis by (blast intro: exits_like_stop)
  next
    case cont
    then show ?thesis
      using exits_like_next [OF cont(2) exits_like_now(1) [OF in_step_mirrors [OF cont(3)]]]
      by (simp add: jit_into_reason_def)
  next
    case trap
    then show ?thesis by (intro exits_like_stop [OF trap(2)]) (simp add: jit_into_reason_def jit_kinds)
  next
    case ret
    then show ?thesis
      using exits_like_now(2) [OF ret(3)] by (simp add: jit_into_reason_def jit_kinds ucast_reg)
  qed
qed

text \<open>A run that crashes divided out of range, or met an operand that is not a number first.\<close>

definition untyped_within :: "(u64 \<Rightarrow> cell_store) \<Rightarrow> nat \<Rightarrow> vm \<Rightarrow> bool" where
  "untyped_within cells budget m \<longleftrightarrow> (\<exists>k\<le>budget. \<exists>m' e. vm_run cells k m = (m', VmTrap e) \<and> type_fault e)"

definition ends_like :: "(u64 \<Rightarrow> cell_store) \<Rightarrow> chunk \<Rightarrow> caller \<Rightarrow> nat \<Rightarrow> vm \<Rightarrow> native_crash + jit_frame \<Rightarrow> bool" where
  "ends_like cells ch frs budget m res \<longleftrightarrow>
     (case res of
        Inl e \<Rightarrow> e = IntegerOverflow \<or> untyped_within cells budget m
      | Inr f \<Rightarrow> jf_exit_kind f = JIT_BUDGET \<or> exits_like cells ch frs budget m (exit_of_frame f) (jf_slots f))"

lemma untyped_next:
  assumes "vm_step cells m = (m', Next)" and "untyped_within cells b m'"
  shows "untyped_within cells (Suc b) m"
proof -
  from assms(2) obtain k m'' e where "k \<le> b" "vm_run cells k m' = (m'', VmTrap e)" "type_fault e"
    by (auto simp: untyped_within_def)
  then show ?thesis using assms(1) unfolding untyped_within_def by (intro exI [of _ "Suc k"]) simp
qed

lemma ends_like_next:
  "vm_step cells m = (m', Next) \<Longrightarrow> ends_like cells ch frs b m' res \<Longrightarrow> ends_like cells ch frs (Suc b) m res"
  by (auto simp: ends_like_def split: sum.splits intro: untyped_next exits_like_next)

lemma ends_like_typed:
  assumes "vm_step cells m = (m', Stop (VmTrap e))" and "type_fault e"
  shows "ends_like cells ch frs (Suc b) m res"
proof -
  have "untyped_within cells (Suc b) m" unfolding untyped_within_def using assms by (intro exI [of _ 1]) auto
  then show ?thesis using assms by (auto simp: ends_like_def split: sum.splits intro: exits_like_stop)
qed

lemma falls_only_inside:
  "run_instruction c t pc i rm f = FallTo rm' f' \<Longrightarrow> i_op i \<notin> {Return, Jump, Branch, Call}"
  "run_instruction c t pc i rm f = Goto target f' \<Longrightarrow> block_at t target \<noteq> None"
  by (auto simp: run_instruction_def run_defs crash_or_cases branch_to_pc_def Let_def emit_return_code_def
      split: opcode.splits option.splits if_splits)

lemma run_code_agrees:
  assumes "traced c t n r" and "b \<in> set (tc_blocks t)" and "snd b = pre @ pcs" and "pcs \<noteq> []"
    and "in_step (tc_chunk t) frs n rm (jf_slots f) (unat (hd pcs)) m"
  shows "ends_like cells (tc_chunk t) frs (unat (jf_budget f)) m (run_code c t pcs rm f)"
  using assms
proof (induction c t pcs rm f arbitrary: b pre m rule: run_code.induct)
  case (1 c t rm f)
  then show ?case by simp
next
  case (2 c t pc pcs rm f)
  define f1 where "f1 = f\<lparr>jf_budget := jf_budget f - 1\<rparr>"
  define st where "st = run_instruction c t pc (ch_code (tc_chunk t) ! unat pc) rm f1"
  show ?case
  proof (cases "jf_budget f = 0")
    case True
    then show ?thesis by (simp add: run_code.simps(2) emit_budget_tick_def ends_like_def write_exit_def)
  next
    case some: False
    have tick: "emit_budget_tick pc f = Inr f1" using some by (simp add: emit_budget_tick_def f1_def)
    have budget: "unat (jf_budget f) = Suc (unat (jf_budget f1))"
      using some unat_gt_0 [of "jf_budget f"] by (simp add: f1_def unat_minus_one)
    have pc: "pc \<in> set (snd b)" using 2(5) by simp
    have bl: "block_terminated (tc_chunk t) b" "chained (snd b)" "pc \<noteq> - 1"
      using 2(3, 4) pc by (auto simp: traced_def block_ok_def int_op_def Let_def)
    have ag: "agrees (tc_chunk t) frs n r pc m (vm_step cells m) st"
      unfolding st_def using 2(7) by (intro instruction_agrees [OF 2(3, 4) pc]) (simp add: f1_def)
    have run: "run_code c t (pc # pcs) rm f = (case st of FallTo rm f \<Rightarrow> run_code c t pcs rm f
         | Goto target f \<Rightarrow> (case block_at t target of Some pcs \<Rightarrow> run_code c t pcs (block_entry t) f | None \<Rightarrow> Inl FellThrough)
         | Leave f \<Rightarrow> Inr f | Crash e \<Rightarrow> Inl e)"
      by (simp add: run_code.simps(2) tick st_def)
    show ?thesis
    proof (cases "\<exists>m' e. vm_step cells m = (m', Stop (VmTrap e)) \<and> type_fault e")
      case True
      then show ?thesis unfolding budget by (blast intro: ends_like_typed)
    next
      case False
      show ?thesis
      proof (cases st)
        case (FallTo rm2 f2)
        from ag False obtain m' where next_m: "vm_step cells m = (m', Next)"
          and step: "in_step (tc_chunk t) frs n rm2 (jf_slots f2) (Suc (unat pc)) m'"
          by (auto simp: agrees_def FallTo)
        have ne: "pcs \<noteq> []"
          using falls_only_inside(1) [OF st_def [symmetric, unfolded FallTo]] 2(5) bl(1) by (auto simp: block_terminated_def)
        have hd: "unat (hd pcs) = Suc (unat pc)"
          using 2(5) ne bl(2, 3) by (cases pcs) (auto simp: chained_def successively_append_iff fall_through)
        have "ends_like cells (tc_chunk t) frs (unat (jf_budget f2)) m' (run_code c t pcs rm2 f2)"
          using 2(5) step some ne
          by (intro 2(1) [OF tick st_def [symmetric, unfolded FallTo] 2(3, 4), of "pre @ [pc]"]) (simp_all add: hd)
        moreover have "jf_budget f2 = jf_budget f1" using run_instruction_budget(1) st_def FallTo by metis
        ultimately show ?thesis unfolding budget run FallTo by (auto intro: ends_like_next [OF next_m])
      next
        case (Goto target f2)
        from ag False obtain m' where next_m: "vm_step cells m = (m', Next)"
          and step: "in_step (tc_chunk t) frs n (rm_new n) (jf_slots f2) (unat target) m'"
          by (auto simp: agrees_def Goto)
        from falls_only_inside(2) [OF st_def [symmetric, unfolded Goto]] obtain pcs2 where at: "block_at t target = Some pcs2" by auto
        have b2: "(target, pcs2) \<in> set (tc_blocks t)" using at by (auto simp: block_at_def dest: map_of_SomeD)
        then have hd: "hd pcs2 = target" "pcs2 \<noteq> []" and entry: "block_entry t = rm_new n"
          using 2(3) by (auto simp: traced_def block_ok_def block_entry_def)
        have "ends_like cells (tc_chunk t) frs (unat (jf_budget f2)) m' (run_code c t pcs2 (block_entry t) f2)"
          using step some
          by (intro 2(2) [OF tick st_def [symmetric, unfolded Goto] at 2(3) b2, of "[]"]) (simp_all add: hd entry)
        moreover have "jf_budget f2 = jf_budget f1" using run_instruction_budget(2) st_def Goto by metis
        ultimately show ?thesis unfolding budget run Goto by (auto simp: at intro: ends_like_next [OF next_m])
      next
        case (Leave f2)
        then show ?thesis using leave_agrees [OF ag [unfolded Leave]] unfolding budget run by (simp add: ends_like_def)
      next
        case (Crash e)
        then show ?thesis using ag False unfolding run by (auto simp: agrees_def ends_like_def)
      qed
    qed
  qed
qed

section \<open>Compiled traces\<close>

lemma compile_traceD:
  assumes "clif_documented c" and "compile_trace c ch key md = (Inr tr, md')" and "chunk_function ch (tk_function key) = Some def"
  obtains end_pc where
    "ct_entry tr = trace_entry c (trace_code_of ch def key (collect_trace_region ch key) end_pc) (tk_entry_pc key)"
    "list_all (block_terminated ch) (collect_trace_region ch key)" "emit_all ch (region_pcs (collect_trace_region ch key)) = Inr ()"
proof -
  have refused: "fst (cl_define c key False m) \<noteq> Inr u" for m u
    using assms(1) by (auto simp: clif_documented_def) (metis is_ok_simps(2))
  show ?thesis
    using assms(2) unfolding compile_trace_def assms(3)
    by (cases "list_all (block_terminated ch) (collect_trace_region ch key)")
      (auto simp: Let_def module_result_def split: option.splits sum.splits prod.splits if_splits intro!: that
        dest: arg_cong [where f = fst] simp: refused)
qed

lemma compile_entry_block:
  assumes "compile_trace c ch key md = (Inr tr, md')" and "chunk_function ch (tk_function key) = Some def"
  shows "map_of (collect_trace_region ch key) (tk_entry_pc key) \<noteq> None"
  using assms(1) unfolding compile_trace_def assms(2)
  by (auto simp: Let_def split: option.splits sum.splits prod.splits if_splits)

lemma find_SomeD: "find P xs = Some x \<Longrightarrow> P x \<and> x \<in> set xs"
  by (induction xs) (auto split: if_splits)

lemma last_return_reg:
  assumes "list_all (int_op ch blocks n r) (region_pcs blocks)" and "pc \<in> set (region_pcs blocks)"
    and "i_op (ch_code ch ! unat pc) = Return"
  shows "snd (tc_last_return (trace_code_of ch def key blocks end_pc)) = ucast r"
proof -
  have "find (\<lambda>pc. i_op (ch_code ch ! unat pc) = Return) (rev (region_pcs blocks)) \<noteq> None"
    using assms(2, 3) by (auto simp: find_None_iff)
  then obtain p where f: "find (\<lambda>pc. i_op (ch_code ch ! unat pc) = Return) (rev (region_pcs blocks)) = Some p" by blast
  then have "i_op (ch_code ch ! unat p) = Return" "p \<in> set (region_pcs blocks)"
    using find_SomeD [OF f] by auto
  then have "i_a (ch_code ch ! unat p) = r"
    using assms(1) by (auto simp: list_all_iff int_op_def Let_def)
  then show ?thesis by (simp add: trace_code_of_def last_return_in_region_def f)
qed

lemma compiled_traced:
  assumes "clif_documented c" and ends: "list_all (block_terminated ch) (collect_trace_region ch key)"
    and emit: "emit_all ch (region_pcs (collect_trace_region ch key)) = Inr ()"
    and ops: "list_all (int_op ch (collect_trace_region ch key) n r) (region_pcs (collect_trace_region ch key))"
    and n: "unat (f_num_registers def) = n"
  shows "traced c (trace_code_of ch def key (collect_trace_region ch key) end_pc) n r"
proof -
  define blocks where "blocks = collect_trace_region ch key"
  define t where "t = trace_code_of ch def key blocks end_pc"
  have op: "int_op ch blocks n r pc" if "pc \<in> set (region_pcs blocks)" for pc
    using ops that by (simp add: list_all_iff blocks_def)
  have t: "tc_chunk t = ch" "tc_blocks t = blocks" "tc_registers t = n" "\<not> tc_supports_calls t"
    using op n by (fastforce simp: t_def trace_code_of_def int_op_def Let_def)+
  have chk: "emit_check ch pc = Inr ()" if "pc \<in> set pcs" "emit_all ch pcs = Inr ()" for pc pcs
    using that by (induction pcs) (auto simp: bind_res_Inr_iff)
  have "block_ok ch b \<and> block_terminated ch b \<and> (\<forall>pc\<in>set (snd b). int_op ch blocks n r pc \<and> emit_check ch pc = Inr ()
      \<and> (i_op (ch_code ch ! unat pc) = Return \<longrightarrow> snd (tc_last_return t) = ucast r))" if b: "b \<in> set blocks" for b
  proof -
    have "pc \<in> set (region_pcs blocks)" if "pc \<in> set (snd b)" for pc
      using b that by (auto simp: region_pcs_def)
    moreover have "block_terminated ch b" using ends b by (simp add: list_all_iff blocks_def)
    moreover have "block_ok ch b" using b unfolding blocks_def collect_trace_region_def by (rule collect_blocks_ok)
    ultimately show ?thesis
      using op chk [OF _ emit [folded blocks_def]] last_return_reg [OF ops [folded blocks_def]] unfolding t_def by blast
  qed
  then show ?thesis using assms(1) t unfolding traced_def t_def [symmetric] blocks_def [symmetric] by simp
qed

lemma sync_from_ok:
  "sync_from slots regs = (SyncOk, ready) \<Longrightarrow> length regs \<le> length slots \<Longrightarrow>
   length ready = length slots \<and> (\<forall>i<length regs. int_slot (regs ! i) = Some (ready ! i))"
proof (induction slots regs arbitrary: ready rule: sync_from.induct)
  case (1 s ss v vs)
  then show ?case by (auto simp: nth_Cons split: option.splits prod.splits nat.split)
qed auto

lemma compiled_run_agrees:
  assumes doc: "clif_documented c" and comp: "compile_trace c ch key md = (Inr tr, md')"
    and def: "chunk_function ch (tk_function key) = Some def"
    and ops: "list_all (int_op ch (collect_trace_region ch key) (length regs) r) (region_pcs (collect_trace_region ch key))"
    and here: "at_pc ch frs regs (unat (tk_entry_pc key)) m" and len: "length regs = unat (f_num_registers def)"
    and sync: "sync_slots_from_vm m slots = (SyncOk, ready)" and cap: "length regs \<le> length slots"
  shows "ends_like cells ch frs (unat budget) m
    (ct_entry tr (native_frame ready (tk_entry_pc key) budget (tk_function key) count))"
proof -
  from compile_traceD [OF doc comp def] obtain end_pc where
    entry: "ct_entry tr = trace_entry c (trace_code_of ch def key (collect_trace_region ch key) end_pc) (tk_entry_pc key)"
    and wf: "list_all (block_terminated ch) (collect_trace_region ch key)"
      "emit_all ch (region_pcs (collect_trace_region ch key)) = Inr ()" .
  define t where "t = trace_code_of ch def key (collect_trace_region ch key) end_pc"
  have tr: "traced c t (length regs) r" unfolding t_def by (rule compiled_traced [OF doc wf ops len [symmetric]])
  have t: "tc_chunk t = ch" "tc_registers t = length regs" by (simp_all add: t_def trace_code_of_def len)
  define f where "f = native_frame ready (tk_entry_pc key) budget (tk_function key) count"
  obtain pcs where at: "block_at t (tk_entry_pc key) = Some pcs"
    using compile_entry_block [OF comp def] by (auto simp: t_def trace_code_of_def block_at_def)
  have b: "(tk_entry_pc key, pcs) \<in> set (tc_blocks t)" using at by (auto simp: block_at_def dest: map_of_SomeD)
  then have pcs: "hd pcs = tk_entry_pc key" "pcs \<noteq> []" using tr by (auto simp: traced_def block_ok_def)
  have "sync_from slots regs = (SyncOk, ready)" using sync here by (auto simp: sync_slots_from_vm_def at_pc_def)
  then have "shadows (rm_new (length regs)) ready regs"
    using sync_from_ok cap by (auto simp: shadows_def rm_new_def shadow_at_def nth_opt_def)
  then have "in_step (tc_chunk t) frs (length regs) (block_entry t) (jf_slots f) (unat (hd pcs)) m"
    using here by (auto simp: in_step_def t block_entry_def f_def native_frame_def pcs)
  from run_code_agrees [OF tr b _ pcs(2) this, of "[]" cells] show ?thesis
    unfolding entry t_def [symmetric] f_def [symmetric] trace_entry_def at by (simp add: t f_def native_frame_def)
qed

section \<open>Properties\<close>



text \<open>A loop that counts \<open>r0\<close> up to \<open>r1\<close>, and a flow about to enter it.\<close>

definition counting_chunk :: chunk where
  "counting_chunk =
     \<lparr>ch_name = [], ch_constants = [],
      ch_code = [instr_abc Lt 2 0 1, instr_a_imm Branch 2 3, instr_a_imm LoadImm 3 1, instr_abc Add 0 0 3,
                 instr_only_imm Jump (- 5), instr_new Return 0 0 0 0],
      ch_functions = [\<lparr>f_name = [], f_entry = 0, f_arity = 0, f_num_registers = 4\<rparr>]\<rparr>"

definition counting_key :: trace_key where
  "counting_key = \<lparr>tk_function = 0, tk_entry_pc = 0\<rparr>"

definition counting_vm :: vm where
  "counting_vm =
     \<lparr>vm_chunk = counting_chunk, vm_natives = [], vm_native_gate = gate_deny 0 0 0,
      vm_frames = [\<lparr>fr_function = 0, fr_pc = 0, fr_registers = [VInt 0, VInt 2, VUnit, VUnit], fr_dest_reg = None\<rparr>],
      vm_instructions_executed = 0, vm_next_request_id = 1, vm_quota = None\<rparr>"

definition counting_code :: trace_code where
  "counting_code =
     \<lparr>tc_chunk = counting_chunk, tc_registers = 4, tc_blocks = [(0, [0, 1]), (2, [2, 3, 4]), (5, [5])],
      tc_supports_calls = False, tc_trap_pc = 5, tc_last_return = (5, 0)\<rparr>"

lemma counting_region: "collect_trace_region counting_chunk counting_key = [(0, [0, 1]), (2, [2, 3, 4]), (5, [5])]"
  by code_simp

lemma plain_compiles:
  assumes "chunk_function ch (tk_function key) = Some def" and "collect_trace_region ch key = blocks"
    and "region_max_pc blocks = Some end_pc" and "map_of blocks (tk_entry_pc key) \<noteq> None"
    and "emit_all ch (region_pcs blocks) = Inr ()" and "list_all (block_terminated ch) blocks" and "end_pc \<noteq> - 1"
    and "trace_code_of ch def key blocks end_pc = t"
  shows "compile_trace plain_clif ch key () =
     (Inr \<lparr>ct_span = \<lparr>ts_function = tk_function key, ts_start = tk_entry_pc key, ts_end = end_pc + 1\<rparr>,
           ct_entry = trace_entry plain_clif t (tk_entry_pc key)\<rparr>, ())"
proof -
  have "cl_declare plain_clif k m = (Inr (), m)" "cl_define plain_clif k True m = (Inr (), m)" for k m
    by (simp_all add: plain_clif_def)
  then show ?thesis using assms by (auto simp: compile_trace_def module_result_def Let_def)
qed

lemma counting_compiles:
  "compile_trace plain_clif counting_chunk counting_key () =
     (Inr \<lparr>ct_span = \<lparr>ts_function = tk_function counting_key, ts_start = tk_entry_pc counting_key, ts_end = 5 + 1\<rparr>,
           ct_entry = trace_entry plain_clif counting_code (tk_entry_pc counting_key)\<rparr>, ())"
  by (rule plain_compiles [OF _ counting_region, of "\<lparr>f_name = [], f_entry = 0, f_arity = 0, f_num_registers = 4\<rparr>"]; code_simp)

lemma counting_run:
  "run_compiled_trace (trace_entry plain_clif counting_code 0) [0, 2, 0, 0] 0 100 0 4 =
     Inr (\<lparr>jx_kind = JIT_RETURN, jx_pc = 5, jx_return_reg = 0\<rparr>, [2, 2, 0, 1])"
  by code_simp


text \<open>\<open>i64::MIN / -1\<close>, about to be divided.\<close>

definition dividing_chunk :: chunk where
  "dividing_chunk =
     \<lparr>ch_name = [], ch_constants = [], ch_code = [instr_abc Div 2 0 1, instr_new Return 2 0 0 0],
      ch_functions = [\<lparr>f_name = [], f_entry = 0, f_arity = 0, f_num_registers = 3\<rparr>]\<rparr>"

definition dividing_vm :: vm where
  "dividing_vm =
     \<lparr>vm_chunk = dividing_chunk, vm_natives = [], vm_native_gate = gate_deny 0 0 0,
      vm_frames = [\<lparr>fr_function = 0, fr_pc = 0, fr_registers = [VInt (2 ^ 63), VInt (- 1), VUnit], fr_dest_reg = None\<rparr>],
      vm_instructions_executed = 0, vm_next_request_id = 1, vm_quota = None\<rparr>"

definition dividing_code :: trace_code where
  "dividing_code =
     \<lparr>tc_chunk = dividing_chunk, tc_registers = 3, tc_blocks = [(0, [0, 1])],
      tc_supports_calls = False, tc_trap_pc = 1, tc_last_return = (1, 2)\<rparr>"

lemma dividing_region: "collect_trace_region dividing_chunk counting_key = [(0, [0, 1])]"
  by code_simp

lemma dividing_compiles:
  "compile_trace plain_clif dividing_chunk counting_key () =
     (Inr \<lparr>ct_span = \<lparr>ts_function = tk_function counting_key, ts_start = tk_entry_pc counting_key, ts_end = 1 + 1\<rparr>,
           ct_entry = trace_entry plain_clif dividing_code (tk_entry_pc counting_key)\<rparr>, ())"
  by (rule plain_compiles [OF _ dividing_region, of "\<lparr>f_name = [], f_entry = 0, f_arity = 0, f_num_registers = 3\<rparr>"]; code_simp)

lemma dividing_run: "run_compiled_trace (trace_entry plain_clif dividing_code 0) [2 ^ 63, - 1, 0] 0 100 0 3 = Inl IntegerOverflow"
  by code_simp


end
