(* ===== verification/BF_Jit_Faults.thy ===== *)
theory BF_Jit_Faults
  imports BF_Jit_Safety
begin

text \<open>
  Where the trace compiler departs from the interpreter: seven small programs the interpreter and the quantum loop of
  \<open>jit/dispatch.rs\<close> run to different ends, and a trace that survives the reload of the image it was compiled from. The
  runtime compiles at the first hit (\<open>hot_threshold\<close> 1).
\<close>

section \<open>Small programs\<close>

definition small_chunk :: "value list \<Rightarrow> instruction list \<Rightarrow> u32 list \<Rightarrow> chunk" where
  "small_chunk consts code entries =
     \<lparr>ch_name = [], ch_constants = consts, ch_code = code,
      ch_functions = map (\<lambda>e. \<lparr>f_name = [], f_entry = e, f_arity = 1, f_num_registers = 3\<rparr>) entries\<rparr>"

definition small_vm :: "chunk \<Rightarrow> vm" where
  "small_vm ch =
     \<lparr>vm_chunk = ch, vm_natives = [], vm_native_gate = gate_deny 0 0 0,
      vm_frames = [\<lparr>fr_function = 0, fr_pc = 0, fr_registers = [VUnit, VUnit, VUnit], fr_dest_reg = None\<rparr>],
      vm_instructions_executed = 0, vm_next_request_id = 1, vm_quota = None\<rparr>"

definition interpreted :: "nat \<Rightarrow> chunk \<Rightarrow> vm_result" where
  "interpreted budget ch = snd (vm_run (\<lambda>_ _. 0) budget (small_vm ch))"

definition small_state :: "chunk \<Rightarrow> unit jit_state" where
  "small_state ch = \<lparr>js_runtime = jit_runtime_new (0, ch) 1, js_module = None, js_metrics = None\<rparr>"

definition jitted :: "u32 \<Rightarrow> chunk \<Rightarrow> native_crash + vm_result" where
  "jitted budget ch = fst (run_vm_with_jit_runtime (\<lambda>_ _. 0) 2 plain_clif 0 budget (small_vm ch) (small_state ch))"

text \<open>Both successors of the branch leave the trace.\<close>

definition branch_chunk :: chunk where
  "branch_chunk = small_chunk []
     [instr_a_imm LoadImm 0 1, instr_a_imm LoadImm 1 7, instr_a_imm LoadImm 2 9, instr_a_imm Branch 0 1,
      instr_abc Exit 1 0 0, instr_abc Exit 2 0 0] [0]"

text \<open>Two returns of different registers.\<close>

definition return_chunk :: chunk where
  "return_chunk = small_chunk []
     [instr_a_imm LoadImm 0 1, instr_a_imm LoadImm 1 7, instr_a_imm LoadImm 2 9, instr_a_imm Branch 0 1,
      instr_abc Return 1 0 0, instr_abc Return 2 0 0] [0]"

text \<open>A block the budget ends in the middle.\<close>

definition budget_chunk :: chunk where
  "budget_chunk = small_chunk [] [instr_a_imm LoadImm 0 1, instr_a_imm LoadImm 0 2, instr_abc Return 0 0 0] [0]"

text \<open>A call whose callee writes the register its caller keeps a value in.\<close>

definition call_chunk :: chunk where
  "call_chunk = small_chunk []
     [instr_a_imm LoadImm 0 5, instr_a_imm LoadImm 1 6, instr_new Call 1 1 0 1, instr_abc Return 0 0 0,
      instr_a_imm LoadImm 0 9, instr_abc Return 0 0 0] [0, 4]"

text \<open>\<open>i64::MIN / -1\<close>\<close>

definition overflow_chunk :: chunk where
  "overflow_chunk = small_chunk [VInt (2 ^ 63)]
     [instr_a_imm LoadConst 0 0, instr_a_imm LoadImm 1 (- 1), instr_abc Div 2 0 1, instr_abc Return 2 0 0] [0]"

text \<open>An explicit yield; the loop cannot tell it from the end of its one-instruction slice.\<close>

definition yield_chunk :: chunk where
  "yield_chunk = small_chunk [] [instr_nullary Yield, instr_a_imm LoadImm 0 1, instr_abc Return 0 0 0] [0]"

text \<open>A register the frame does not have; the verifier leaves registers to the interpreter's bounds check.\<close>

definition register_chunk :: chunk where
  "register_chunk = small_chunk [] [instr_abc Return 200 0 0] [0]"

text \<open>Saturating addition compared as integers, so that evaluation does not count up to the bound.\<close>

lemma usize_sat_add_code [code]:
  "usize_sat_add a b = (if int a + int b \<le> 18446744073709551615 then a + b else usize_max)"
  by (auto simp: usize_sat_add_def usize_max_def)

section \<open>Properties\<close>

text \<open>C26: The trace compiler changes what these programs compute. A \<open>Branch\<close> with both successors outside the trace always takes the falsy one; a \<open>Return\<close> answers the register of the last \<open>Return\<close> of the region; a trace that runs out of budget inside a block forgets the registers the block wrote; an inlined callee overwrites the registers of its caller; \<open>i64::MIN / -1\<close>, which the interpreter wraps, kills the process; a flow that yields is not rescheduled; and a chunk the verifier accepts, whose register index the interpreter rejects, makes the compiled code read outside the slot table.\<close>

theorem jit_diverges_from_interpreter:
  "interpreted 100 branch_chunk = VmComplete (VInt 7) \<and> jitted 100 branch_chunk = Inr (VmComplete (VInt 9))
   \<and> interpreted 100 return_chunk = VmComplete (VInt 7) \<and> jitted 100 return_chunk = Inr (VmComplete (VInt 9))
   \<and> interpreted 100 budget_chunk = VmComplete (VInt 2) \<and> jitted 2 budget_chunk = Inr (VmComplete (VInt 0))
   \<and> interpreted 100 call_chunk = VmComplete (VInt 5) \<and> jitted 100 call_chunk = Inr (VmComplete (VInt 9))
   \<and> interpreted 100 overflow_chunk = VmComplete (VInt (2 ^ 63)) \<and> jitted 100 overflow_chunk = Inl IntegerOverflow
   \<and> interpreted 100 yield_chunk = VmYield \<and> jitted 100 yield_chunk = Inr (VmComplete (VInt 1))
   \<and> verify register_chunk = Inr () \<and> interpreted 100 register_chunk = VmTrap (RegisterOutOfRange 200 3)
   \<and> jitted 100 register_chunk = Inl WildAccess"
proof -
  have "interpreted 100 branch_chunk = VmComplete (VInt 7)" by code_simp
  moreover have "interpreted 100 return_chunk = VmComplete (VInt 7)" by code_simp
  moreover have "interpreted 100 budget_chunk = VmComplete (VInt 2)" by code_simp
  moreover have "interpreted 100 call_chunk = VmComplete (VInt 5)" by code_simp
  moreover have "interpreted 100 overflow_chunk = VmComplete (VInt (2 ^ 63))" by code_simp
  moreover have "jitted 100 branch_chunk = Inr (VmComplete (VInt 9))" by code_simp
  moreover have "jitted 100 return_chunk = Inr (VmComplete (VInt 9))" by code_simp
  moreover have "jitted 2 budget_chunk = Inr (VmComplete (VInt 0))" by code_simp
  moreover have "jitted 100 call_chunk = Inr (VmComplete (VInt 9))" by code_simp
  moreover have "jitted 100 overflow_chunk = Inl IntegerOverflow" by code_simp
  moreover have "interpreted 100 yield_chunk = VmYield" by code_simp
  moreover have "jitted 100 yield_chunk = Inr (VmComplete (VInt 1))" by code_simp
  moreover have "verify register_chunk = Inr ()" by code_simp
  moreover have "interpreted 100 register_chunk = VmTrap (RegisterOutOfRange 200 3)" by code_simp
  moreover have "jitted 100 register_chunk = Inl WildAccess" by code_simp
  ultimately show ?thesis by simp
qed

text \<open>
  A worker checks \<open>matches_chunk\<close>, compiles, and inserts the trace; the host reloads the image in between. The traces are
  keyed by function and program counter only.
\<close>

definition first_key :: trace_key where
  "first_key = \<lparr>tk_function = 0, tk_entry_pc = 0\<rparr>"

definition old_chunk :: chunk where
  "old_chunk = small_chunk [] [instr_a_imm LoadImm 0 7, instr_abc Return 0 0 0] [0]"

definition new_chunk :: chunk where
  "new_chunk = small_chunk [] [instr_a_imm LoadImm 0 9, instr_abc Return 0 0 0] [0]"

definition reloaded_meanwhile :: "jit_runtime" where
  "reloaded_meanwhile =
     (let rt = jit_runtime_new (0, old_chunk) 1 in
      case compile_trace plain_clif old_chunk first_key () of
        (Inr tr, _) \<Rightarrow> insert_trace first_key tr (jit_reload (1, new_chunk) rt)
      | (Inl _, _) \<Rightarrow> jit_reload (1, new_chunk) rt)"

text \<open>C27: Reloading the image drops every trace, but it is not atomic with a compilation under way: a worker that checked the image before the reload and inserts its trace after it puts a trace of the old program into the cache of the new one. The image check then succeeds, and a flow of the new program runs the old program's code.\<close>

theorem reload_races_with_compilation:
  "matches_chunk 1 reloaded_meanwhile \<and> get_trace first_key (jit_reload (1, new_chunk) reloaded_meanwhile) = None
   \<and> interpreted 100 new_chunk = VmComplete (VInt 9)
   \<and> fst (run_vm_with_jit_runtime (\<lambda>_ _. 0) 2 plain_clif 1 100 (small_vm new_chunk)
        \<lparr>js_runtime = reloaded_meanwhile, js_module = None, js_metrics = None\<rparr>) = Inr (VmComplete (VInt 7))"
proof -
  have "matches_chunk 1 reloaded_meanwhile" by code_simp
  moreover have "get_trace first_key (jit_reload (1, new_chunk) reloaded_meanwhile) = None"
    by (simp add: get_trace_def jit_reload_def if_live_def trace_cache_clear_def trace_cache_get_def)
  moreover have "interpreted 100 new_chunk = VmComplete (VInt 9)" by code_simp
  moreover have "fst (run_vm_with_jit_runtime (\<lambda>_ _. 0) 2 plain_clif 1 100 (small_vm new_chunk)
        \<lparr>js_runtime = reloaded_meanwhile, js_module = None, js_metrics = None\<rparr>) = Inr (VmComplete (VInt 7))" by code_simp
  ultimately show ?thesis by blast
qed

section \<open>The dispatcher\<close>

text \<open>With a live cache lock the recursion after a compilation ends at the first look into the cache.\<close>

lemma try_run_hot_runtime_fuel:
  assumes "\<not> mx_poisoned (jr_cache (js_runtime s))"
  shows "try_run_hot_runtime (Suc (Suc n)) c ch key slots budget count s = try_run_hot_runtime 2 c ch key slots budget count s"
proof -
  have hit: "get_trace key (insert_trace key tr (snd (record_hot_hit key (js_runtime s)))) = Some (ct_entry tr)" for tr
    using assms by (auto simp: get_trace_def insert_trace_def if_live_def trace_cache_get_def trace_cache_insert_def
      record_hot_hit_def split: prod.split)
  have same: "get_trace key (snd (record_hot_hit key (js_runtime s))) = get_trace key (js_runtime s)"
    by (auto simp: get_trace_def record_hot_hit_def split: prod.split)
  have two: "(2 :: nat) = Suc (Suc 0)" by simp
  show ?thesis
    using hit same unfolding two
    by (cases "record_hot_hit key (js_runtime s)") (auto simp: inc_jit_def Let_def split: option.split sum.split prod.split)
qed

end
