(* ===== verification/Spec2Isabelle.thy ===== *)
theory Spec2Isabelle
  imports BF_Format BF_Machine_Safety BF_Builder BF_Finalize_Safety BF_Hop_Safety BF_Runtime_Safety BF_Program_Safety BF_Jit_Faults
begin

text \<open>
  A verification of byteflow, an embeddable runtime for bytecode flows: the Rust crate \<open>src/crates/byteflow\<close>. Paths below
  are relative to its \<open>src\<close> directory.

  \<^bold>\<open>The program.\<close> A host builds a chunk (constants, instructions, a function table) with the program API or decodes one from
  the \<open>.bf\<close> format; the verifier accepts it; the runtime spawns flows on it. A flow is a register machine. Worker threads
  take flows from queues and run them for a slice of instructions; the machine stops with an effect (send, ask, receive,
  spawn, sleep, delegate, link, ...) that the worker applies to the shared tables. A flow addresses others only through
  capabilities the scheduler issues. A timer thread expires waits and sleeps, finalization takes a flow that ended out of
  every table and informs those that depended on it, and supervisors restart children. With the \<open>jit\<close> feature a worker tries
  a compiled trace before each interpreted instruction.

  \<^bold>\<open>Theories and code.\<close>

  \<^item> Bytecode. \<open>BF_Opcode\<close>: \<open>bytecode/opcode.rs\<close>. \<open>BF_Float64\<close>: \<open>f64\<close> as bit patterns. \<open>BF_Value\<close>: \<open>bytecode/value.rs\<close>.
    \<open>BF_Cap\<close>: \<open>bytecode/cap.rs\<close>, \<open>scheduler/delegate.rs\<close>. \<open>BF_Chunk\<close>: \<open>bytecode/{instruction,chunk}.rs\<close>. \<open>BF_Verify\<close>:
    \<open>bytecode/verify.rs\<close>. \<open>BF_Format\<close>: \<open>bytecode/format.rs\<close>. \<open>BF_Builder\<close>: \<open>bytecode/builder.rs\<close>. \<open>BF_Program\<close>:
    \<open>bytecode/program.rs\<close>. \<open>BF_Samples\<close>: \<open>samples.rs\<close>. \<open>BF_Program_Safety\<close>: what such programs do.
  \<^item> Machine. \<open>BF_Native\<close>: \<open>vm/{fault,native}.rs\<close>, \<open>natives.rs\<close>. \<open>BF_Machine\<close>: \<open>vm/{frame,result,machine}.rs\<close>; \<open>exec_instr\<close>
    is the \<open>match\<close> of \<open>Vm::run\<close>, \<open>vm_run\<close> its loop. \<open>BF_Machine_Safety\<close>: its invariants. \<open>BF_Machine_Steps\<close>: lemmas that
    step it through known code.
  \<^item> Scheduler. \<open>BF_Quota\<close>, \<open>BF_Process\<close> (\<open>process.rs\<close>, \<open>error.rs\<close>), \<open>BF_Mailbox_Queue\<close> and \<open>BF_Mailbox\<close> (\<open>mailbox/\<close>),
    \<open>BF_CapTable\<close> (\<open>capability.rs\<close>), \<open>BF_Tables\<close> (\<open>sync_lock.rs\<close>), \<open>BF_Relations\<close> (\<open>link.rs\<close>, \<open>monitor.rs\<close>, \<open>link_admin.rs\<close>),
    \<open>BF_Registry\<close> (\<open>registry.rs\<close>, \<open>directory.rs\<close>, the wait tables of \<open>finalize.rs\<close>), \<open>BF_Oneshot\<close> (\<open>oneshot.rs\<close>, \<open>handle.rs\<close>),
    \<open>BF_Shared\<close> (the shared state of \<open>runtime.rs\<close>), \<open>BF_Finalize\<close>, \<open>BF_Timer\<close>, \<open>BF_Spawn\<close>, \<open>BF_Worker\<close> and \<open>BF_Drive\<close>
    (\<open>worker.rs\<close>), \<open>BF_Runtime\<close> and \<open>BF_Supervisor\<close>: the files of \<open>scheduler/\<close> of those names. \<open>BF_Finalize_Safety\<close>,
    \<open>BF_Drive_Safety\<close>, \<open>BF_Authority\<close>, \<open>BF_Hop_Safety\<close>, \<open>BF_Supervisor_Safety\<close> and \<open>BF_Runtime_Safety\<close> hold their theorems.
  \<^item> Trace compiler. \<open>BF_Jit\<close> and \<open>BF_Jit_Code\<close>: \<open>jit/{exit,frame,error,trace,compiler}.rs\<close>. \<open>BF_Jit_Dispatch\<close>:
    \<open>jit/{runtime,module_local,dispatch}.rs\<close>, \<open>scheduler/jit.rs\<close>. \<open>BF_Jit_Safety\<close>: the simulation. \<open>BF_Jit_Faults\<close>: where
    compiled code and interpreter part.
  \<^item> \<open>BF_Prelude\<close> holds the words, results, byte codecs and list lemmas all of them use. This theory holds the properties of
    the verifier and the machine together.

  \<^bold>\<open>How the code is represented.\<close> A struct is a record and an enum a datatype with its constructors. Machine integers are words;
  \<open>usize\<close> is \<open>nat\<close> with the 64-bit bound written out where the source adds or casts. \<open>Result\<close> is a sum with the error on the
  left, and an operation that fails after it changed state returns both. A mutex is a flag that says whether it is
  poisoned; a hash map is a map, or the list of its entries where its order can be seen. Objects behind an \<open>Arc\<close> live in
  heaps indexed by their identity. Handlers of the scheduler run one at a time; the structures that are raced within one
  operation (CPU and memory charging, the mailbox, the completion channel, a reload beside a compilation) are replayed
  as steps, and \<open>runtime_step\<close> interleaves workers, timer, supervisors and host at the grain of operations. Clocks,
  random numbers, thread creation, the text of \<open>Debug\<close>, native functions and Cranelift (\<open>clif\<close>) are parameters. A closure
  of the program API is a function on the function under construction.

  \<^bold>\<open>What is shown.\<close>

  \<^item> The verifier decides its specification; a verified chunk never makes the machine take a fault the verifier excludes; a
    module decodes to what was encoded, and what decodes under an untrusted policy is verified; labels resolve to their
    bindings; every sample verifies, and the documented counting loop counts.
  \<^item> Capabilities: values in a flow are never forged, natives stay behind the gate, derived capabilities never exceed their
    parents, revocation is complete, children are confined, hops are authenticated, and the privileges no flow starts with
    appear only by the host's hand, in every reachable state of the runtime.
  \<^item> Scheduling: inboxes are bounded and first-in-first-out per filter, a parked receiver has no match, timers fire in order
    and a stale deadline does nothing, a turn of a worker ends, a flow that ended is known to no table, outcomes are
    delivered at most once, restarts respect their intensity.
  \<^item> Traces: a compiled trace that inlines no call computes what the interpreter computes, up to the representation of
    booleans, and crashes only where a signed division overflows.
  \<^item> Where the code does not do what it means to: traces of several shapes, a reload beside a compilation, a sender parked
    beside an idle receiver, a cascade that is overwritten, delegation of native rights, an epoch that a rebinding revives.

  \<^bold>\<open>Loops and bounds.\<close> \<open>vm_run\<close> recurses on its instruction budget and \<open>run_code\<close> on the budget each emitted instruction
  decrements. Three loops carry fuel. \<open>finalize_loop\<close> takes one more than the number of flows held in mailboxes, and its work
  list is then empty; the drive loop returns for any fuel above the flow's CPU budget; the waits of \<open>oneshot.rs\<close> return once
  the clock reaches the deadline or the value arrives. \<open>try_run_hot_runtime\<close> needs two rounds while the cache lock is live.

  \<^bold>\<open>Not modelled.\<close> The machine code Cranelift generates, the command line (\<open>bin/\<close>), logging and printed output, the
  disassembler and the macros that only forward to modelled functions, condition variables and the operating system's
  threads, panics inside a slice, and the text of \<open>Display\<close> for values. The default build has no \<open>jit\<close> feature; the drive loop
  here is that build's, and the loop of \<open>jit/dispatch.rs\<close> that replaces \<open>vm.run\<close> is modelled beside it.
\<close>

section \<open>A concrete flow\<close>

definition demo_vm :: vm where
  "demo_vm = \<lparr>vm_chunk = sample_chunk, vm_natives = std_native_table (Inr 0),
     vm_native_gate = gate_deny 8 0 1,
     vm_frames = [\<lparr>fr_function = 0, fr_pc = 0, fr_registers = [VUnit], fr_dest_reg = None\<rparr>],
     vm_instructions_executed = 0, vm_next_request_id = 1, vm_quota = None\<rparr>"

lemma demo_vm_new:
  "vm_with_native_gate sample_chunk (std_native_table (Inr 0)) (gate_deny 8 0 1) 0 [] = Inr demo_vm"
  by (simp add: vm_with_native_gate_def demo_vm_def sample_chunk_def chunk_function_def frame_new_def)

lemma sample_chunk_verify: "verify_with sample_chunk verify_config_default = Inr ()"
  by (simp add: verify_with_def verify_config_default_def sample_chunk_def validate_constant_def
      verify_function_def verify_instruction_def instr_defs)

lemma demo_vm_run:
  "vm_run (\<lambda>_ _. 0) 2 demo_vm =
     (demo_vm\<lparr>vm_frames := [\<lparr>fr_function = 0, fr_pc = 2, fr_registers = [VStr 3 [104, 105]], fr_dest_reg = None\<rparr>],
        vm_instructions_executed := 2\<rparr>, VmComplete (VStr 3 [104, 105]))"
  by (simp add: demo_vm_def vm_step_def numeral_2_eq_2 fetch_def sample_chunk_def instr_defs exec_instr_def
      op_defs trap_or_def trap_unit_def set_reg_def get_reg_def charge_register_store_def chunk_constant_def)

section \<open>The interpreter on verified chunks\<close>

text \<open>C1: type soundness of the interpreter. A flow entered on a chunk the verifier accepted stays well-formed through its
  whole life, whatever slices it runs and values it is resumed with: frames match the function table, program counters
  stay inside the code, the call stack is bounded; and no slice ends in one of the faults the verifier exists to exclude
  (bad constant, bad function, bad opcode, an empty frame stack).\<close>

theorem verified_flow_sound:
  assumes "verify_with ch config = Inr ()" and "length (ch_code ch) < 2 ^ 63" and "natives_safe t"
    and "vm_with_native_gate ch t g fn args = Inr m0"
    and "flow_reach m0 G m" and "vm_run cells budget m = (m', res)"
  shows "vm_ok m \<and> (vm_ok m' \<or> (\<exists>v. res = VmComplete v)) \<and> (\<forall>f. res = VmTrap f \<longrightarrow> \<not> verifier_fault f)"
proof -
  have ver: "verified (vc_trust config) ch" using assms(1) by (simp add: verify_with_iff)
  have m0: "vm_chunk m0 = ch" "vm_natives m0 = t"
    using vm_with_native_gate_static [OF assms(4)] by (simp_all add: vm_static_def)
  have m: "vm_chunk m = ch" "vm_natives m = t"
    using flow_static [OF assms(5)] m0 by (simp_all add: vm_static_def)
  have ok: "vm_ok m"
    using flow_ok [OF assms(5) vm_with_native_gate_ok [OF assms(4) ver]] assms(2,3) ver m0 by simp
  then show ?thesis using sound_vm_run [OF ok _ _ _ assms(6)] assms(2,3) ver m by simp
qed

theorem verified_flow_sound_witness:
  "vm_ok demo_vm \<and> snd (vm_run (\<lambda>_ _. 0) 2 demo_vm) = VmComplete (VStr 3 [104, 105])"
  using verified_flow_sound [OF sample_chunk_verify _ std_natives_safe demo_vm_new flow_reach.start demo_vm_run]
  by (simp add: sample_chunk_def demo_vm_run)

text \<open>C2: capabilities are unforgeable. On an untrusted chunk, with natives that only hand out capabilities found in
  their arguments, a flow never holds, and never passes to the scheduler, a capability other than the ones it was started
  with, the ones it was resumed with, and the null capability.\<close>

theorem flow_never_forges_capabilities:
  assumes "verify ch = Inr ()"
    and "\<And>S. natives_closed (\<lambda>v. value_caps v \<subseteq> insert CAP_NONE S) t"
    and "vm_with_native_gate ch t g fn args = Inr m0"
    and "flow_reach m0 G m" and "vm_run cells budget m = (m', res)"
  shows "vm_caps m' \<union> result_caps res \<subseteq> insert CAP_NONE (vm_caps m0 \<union> G)"
proof -
  have ver: "verified Untrusted ch"
    using assms(1) by (simp add: verify_def verify_with_iff verify_config_default_def)
  have m0: "vm_chunk m0 = ch" "vm_natives m0 = t"
    using vm_with_native_gate_static [OF assms(3)] by (simp_all add: vm_static_def)
  have m: "vm_chunk m = ch" "vm_natives m = t"
    using flow_static [OF assms(4)] m0 by (simp_all add: vm_static_def)
  have "vm_caps m \<subseteq> insert CAP_NONE (vm_caps m0 \<union> G)"
    using flow_caps [OF assms(4)] ver assms(2) m0 by simp
  then show ?thesis using vm_run_caps [OF _ _ assms(5)] ver assms(2) m by auto
qed

theorem flow_never_forges_capabilities_witness:
  "vm_caps (fst (vm_run (\<lambda>_ _. 0) 2 demo_vm)) \<subseteq> insert CAP_NONE (vm_caps demo_vm)"
  using flow_never_forges_capabilities [OF _ std_natives_caps_closed demo_vm_new flow_reach.start demo_vm_run]
    sample_chunk_verify
  by (simp add: verify_def demo_vm_run)

text \<open>C5: non-interference of the native gate. While the gate is closed (the flow lacks the native right, its mask is empty,
  or its authority was revoked) a run behaves the same whatever the host functions do: the machine, the result and the
  counters are those of a run over any other table of the same size.\<close>

theorem closed_gate_hides_natives:
  assumes "\<And>k. gate_closed (cells k) (vm_native_gate m)" and "length t = length (vm_natives m)"
  shows "vm_run cells budget (m\<lparr>vm_natives := t\<rparr>) = apfst (\<lambda>m'. m'\<lparr>vm_natives := t\<rparr>) (vm_run cells budget m)"
  using vm_run_with_natives [OF assms, where budget = budget] by (simp add: with_natives_def [abs_def])

theorem closed_gate_hides_natives_witness:
  "vm_run (\<lambda>_ _. 0) 5 (demo_vm\<lparr>vm_natives := replicate 8 None\<rparr>)
     = apfst (\<lambda>m'. m'\<lparr>vm_natives := replicate 8 None\<rparr>) (vm_run (\<lambda>_ _. 0) 5 demo_vm)"
  by (rule closed_gate_hides_natives)
    (simp_all add: gate_closed_def demo_vm_def gate_deny_def std_native_table_eq)

text \<open>A run keeps the memory quota: from a quota within its limit, the bytes charged only grow, stay within the limit,
  and nothing else of the quota changes; a flow without a quota gets none.\<close>

theorem vm_run_respects_memory_quota:
  "quota_grows (vm_quota m) (vm_quota (fst (vm_run cells budget m)))"
  by (rule mem.vm_run_R)

text \<open>Preemption. A slice executes at most its budget of instructions, and changes neither the program, the natives
  nor the gate.\<close>

theorem vm_run_preempts:
  "(\<exists>k\<le>budget. vm_instructions_executed (fst (vm_run cells budget m)) = vm_instructions_executed m + of_nat k) \<and>
   vm_static (fst (vm_run cells budget m)) = vm_static m"
  using vm_run_counts static.vm_run_R by blast

end
